(* ===== verification/Prelude.thy ===== *)
theory Prelude
  imports Main
begin

section \<open>Prelude: the effect monad, its triples, and table updates\<close>

text \<open>
  Every handler of the server is a function that reads and writes a state and either
  returns a value or an error (Go's \<open>(value, error)\<close> pair). The type \<open>('s, 'e, 'a) m\<close>
  is that function; the state survives an error, as it does in the program (a consumed
  nonce stays consumed when a later check fails). The theory holds the monad, Hoare triples
  over it (\<open>validT\<close>) with the rules that carry the invariant proofs, and the
  list-as-table operations that model SQL statements.

  Collections of rules: \<open>mdefs\<close> (unfold the monad), \<open>trip\<close> (triple introduction),
  \<open>keepI\<close> (operations that leave the database alone).
\<close>

named_theorems mdefs \<open>definitions of the monad operations\<close>
named_theorems trip \<open>introduction rules for triples\<close>
named_theorems keepI \<open>operations that leave an observation of the state unchanged\<close>

subsection \<open>The monad\<close>

type_synonym ('s, 'e, 'a) m = "'s \<Rightarrow> ('e + 'a) \<times> 's"

definition retM :: "'a \<Rightarrow> ('s, 'e, 'a) m" where
  [mdefs]: "retM x = (\<lambda>s. (Inr x, s))"

definition throwM :: "'e \<Rightarrow> ('s, 'e, 'a) m" where
  [mdefs]: "throwM e = (\<lambda>s. (Inl e, s))"

definition bindM :: "('s, 'e, 'a) m \<Rightarrow> ('a \<Rightarrow> ('s, 'e, 'b) m) \<Rightarrow> ('s, 'e, 'b) m" where
  [mdefs]: "bindM m f = (\<lambda>s. case m s of (r, s') \<Rightarrow>
     (case r of Inl e \<Rightarrow> (Inl e, s') | Inr x \<Rightarrow> f x s'))"

definition seqM :: "('s, 'e, 'a) m \<Rightarrow> ('s, 'e, 'b) m \<Rightarrow> ('s, 'e, 'b) m" where
  [mdefs]: "seqM m k = bindM m (\<lambda>_. k)"

text \<open>\<open>tryM\<close> hands the caller the error as a value, as \<open>x, err := f()\<close> does.\<close>

definition tryM :: "('s, 'e, 'a) m \<Rightarrow> ('s, 'e, 'e + 'a) m" where
  [mdefs]: "tryM m = (\<lambda>s. case m s of (r, s') \<Rightarrow> (Inr r, s'))"

text \<open>\<open>ignoreM\<close> is \<open>_ = f()\<close>: the effect happens, the outcome is dropped.\<close>

definition ignoreM :: "('s, 'e, 'a) m \<Rightarrow> ('s, 'e, unit) m" where
  [mdefs]: "ignoreM m = (\<lambda>s. (Inr (), snd (m s)))"

text \<open>\<open>guardM b e\<close> is \<open>if !b { return e }\<close>.\<close>

definition guardM :: "bool \<Rightarrow> 'e \<Rightarrow> ('s, 'e, unit) m" where
  [mdefs]: "guardM b e = (if b then retM () else throwM e)"

definition getsM :: "('s \<Rightarrow> 'a) \<Rightarrow> ('s, 'e, 'a) m" where
  [mdefs]: "getsM f = (\<lambda>s. (Inr (f s), s))"

definition modifyM :: "('s \<Rightarrow> 's) \<Rightarrow> ('s, 'e, unit) m" where
  [mdefs]: "modifyM f = (\<lambda>s. (Inr (), f s))"

text \<open>\<open>mapErrM f m\<close> replaces the error of \<open>m\<close>.\<close>

definition mapErrM :: "('e \<Rightarrow> 'e) \<Rightarrow> ('s, 'e, 'a) m \<Rightarrow> ('s, 'e, 'a) m" where
  [mdefs]: "mapErrM f m = (\<lambda>s. case m s of (r, s') \<Rightarrow>
     (case r of Inl e \<Rightarrow> (Inl (f e), s') | Inr x \<Rightarrow> (Inr x, s')))"

lemma bindM_retM [simp]: "bindM (retM x) f = f x"
  by (simp add: mdefs)

lemma bindM_throwM [simp]: "bindM (throwM e) f = throwM e"
  by (simp add: mdefs)

lemma bindM_assoc: "bindM (bindM m f) g = bindM m (\<lambda>x. bindM (f x) g)"
  by (rule ext) (simp add: mdefs split: prod.splits sum.splits)

lemma bindM_right_id: "bindM m retM = m"
  by (rule ext) (simp add: mdefs split: prod.splits sum.splits)

text \<open>How a run of a composite goes through its parts.\<close>

lemma bindM_Inr_iff:
  "bindM m f s = (Inr y, t) \<longleftrightarrow> (\<exists>x u. m s = (Inr x, u) \<and> f x u = (Inr y, t))"
  by (auto simp: mdefs split: prod.splits sum.splits)

lemma bindM_Inl_iff:
  "bindM m f s = (Inl e, t) \<longleftrightarrow>
     m s = (Inl e, t) \<or> (\<exists>x u. m s = (Inr x, u) \<and> f x u = (Inl e, t))"
  by (auto simp: mdefs split: prod.splits sum.splits)

lemma seqM_Inr_iff:
  "seqM m k s = (Inr y, t) \<longleftrightarrow> (\<exists>x u. m s = (Inr x, u) \<and> k u = (Inr y, t))"
  by (simp add: seqM_def bindM_Inr_iff)

lemma seqM_Inl_iff:
  "seqM m k s = (Inl e, t) \<longleftrightarrow>
     m s = (Inl e, t) \<or> (\<exists>x u. m s = (Inr x, u) \<and> k u = (Inl e, t))"
  by (simp add: seqM_def bindM_Inl_iff)

lemma retM_eq_iff: "retM x s = (r, t) \<longleftrightarrow> r = Inr x \<and> t = s"
  by (auto simp: mdefs)

lemma throwM_eq_iff: "throwM e s = (r, t) \<longleftrightarrow> r = Inl e \<and> t = s"
  by (auto simp: mdefs)

lemma guardM_Inr_iff: "guardM b e s = (Inr u, t) \<longleftrightarrow> b \<and> t = s"
  by (auto simp: mdefs)

lemma guardM_Inl_iff: "guardM b e s = (Inl e', t) \<longleftrightarrow> \<not> b \<and> e' = e \<and> t = s"
  by (auto simp: mdefs)

lemma getsM_eq_iff: "getsM f s = (r, t) \<longleftrightarrow> r = Inr (f s) \<and> t = s"
  by (auto simp: mdefs)

lemma modifyM_eq_iff: "modifyM f s = (r, t) \<longleftrightarrow> r = Inr () \<and> t = f s"
  by (auto simp: mdefs)

lemmas run_iffs = bindM_Inr_iff bindM_Inl_iff seqM_Inr_iff seqM_Inl_iff retM_eq_iff
  throwM_eq_iff guardM_Inr_iff guardM_Inl_iff getsM_eq_iff modifyM_eq_iff

subsection \<open>Triples\<close>

text \<open>
  \<open>validT P m Q E\<close>: from a state with \<open>P\<close>, a run of \<open>m\<close> that returns ends in \<open>Q\<close> of
  the value, and one that fails ends in \<open>E\<close> of the error.
\<close>

definition validT :: "('s \<Rightarrow> bool) \<Rightarrow> ('s, 'e, 'a) m \<Rightarrow> ('a \<Rightarrow> 's \<Rightarrow> bool) \<Rightarrow>
    ('e \<Rightarrow> 's \<Rightarrow> bool) \<Rightarrow> bool" where
  "validT P m Q E \<longleftrightarrow> (\<forall>s. P s \<longrightarrow> (case m s of (r, s') \<Rightarrow>
     (case r of Inl e \<Rightarrow> E e s' | Inr x \<Rightarrow> Q x s')))"

abbreviation preserves :: "('s \<Rightarrow> bool) \<Rightarrow> ('s, 'e, 'a) m \<Rightarrow> bool" where
  "preserves I m \<equiv> validT I m (\<lambda>_. I) (\<lambda>_. I)"

lemma validTI:
  assumes "\<And>s e t. P s \<Longrightarrow> m s = (Inl e, t) \<Longrightarrow> E e t"
    and "\<And>s x t. P s \<Longrightarrow> m s = (Inr x, t) \<Longrightarrow> Q x t"
  shows "validT P m Q E"
  using assms by (auto simp: validT_def split: prod.splits sum.splits)

lemma validT_Inr: "validT P m Q E \<Longrightarrow> P s \<Longrightarrow> m s = (Inr x, t) \<Longrightarrow> Q x t"
  by (auto simp: validT_def dest: spec [of _ s])

lemma validT_Inl: "validT P m Q E \<Longrightarrow> P s \<Longrightarrow> m s = (Inl e, t) \<Longrightarrow> E e t"
  by (auto simp: validT_def dest: spec [of _ s])

lemma preserves_snd: "preserves I m \<Longrightarrow> I s \<Longrightarrow> I (snd (m s))"
  by (cases "m s"; cases "fst (m s)") (auto simp: validT_def dest!: spec [of _ s])

lemma validT_weaken:
  "validT P' m Q' E' \<Longrightarrow> (\<And>s. P s \<Longrightarrow> P' s) \<Longrightarrow> (\<And>x s. Q' x s \<Longrightarrow> Q x s) \<Longrightarrow>
    (\<And>e s. E' e s \<Longrightarrow> E e s) \<Longrightarrow> validT P m Q E"
  by (fastforce simp: validT_def split: prod.splits sum.splits)

lemma validT_pre: "validT P' m Q E \<Longrightarrow> (\<And>s. P s \<Longrightarrow> P' s) \<Longrightarrow> validT P m Q E"
  by (rule validT_weaken)

lemma validT_bindM [trip]:
  "validT P m R E \<Longrightarrow> (\<And>x. validT (R x) (f x) Q E) \<Longrightarrow> validT P (bindM m f) Q E"
  by (fastforce simp: validT_def mdefs split: prod.splits sum.splits)

lemma validT_seqM [trip]:
  "validT P m (\<lambda>_. R) E \<Longrightarrow> validT R k Q E \<Longrightarrow> validT P (seqM m k) Q E"
  unfolding seqM_def by (rule validT_bindM)

lemma validT_retM: "(\<And>s. P s \<Longrightarrow> Q x s) \<Longrightarrow> validT P (retM x) Q E"
  by (simp add: validT_def mdefs)

lemma validT_throwM: "(\<And>s. P s \<Longrightarrow> E e s) \<Longrightarrow> validT P (throwM e) Q E"
  by (simp add: validT_def mdefs)

lemma validT_guardM:
  "(\<And>s. P s \<Longrightarrow> b \<Longrightarrow> Q () s) \<Longrightarrow> (\<And>s. P s \<Longrightarrow> \<not> b \<Longrightarrow> E e s) \<Longrightarrow> validT P (guardM b e) Q E"
  by (simp add: validT_def mdefs)

text \<open>The invariant forms: what the proofs of \<open>preserves\<close> use, mostly by \<open>intro trip\<close>.\<close>

lemma preserves_retM [trip]: "preserves I (retM x)"
  by (simp add: validT_def mdefs)

lemma preserves_throwM [trip]: "preserves I (throwM e)"
  by (simp add: validT_def mdefs)

lemma preserves_guardM [trip]: "preserves I (guardM b e)"
  by (simp add: validT_def mdefs)

lemma preserves_getsM [trip]: "preserves I (getsM f)"
  by (simp add: validT_def mdefs)

lemma preserves_tryM [trip]: "preserves I m \<Longrightarrow> preserves I (tryM m)"
  by (fastforce simp: validT_def mdefs split: prod.splits sum.splits)

lemma preserves_ignoreM [trip]: "preserves I m \<Longrightarrow> preserves I (ignoreM m)"
  by (rule validTI) (auto simp: ignoreM_def dest: preserves_snd)

lemma preserves_mapErrM [trip]: "preserves I m \<Longrightarrow> preserves I (mapErrM f m)"
  by (fastforce simp: validT_def mdefs split: prod.splits sum.splits)

lemma preserves_if [trip]:
  "(b \<Longrightarrow> preserves I m) \<Longrightarrow> (\<not> b \<Longrightarrow> preserves I n) \<Longrightarrow> preserves I (if b then m else n)"
  by simp

lemma preserves_case_option [trip]:
  "(x = None \<Longrightarrow> preserves I m) \<Longrightarrow> (\<And>y. x = Some y \<Longrightarrow> preserves I (f y)) \<Longrightarrow>
    preserves I (case x of None \<Rightarrow> m | Some y \<Rightarrow> f y)"
  by (cases x) auto

lemma preserves_case_sum [trip]:
  "(\<And>e. x = Inl e \<Longrightarrow> preserves I (g e)) \<Longrightarrow> (\<And>y. x = Inr y \<Longrightarrow> preserves I (f y)) \<Longrightarrow>
    preserves I (case x of Inl e \<Rightarrow> g e | Inr y \<Rightarrow> f y)"
  by (cases x) auto

lemma preserves_case_prod [trip]:
  "(\<And>a b. x = (a, b) \<Longrightarrow> preserves I (f a b)) \<Longrightarrow> preserves I (case x of (a, b) \<Rightarrow> f a b)"
  by (cases x) auto

lemma preserves_Let [trip]: "(\<And>x. preserves I (f x)) \<Longrightarrow> preserves I (Let v f)"
  by (simp add: Let_def)

subsection \<open>Observations an operation leaves alone\<close>

definition keeps :: "('s \<Rightarrow> 'o) \<Rightarrow> ('s, 'e, 'a) m \<Rightarrow> bool" where
  "keeps obs m \<longleftrightarrow> (\<forall>s. obs (snd (m s)) = obs s)"

lemma keepsD: "keeps obs m \<Longrightarrow> m s = (r, t) \<Longrightarrow> obs t = obs s"
  unfolding keeps_def by (metis snd_conv)

lemma keeps_preserves: "keeps obs m \<Longrightarrow> preserves (\<lambda>s. J (obs s)) m"
  by (rule validTI) (auto dest: keepsD)

lemma keeps_bindM [keepI]: "keeps obs m \<Longrightarrow> (\<And>x. keeps obs (f x)) \<Longrightarrow> keeps obs (bindM m f)"
  by (simp add: keeps_def mdefs split: prod.splits sum.splits) (metis snd_conv)

lemma keeps_seqM [keepI]: "keeps obs m \<Longrightarrow> keeps obs k \<Longrightarrow> keeps obs (seqM m k)"
  unfolding seqM_def by (rule keeps_bindM)

lemma keeps_basic [keepI]:
  "keeps obs (retM x)" "keeps obs (throwM e)" "keeps obs (guardM b e)" "keeps obs (getsM f)"
  by (simp_all add: keeps_def mdefs)

lemma keeps_tryM [keepI]: "keeps obs m \<Longrightarrow> keeps obs (tryM m)"
  by (simp add: keeps_def mdefs split: prod.splits) (metis snd_conv)

lemma keeps_ignoreM [keepI]: "keeps obs m \<Longrightarrow> keeps obs (ignoreM m)"
  by (simp add: keeps_def mdefs)

lemma keeps_mapErrM [keepI]: "keeps obs m \<Longrightarrow> keeps obs (mapErrM f m)"
  by (simp add: keeps_def mdefs split: prod.splits sum.splits) (metis snd_conv)

lemma keeps_if [keepI]:
  "(b \<Longrightarrow> keeps obs m) \<Longrightarrow> (\<not> b \<Longrightarrow> keeps obs n) \<Longrightarrow> keeps obs (if b then m else n)"
  by simp

lemma keeps_case_option [keepI]:
  "(x = None \<Longrightarrow> keeps obs m) \<Longrightarrow> (\<And>y. x = Some y \<Longrightarrow> keeps obs (f y)) \<Longrightarrow>
    keeps obs (case x of None \<Rightarrow> m | Some y \<Rightarrow> f y)"
  by (cases x) auto

lemma keeps_case_sum [keepI]:
  "(\<And>e. x = Inl e \<Longrightarrow> keeps obs (g e)) \<Longrightarrow> (\<And>y. x = Inr y \<Longrightarrow> keeps obs (f y)) \<Longrightarrow>
    keeps obs (case x of Inl e \<Rightarrow> g e | Inr y \<Rightarrow> f y)"
  by (cases x) auto

lemma keeps_Let [keepI]: "(\<And>x. keeps obs (f x)) \<Longrightarrow> keeps obs (Let v f)"
  by (simp add: Let_def)

subsection \<open>Tables as lists of rows\<close>

text \<open>
  A table is the list of its rows in insertion order. \<open>upd p f t\<close> is
  \<open>UPDATE t SET f WHERE p\<close>; \<open>affected p t\<close> is the command tag's row count.
\<close>

definition upd :: "('r \<Rightarrow> bool) \<Rightarrow> ('r \<Rightarrow> 'r) \<Rightarrow> 'r list \<Rightarrow> 'r list" where
  "upd p f t = map (\<lambda>r. if p r then f r else r) t"

definition affected :: "('r \<Rightarrow> bool) \<Rightarrow> 'r list \<Rightarrow> nat" where
  "affected p t = length (filter p t)"

definition exists_row :: "('r \<Rightarrow> bool) \<Rightarrow> 'r list \<Rightarrow> bool" where
  "exists_row p t \<longleftrightarrow> list_ex p t"

lemma affected_0: "affected p t = 0 \<longleftrightarrow> (\<forall>r \<in> set t. \<not> p r)"
  by (simp add: affected_def filter_empty_conv)

lemma exists_row_iff: "exists_row p t \<longleftrightarrow> (\<exists>r \<in> set t. p r)"
  by (simp add: exists_row_def list_ex_iff)

lemma set_upd: "set (upd p f t) = (\<lambda>r. if p r then f r else r) ` set t"
  by (simp add: upd_def)

lemma upd_Nil [simp]: "upd p f [] = []"
  by (simp add: upd_def)

lemma upd_Cons [simp]: "upd p f (r # t) = (if p r then f r else r) # upd p f t"
  by (simp add: upd_def)

lemma length_upd [simp]: "length (upd p f t) = length t"
  by (simp add: upd_def)

lemma in_upd_iff:
  "r \<in> set (upd p f t) \<longleftrightarrow> (\<exists>q \<in> set t. r = (if p q then f q else q))"
  by (auto simp: upd_def)

text \<open>A row predicate survives an update that keeps it on the rows it touches.\<close>

lemma ball_upd:
  "\<forall>r \<in> set t. Q r \<Longrightarrow> (\<And>r. r \<in> set t \<Longrightarrow> Q r \<Longrightarrow> p r \<Longrightarrow> Q (f r)) \<Longrightarrow> \<forall>r \<in> set (upd p f t). Q r"
  by (auto simp: upd_def)

text \<open>An update that keeps a column keeps the column's list of values.\<close>

lemma map_upd_eq: "(\<And>r. p r \<Longrightarrow> k (f r) = k r) \<Longrightarrow> map k (upd p f t) = map k t"
  by (simp add: upd_def)

lemma find_None_ball: "find p t = None \<longleftrightarrow> (\<forall>r \<in> set t. \<not> p r)"
  by (auto simp: find_None_iff)

lemma find_Some_in: "find p t = Some r \<Longrightarrow> r \<in> set t \<and> p r"
  by (auto simp: find_Some_iff)

lemma distinct_map_eqD:
  "distinct (map k t) \<Longrightarrow> a \<in> set t \<Longrightarrow> b \<in> set t \<Longrightarrow> k a = k b \<Longrightarrow> a = b"
  by (auto simp: distinct_map dest: inj_onD)

lemma find_unique:
  assumes "distinct (map k t)" "r \<in> set t" "k r = v"
  shows "find (\<lambda>q. k q = v) t = Some r"
  using assms
proof (induction t)
  case (Cons a t)
  then show ?case by (cases "a = r") auto
qed simp

subsection \<open>Runs of an operation over a list of inputs\<close>

text \<open>\<open>run_ops f xs s\<close>: apply \<open>f\<close> to each input in turn; the outputs, and the final state.\<close>

fun run_ops :: "('i \<Rightarrow> 's \<Rightarrow> 'o \<times> 's) \<Rightarrow> 'i list \<Rightarrow> 's \<Rightarrow> 'o list \<times> 's" where
  "run_ops f [] s = ([], s)"
| "run_ops f (x # xs) s =
     (case f x s of (y, s') \<Rightarrow> (case run_ops f xs s' of (ys, t) \<Rightarrow> (y # ys, t)))"

abbreviation outputs :: "('i \<Rightarrow> 's \<Rightarrow> 'o \<times> 's) \<Rightarrow> 'i list \<Rightarrow> 's \<Rightarrow> 'o list" where
  "outputs f xs s \<equiv> fst (run_ops f xs s)"

lemma length_outputs [simp]: "length (outputs f xs s) = length xs"
  by (induction xs arbitrary: s) (simp_all split: prod.splits, metis fst_conv)

lemma outputs_Cons: "outputs f (x # xs) s = fst (f x s) # outputs f xs (snd (f x s))"
  by (simp split: prod.splits)

lemma outputs_append:
  "outputs f (xs @ ys) s = outputs f xs s @ outputs f ys (snd (run_ops f xs s))"
  by (induction xs arbitrary: s) (simp_all split: prod.splits, metis fst_conv snd_conv)

end
