(* ===== verification/GoConv.thy ===== *)
theory GoConv
  imports GoStrings
begin

section \<open>\<open>strconv\<close>, \<open>encoding/hex\<close> and \<open>encoding/base64\<close>\<close>

text \<open>
  Decimal formatting and parsing with their round trip, lower case hex, and
  \<open>base64.RawURLEncoding\<close>: the encoder, the decoder (which skips CR and LF, refuses padding
  and a single trailing character, and ignores the unused low bits of the last one) and the
  round trip. Bytes are \<open>char\<close>s.
\<close>

subsection \<open>Decimal numbers\<close>

definition digit :: "nat \<Rightarrow> char" where
  "digit d = mk_byte (48 + d)"

definition is_digit :: "char \<Rightarrow> bool" where
  "is_digit c \<longleftrightarrow> 48 \<le> byte c \<and> byte c \<le> 57"

definition digit_val :: "char \<Rightarrow> nat" where
  "digit_val c = byte c - 48"

fun show_nat :: "nat \<Rightarrow> string" where
  "show_nat n = (if n < 10 then [digit n] else show_nat (n div 10) @ [digit (n mod 10)])"

declare show_nat.simps [simp del]

text \<open>\<open>strconv.FormatInt(n, 10)\<close>, also \<open>%d\<close>.\<close>

definition show_int :: "int \<Rightarrow> string" where
  "show_int i = (if i < 0 then CHR ''-'' # show_nat (nat (- i)) else show_nat (nat i))"

definition digits_val :: "string \<Rightarrow> nat" where
  "digits_val s = foldl (\<lambda>a c. 10 * a + digit_val c) 0 s"

definition int64_min :: int where "int64_min = - (2 ^ 63)"
definition int64_max :: int where "int64_max = 2 ^ 63 - 1"

lemmas int64_defs = int64_min_def int64_max_def

text \<open>The two ways \<open>strconv\<close> fails, and its result on a well-formed number.\<close>

datatype num_error = ErrSyntax | ErrRange int

fun strip_sign :: "string \<Rightarrow> bool \<times> string" where
  "strip_sign [] = (False, [])"
| "strip_sign (c # s) =
     (if c = CHR ''-'' then (True, s) else if c = CHR ''+'' then (False, s) else (False, c # s))"

text \<open>\<open>strconv.ParseInt(s, 10, 64)\<close>; \<open>ErrRange\<close> carries the clamped value Go returns with it.\<close>

definition parse_int :: "string \<Rightarrow> num_error + int" where
  "parse_int s =
    (case strip_sign s of (neg, ds) \<Rightarrow>
      if ds = [] \<or> \<not> list_all is_digit ds then Inl ErrSyntax
      else let v = (if neg then - int (digits_val ds) else int (digits_val ds)) in
        if v < int64_min then Inl (ErrRange int64_min)
        else if int64_max < v then Inl (ErrRange int64_max) else Inr v)"

text \<open>\<open>n, _ := strconv.Atoi(s)\<close>: the value, whatever the error.\<close>

definition atoi_or_zero :: "string \<Rightarrow> int" where
  "atoi_or_zero s =
    (case parse_int s of Inl ErrSyntax \<Rightarrow> 0 | Inl (ErrRange v) \<Rightarrow> v | Inr v \<Rightarrow> v)"

lemma byte_digit: "d < 10 \<Longrightarrow> byte (digit d) = 48 + d"
  by (simp add: digit_def)

lemma digit_props: "d < 10 \<Longrightarrow> is_digit (digit d) \<and> digit_val (digit d) = d"
  by (simp add: is_digit_def digit_val_def byte_digit)

lemma show_nat_ne [simp]: "show_nat n \<noteq> []"
  by (subst show_nat.simps) simp

lemma show_nat_digits: "list_all is_digit (show_nat n)"
proof (induction n rule: show_nat.induct)
  case (1 n)
  then show ?case by (subst show_nat.simps) (simp add: digit_props)
qed

lemma digits_val_snoc: "digits_val (s @ [c]) = 10 * digits_val s + digit_val c"
  by (simp add: digits_val_def)

lemma digits_val_show: "digits_val (show_nat n) = n"
proof (induction n rule: show_nat.induct)
  case (1 n)
  show ?case
  proof (cases "n < 10")
    case True
    then show ?thesis by (subst show_nat.simps) (simp add: digits_val_def digit_props)
  next
    case False
    with 1 show ?thesis by (subst show_nat.simps) (simp add: digits_val_snoc digit_props)
  qed
qed

lemma show_nat_inj: "show_nat m = show_nat n \<Longrightarrow> m = n"
  by (metis digits_val_show)

lemma digit_not_sign: "is_digit c \<Longrightarrow> c \<noteq> CHR ''-'' \<and> c \<noteq> CHR ''+''"
  by (auto simp: is_digit_def byte_def)

lemma strip_sign_digits: "list_all is_digit s \<Longrightarrow> strip_sign s = (False, s)"
  by (cases s) (auto dest: digit_not_sign)

lemma parse_show_int:
  assumes "int64_min \<le> i" "i \<le> int64_max"
  shows "parse_int (show_int i) = Inr i"
  using assms
  by (simp add: parse_int_def show_int_def strip_sign_digits show_nat_digits digits_val_show Let_def)

lemma show_int_chars: "c \<in> set (show_int i) \<Longrightarrow> is_digit c \<or> c = CHR ''-''"
  using show_nat_digits by (auto simp: show_int_def list_all_iff split: if_splits)

subsection \<open>Hex\<close>

definition hex_digit :: "nat \<Rightarrow> char" where
  "hex_digit n = mk_byte (if n < 10 then 48 + n else 87 + n)"

definition hex_encode :: "string \<Rightarrow> string" where
  "hex_encode bs = concat (map (\<lambda>b. [hex_digit (byte b div 16), hex_digit (byte b mod 16)]) bs)"

lemma length_hex_encode: "length (hex_encode bs) = 2 * length bs"
  by (induction bs) (simp_all add: hex_encode_def)

subsection \<open>Base64, raw URL alphabet\<close>

definition b64_char :: "nat \<Rightarrow> char" where
  "b64_char n = mk_byte (if n < 26 then 65 + n else if n < 52 then 71 + n
     else if n < 62 then n - 4 else if n = 62 then 45 else 95)"

definition b64_val :: "char \<Rightarrow> nat option" where
  "b64_val c = (let b = byte c in
     if 65 \<le> b \<and> b \<le> 90 then Some (b - 65)
     else if 97 \<le> b \<and> b \<le> 122 then Some (b - 71)
     else if 48 \<le> b \<and> b \<le> 57 then Some (b + 4)
     else if b = 45 then Some 62 else if b = 95 then Some 63 else None)"

definition is_b64 :: "char \<Rightarrow> bool" where
  "is_b64 c \<longleftrightarrow> b64_val c \<noteq> None"

fun b64_sextets :: "nat list \<Rightarrow> nat list" where
  "b64_sextets (a # b # c # r) =
     a div 4 # ((a mod 4) * 16 + b div 16) # ((b mod 16) * 4 + c div 64) # (c mod 64) # b64_sextets r"
| "b64_sextets [a, b] = [a div 4, (a mod 4) * 16 + b div 16, (b mod 16) * 4]"
| "b64_sextets [a] = [a div 4, (a mod 4) * 16]"
| "b64_sextets [] = []"

definition b64_encode :: "string \<Rightarrow> string" where
  "b64_encode bs = map b64_char (b64_sextets (map byte bs))"

fun b64_bytes :: "nat list \<Rightarrow> nat list option" where
  "b64_bytes (p # q # r # s # t) =
     map_option (\<lambda>bs. (p * 4 + q div 16) # ((q mod 16) * 16 + r div 4) # ((r mod 4) * 64 + s) # bs)
       (b64_bytes t)"
| "b64_bytes [p, q, r] = Some [p * 4 + q div 16, (q mod 16) * 16 + r div 4]"
| "b64_bytes [p, q] = Some [p * 4 + q div 16]"
| "b64_bytes [p] = None"
| "b64_bytes [] = Some []"

fun vals :: "string \<Rightarrow> nat list option" where
  "vals [] = Some []"
| "vals (c # s) = (case b64_val c of None \<Rightarrow> None | Some v \<Rightarrow> map_option ((#) v) (vals s))"

text \<open>\<open>base64.RawURLEncoding.DecodeString\<close>; \<open>None\<close> is its error.\<close>

definition b64_decode :: "string \<Rightarrow> string option" where
  "b64_decode s = (case vals (filter (\<lambda>c. byte c \<noteq> 10 \<and> byte c \<noteq> 13) s) of
     None \<Rightarrow> None | Some vs \<Rightarrow> map_option (map mk_byte) (b64_bytes vs))"

lemma b64_val_char: "n < 64 \<Longrightarrow> b64_val (b64_char n) = Some n"
  by (auto simp: b64_val_def b64_char_def Let_def)

lemma b64_char_byte: "n < 64 \<Longrightarrow> 33 \<le> byte (b64_char n) \<and> byte (b64_char n) < 128 \<and>
    byte (b64_char n) \<noteq> 46 \<and> byte (b64_char n) \<noteq> 61"
  by (auto simp: b64_char_def)

text \<open>Packing two fields in one number and reading them back.\<close>

lemma pack_div: "y < k \<Longrightarrow> (x * k + y) div k = (x :: nat)"
  by simp

lemma pack_mod: "y < k \<Longrightarrow> (x * k + y) mod k = (y :: nat)"
  by simp

lemma pack_less: "x < m \<Longrightarrow> y < k \<Longrightarrow> x * k + y < m * (k :: nat)"
  by (metis Suc_leI add_less_cancel_left less_le_trans mult_Suc add.commute mult_le_mono1)

lemma byte_div: "(b :: nat) < 256 \<Longrightarrow> b div 4 < 64 \<and> b div 16 < 16 \<and> b div 64 < 4"
  by (simp add: less_mult_imp_div_less)

lemma b64_sextets_bound: "\<forall>b \<in> set bs. b < 256 \<Longrightarrow> \<forall>v \<in> set (b64_sextets bs). v < 64"
proof (induction bs rule: b64_sextets.induct)
  case (1 a b c r)
  then show ?case
    using pack_less [of "a mod 4" 4 "b div 16" 16] pack_less [of "b mod 16" 16 "c div 64" 4]
    by (simp add: byte_div)
next
  case (2 a b)
  then show ?case
    using pack_less [of "a mod 4" 4 "b div 16" 16] pack_less [of "b mod 16" 16 0 4]
    by (simp add: byte_div)
next
  case (3 a)
  then show ?case using pack_less [of "a mod 4" 4 0 16] by (simp add: byte_div)
qed simp

lemma regroup1:
  fixes a b :: nat
  assumes "b < 256"
  shows "a div 4 * 4 + (a mod 4 * 16 + b div 16) div 16 = a"
  unfolding pack_div [OF byte_div [OF assms, THEN conjunct2, THEN conjunct1]]
  by (rule div_mult_mod_eq)

lemma regroup2:
  fixes a b c :: nat
  assumes "b < 256" "c < 256"
  shows "(a mod 4 * 16 + b div 16) mod 16 * 16 + (b mod 16 * 4 + c div 64) div 4 = b"
  unfolding pack_mod [OF byte_div [OF assms(1), THEN conjunct2, THEN conjunct1]]
    pack_div [OF byte_div [OF assms(2), THEN conjunct2, THEN conjunct2]]
  by (rule div_mult_mod_eq)

lemma regroup3:
  fixes b c :: nat
  assumes "c < 256"
  shows "(b mod 16 * 4 + c div 64) mod 4 * 64 + c mod 64 = c"
  unfolding pack_mod [OF byte_div [OF assms, THEN conjunct2, THEN conjunct2]]
  by (rule div_mult_mod_eq)

lemma b64_bytes_sextets: "\<forall>b \<in> set bs. b < 256 \<Longrightarrow> b64_bytes (b64_sextets bs) = Some bs"
proof (induction bs rule: b64_sextets.induct)
  case (1 a b c r)
  then have lt: "b < 256" "c < 256" and ih: "b64_bytes (b64_sextets r) = Some r" by auto
  show ?case
    unfolding b64_sextets.simps b64_bytes.simps ih option.map
      regroup1 [OF lt(1)] regroup2 [OF lt] regroup3 [OF lt(2)] ..
next
  case (2 a b)
  then have lt: "b < 256" by auto
  show ?case using regroup2 [OF lt, of 0 a]
    unfolding b64_sextets.simps b64_bytes.simps regroup1 [OF lt] by simp
next
  case (3 a)
  show ?case using regroup1 [of 0 a] by simp
qed simp

lemma vals_chars: "\<forall>v \<in> set vs. v < 64 \<Longrightarrow> vals (map b64_char vs) = Some vs"
  by (induction vs) (simp_all add: b64_val_char)

lemma b64_encode_sextets: "\<forall>v \<in> set (b64_sextets (map byte bs)). v < 64"
  by (rule b64_sextets_bound) simp

lemma b64_encode_chars:
  assumes "c \<in> set (b64_encode bs)"
  shows "33 \<le> byte c \<and> byte c < 128 \<and> byte c \<noteq> 46 \<and> byte c \<noteq> 61"
proof -
  from assms obtain v where "v \<in> set (b64_sextets (map byte bs))" "c = b64_char v"
    by (auto simp: b64_encode_def)
  with b64_encode_sextets [of bs] show ?thesis using b64_char_byte by blast
qed

lemma b64_decode_encode: "b64_decode (b64_encode bs) = Some bs"
proof -
  have f: "filter (\<lambda>c. byte c \<noteq> 10 \<and> byte c \<noteq> 13) (b64_encode bs) = b64_encode bs"
    by (rule filter_True) (auto dest: b64_encode_chars)
  have "vals (b64_encode bs) = Some (b64_sextets (map byte bs))"
    unfolding b64_encode_def by (rule vals_chars [OF b64_encode_sextets])
  moreover have "b64_bytes (b64_sextets (map byte bs)) = Some (map byte bs)"
    by (rule b64_bytes_sextets) simp
  ultimately show ?thesis by (simp add: b64_decode_def f o_def)
qed

lemma b64_encode_inj: "b64_encode a = b64_encode b \<Longrightarrow> a = b"
  by (metis b64_decode_encode option.inject)

end
