(* ===== verification/Domain.thy ===== *)
theory Domain
  imports Prelude
begin

section \<open>Domain: states, roles, permissions and errors\<close>

text \<open>
  \<open>internal/domain/domain.go\<close>: the card, licence and device states, the back office
  roles with their permission lists, and the error values of every layer. A state is a
  datatype (the schema's CHECK constraints allow no other string); the string forms are
  given by \<open>*_str\<close> and the sources' \<open>Valid\<close> methods are tests on strings.
\<close>

subsection \<open>Entity states\<close>

datatype card_status = CardUnused | CardActive | CardFrozen | CardRevoked | CardVoided | CardDepleted

datatype license_status = LicenseActive | LicenseFrozen | LicenseRevoked | LicenseVoided

datatype device_status = DeviceActive | DeviceUnbound

fun card_status_str :: "card_status \<Rightarrow> string" where
  "card_status_str CardUnused = ''unused''"
| "card_status_str CardActive = ''active''"
| "card_status_str CardFrozen = ''frozen''"
| "card_status_str CardRevoked = ''revoked''"
| "card_status_str CardVoided = ''voided''"
| "card_status_str CardDepleted = ''depleted''"

fun license_status_str :: "license_status \<Rightarrow> string" where
  "license_status_str LicenseActive = ''active''"
| "license_status_str LicenseFrozen = ''frozen''"
| "license_status_str LicenseRevoked = ''revoked''"
| "license_status_str LicenseVoided = ''voided''"

definition card_status_valid :: "string \<Rightarrow> bool" where
  "card_status_valid s \<longleftrightarrow>
     s \<in> {''unused'', ''active'', ''frozen'', ''revoked'', ''voided'', ''depleted''}"

definition license_status_valid :: "string \<Rightarrow> bool" where
  "license_status_valid s \<longleftrightarrow> s \<in> {''active'', ''frozen'', ''revoked'', ''voided''}"

definition card_terminal :: "card_status \<Rightarrow> bool" where
  "card_terminal s \<longleftrightarrow> s = CardRevoked \<or> s = CardVoided \<or> s = CardDepleted"

lemma UNIV_card_status:
  "UNIV = {CardUnused, CardActive, CardFrozen, CardRevoked, CardVoided, CardDepleted}"
proof (rule set_eqI)
  fix c :: card_status
  show "c \<in> UNIV \<longleftrightarrow> c \<in> {CardUnused, CardActive, CardFrozen, CardRevoked, CardVoided, CardDepleted}"
    by (cases c) simp_all
qed

lemma card_status_valid_iff: "card_status_valid s \<longleftrightarrow> s \<in> range card_status_str"
  by (simp only: card_status_valid_def UNIV_card_status image_insert image_empty
      card_status_str.simps)

subsection \<open>Roles and permissions\<close>

datatype admin_role = AdminSuperAdmin | AdminAdmin | AdminAgent | AdminAuditor | AdminViewer

fun role_of_string :: "string \<Rightarrow> admin_role option" where
  "role_of_string s =
     (if s = ''superadmin'' then Some AdminSuperAdmin else if s = ''admin'' then Some AdminAdmin
      else if s = ''agent'' then Some AdminAgent else if s = ''auditor'' then Some AdminAuditor
      else if s = ''viewer'' then Some AdminViewer else None)"

datatype permission = PermProductsRead | PermProductsWrite | PermCardsRead | PermCardsExport
  | PermCardsManage | PermLicensesRead | PermLicensesManage | PermDevicesManage | PermAdminsManage
  | PermAgentsManage | PermAuditRead | PermRiskManage | PermStatsRead | PermUsersManage

definition all_permissions :: "permission list" where
  "all_permissions =
     [PermProductsRead, PermProductsWrite, PermCardsRead, PermCardsExport,
      PermCardsManage, PermLicensesRead, PermLicensesManage, PermDevicesManage,
      PermAdminsManage, PermAgentsManage, PermAuditRead, PermRiskManage, PermStatsRead,
      PermUsersManage]"

fun role_permissions :: "admin_role \<Rightarrow> permission list" where
  "role_permissions AdminSuperAdmin = all_permissions"
| "role_permissions AdminAdmin =
     [PermProductsRead, PermProductsWrite,
      PermCardsRead, PermCardsExport, PermCardsManage,
      PermLicensesRead, PermLicensesManage, PermDevicesManage,
      PermAuditRead, PermRiskManage, PermStatsRead]"
| "role_permissions AdminAgent =
     [PermCardsRead, PermCardsExport, PermCardsManage, PermLicensesRead]"
| "role_permissions AdminAuditor = [PermAuditRead, PermStatsRead, PermCardsRead, PermLicensesRead]"
| "role_permissions AdminViewer =
     [PermCardsRead, PermLicensesRead, PermStatsRead, PermProductsRead]"

text \<open>The loop of \<open>RoleHas\<close> over the role's list.\<close>

fun has_perm :: "permission list \<Rightarrow> permission \<Rightarrow> bool" where
  "has_perm [] p = False"
| "has_perm (q # qs) p = (if q = p then True else has_perm qs p)"

definition role_has :: "admin_role \<Rightarrow> permission \<Rightarrow> bool" where
  "role_has r p = has_perm (role_permissions r) p"

lemma role_has_iff: "role_has r p \<longleftrightarrow> p \<in> set (role_permissions r)"
proof -
  have "has_perm ps p \<longleftrightarrow> p \<in> set ps" for ps by (induction ps) auto
  then show ?thesis by (simp add: role_has_def)
qed

lemma role_has_superadmin: "role_has AdminSuperAdmin p"
  by (cases p) (simp_all add: role_has_iff all_permissions_def)

subsection \<open>Errors\<close>

datatype domain_error =
    ErrCardNotFound | ErrCardInvalidFormat | ErrCardNotUsable | ErrCardFrozen | ErrCardRevoked
  | ErrCardVoided | ErrCardDepleted | ErrLicenseFrozen | ErrLicenseRevoked | ErrLicenseExpired
  | ErrLicenseVoided | ErrDeviceLimit | ErrConcurrentLimit | ErrDeviceNotFound | ErrDeviceUnbound
  | ErrRebindCooldown | ErrRebindLimit | ErrBadSignature | ErrReplayDetected | ErrSeqRegression
  | ErrRateLimited | ErrBanned | ErrPlanRetired | ErrPlanInUse | ErrPlanNotRetired
  | ErrProductNotGranted | ErrProductRetired | ErrVersionTooOld | ErrInsufficientBalance
  | ErrAgentNotFound | ErrUserExists | ErrUserDisabled | ErrMachineBound | ErrBadSecurityCode
  | ErrAccountExpired | ErrBadUsername

text \<open>
  The store's errors: \<open>ErrNoRows\<close>, the SQLSTATE classes the code tests for (unique
  violation, foreign key, invalid input), a CHECK violation, and any other failure of the
  connection.
\<close>

datatype store_error = ErrNoRows | ErrUnique | ErrForeignKey | ErrInvalidInput | ErrCheck | ErrConn

datatype crypto_error =
    ErrCardFormat | ErrCardRandom | ErrBatchSize
  | ErrTokenFormat | ErrTokenBadSig | ErrTokenUnknownKID | ErrTokenExpired | ErrTokenNotYetValid
  | ErrTokenType | ErrTokenSign
  | ErrEnvelopeFormat | ErrEnvelopeKID | ErrEnvelopeAlg | ErrEnvelopeDecrypt | ErrEnvelopeBadPoint

datatype service_error =
    ErrBadCredentials | ErrAccountLocked | ErrMFARequired | ErrMFABad | ErrSessionGone | ErrCSRF
  | ErrDeviceAuthHeader | ErrCache

text \<open>\<open>Text\<close> is an error made on the spot with \<open>errors.New\<close> or \<open>fmt.Errorf\<close>.\<close>

datatype error = Dom domain_error | Store store_error | Crypto crypto_error
  | Service service_error | Text string

end
