(* ===== verification/CardCode.thy ===== *)
theory CardCode
  imports GoConv Domain
begin

section \<open>Card codes\<close>

text \<open>
  \<open>internal/crypto/cardcode.go\<close>: generation of card codes, their display format, and the
  normalisation of what a user types. The entropy source is the list of the bytes that
  \<open>crypto/rand\<close> will deliver before it fails; \<open>rand.Int(rand.Reader, 32)\<close> reads one byte
  and keeps its low five bits, so one draw is one byte taken modulo 32, and the end of the list
  is the reader's error. A batch is generated in a loop that retries on a duplicate; the list
  bounds it, so the loop is a terminating function and returns the unread rest.
\<close>

definition card_alphabet :: string where
  "card_alphabet = ''ABCDEFGHJKLMNPQRSTUVWXYZ23456789''"

definition card_random_len :: nat where "card_random_len = 26"
definition card_group_first :: nat where "card_group_first = 5"
definition card_groups :: nat where "card_groups = 5"

lemmas card_consts = card_random_len_def card_group_first_def card_groups_def

text \<open>The alphabet as runes, and \<open>strings.ContainsRune(CardAlphabet, r)\<close>.\<close>

definition in_alphabet :: "rune \<Rightarrow> bool" where
  "in_alphabet r \<longleftrightarrow> list_ex (\<lambda>c. byte c = r) card_alphabet"

subsection \<open>Generation\<close>

fun draw_chars :: "nat \<Rightarrow> nat list \<Rightarrow> (string \<times> nat list) option" where
  "draw_chars 0 rs = Some ([], rs)"
| "draw_chars (Suc n) [] = None"
| "draw_chars (Suc n) (r # rs) =
     map_option (\<lambda>(s, rest). (card_alphabet ! (r mod 32) # s, rest)) (draw_chars n rs)"

text \<open>The separator loop of \<open>GenerateCardCode\<close>: position, separators written, rest.\<close>

fun group_code :: "nat \<Rightarrow> nat \<Rightarrow> string \<Rightarrow> string" where
  "group_code i g [] = []"
| "group_code i g (c # cs) =
     (if 0 < i \<and> i mod card_group_first = 0 \<and> g < card_groups - 1
      then CHR ''-'' # c # group_code (Suc i) (Suc g) cs
      else c # group_code (Suc i) g cs)"

definition generate_card_code :: "nat list \<Rightarrow> error + string \<times> nat list" where
  "generate_card_code rs = (case draw_chars card_random_len rs of
     None \<Rightarrow> Inl (Crypto ErrCardRandom)
   | Some (buf, rest) \<Rightarrow> Inr (group_code 0 0 buf, rest))"

definition validate_card_prefix :: "string \<Rightarrow> error + string" where
  "validate_card_prefix p =
    (let prefix = to_upper (trim_space p) in
     if 8 < length prefix then Inl (Crypto ErrCardFormat)
     else if \<not> list_all in_alphabet (runes prefix) then Inl (Crypto ErrCardFormat)
     else if card_random_len - 16 < length prefix then Inl (Crypto ErrCardFormat)
     else Inr prefix)"

text \<open>The separator loop of \<open>GenerateCardCodeWithPrefix\<close>, over the runes by byte offset.\<close>

fun group_bytes :: "nat \<Rightarrow> (rune \<times> string) list \<Rightarrow> string" where
  "group_bytes i [] = []"
| "group_bytes i ((r, bs) # xs) =
     (if 0 < i \<and> i mod card_group_first = 0 then [CHR ''-''] else []) @
     mk_byte (r mod 256) # group_bytes (i + length bs) xs"

definition generate_card_code_with_prefix :: "string \<Rightarrow> nat list \<Rightarrow> error + string \<times> nat list" where
  "generate_card_code_with_prefix p rs = (case validate_card_prefix p of
     Inl e \<Rightarrow> Inl e
   | Inr prefix \<Rightarrow> (case draw_chars (card_random_len - length prefix) rs of
       None \<Rightarrow> Inl (Crypto ErrCardRandom)
     | Some (buf, rest) \<Rightarrow> Inr (group_bytes 0 (segs (prefix @ buf)), rest)))"

text \<open>
  The retry loop shared by both batch functions: \<open>gen\<close> is one generation, \<open>cards\<close> what has
  been collected so far, which is also the \<open>seen\<close> set. Both generators read at least 18
  bytes, so the branch for a generation that read nothing is never taken
  (\<open>generators_read\<close> below); it is there to make the function total.
\<close>

function batch_loop :: "(nat list \<Rightarrow> error + string \<times> nat list) \<Rightarrow> nat \<Rightarrow> string list \<Rightarrow>
    nat list \<Rightarrow> error + string list \<times> nat list" where
  "batch_loop gen n cards rs =
    (if n \<le> length cards then Inr (cards, rs)
     else (case gen rs of Inl e \<Rightarrow> Inl e
       | Inr (c, rest) \<Rightarrow>
           if length rs \<le> length rest then Inl (Crypto ErrCardRandom)
           else if c \<in> set cards then batch_loop gen n cards rest
           else batch_loop gen n (cards @ [c]) rest))"
  by pat_completeness auto
termination
  by (relation "measure (\<lambda>(gen, n, cards, rs). length rs)") auto

declare batch_loop.simps [simp del]

definition generate_card_batch :: "int \<Rightarrow> nat list \<Rightarrow> error + string list \<times> nat list" where
  "generate_card_batch n rs =
    (if n \<le> 0 \<or> 100000 < n then Inl (Crypto ErrBatchSize)
     else batch_loop generate_card_code (nat n) [] rs)"

definition generate_card_batch_with_prefix :: "int \<Rightarrow> string \<Rightarrow> nat list \<Rightarrow>
    error + string list \<times> nat list" where
  "generate_card_batch_with_prefix n p rs =
    (if n \<le> 0 \<or> 100000 < n then Inl (Crypto ErrBatchSize)
     else (case validate_card_prefix p of Inl e \<Rightarrow> Inl e
       | Inr prefix \<Rightarrow> batch_loop (generate_card_code_with_prefix prefix) (nat n) [] rs))"

subsection \<open>Normalisation and display\<close>

fun norm_runes :: "rune list \<Rightarrow> string option" where
  "norm_runes [] = Some []"
| "norm_runes (r # rs) =
     (if r = byte (CHR ''-'') \<or> r = byte (CHR '' '') \<or> r = byte (CHR ''_'') then norm_runes rs
      else if \<not> in_alphabet r then None
      else map_option ((@) (encode_rune r)) (norm_runes rs))"

definition normalize_card :: "string \<Rightarrow> error + string" where
  "normalize_card input = (case norm_runes (runes (to_upper (trim_space input))) of
     None \<Rightarrow> Inl (Crypto ErrCardFormat)
   | Some out \<Rightarrow> if length out \<noteq> card_random_len then Inl (Crypto ErrCardFormat) else Inr out)"

fun format_runes :: "nat \<Rightarrow> (rune \<times> string) list \<Rightarrow> string" where
  "format_runes i [] = []"
| "format_runes i ((r, bs) # xs) =
     (if 0 < i \<and> i mod card_group_first = 0 then [CHR ''-''] else []) @
     encode_rune r @ format_runes (i + length bs) xs"

definition format_card :: "string \<Rightarrow> string" where
  "format_card s = format_runes 0 (segs s)"

text \<open>\<open>CardHMAC\<close> over the HMAC-SHA-256 primitive (key, message).\<close>

definition card_hmac :: "(string \<Rightarrow> string \<Rightarrow> string) \<Rightarrow> string \<Rightarrow> string \<Rightarrow> string" where
  "card_hmac hmac key s = hex_encode (hmac key s)"

definition card_prefix :: "string \<Rightarrow> string" where
  "card_prefix s = (if length s < card_group_first then s else take card_group_first s)"

definition mask_card :: "string \<Rightarrow> string" where
  "mask_card s = (if length s < card_group_first + 2 then ''***''
     else take card_group_first s @ ''-****'' @ drop (length s - 2) s)"

subsection \<open>Facts about the alphabet\<close>

abbreviation card_chars :: "string \<Rightarrow> bool" where
  "card_chars s \<equiv> set s \<subseteq> set card_alphabet"

definition plain_char :: "char \<Rightarrow> bool" where
  "plain_char c \<longleftrightarrow> byte c < 128 \<and> \<not> is_space (byte c) \<and> upper_rune (byte c) = byte c \<and>
     (c = CHR ''-'' \<or> in_alphabet (byte c) \<and> c \<noteq> CHR ''-'' \<and> c \<noteq> CHR '' '' \<and> c \<noteq> CHR ''_'')"

lemma in_alphabet_byte: "in_alphabet (byte c) \<longleftrightarrow> c \<in> set card_alphabet"
  by (auto simp: in_alphabet_def list_ex_iff byte_inj)

lemma alphabet_bytes: "map byte card_alphabet =
    [65, 66, 67, 68, 69, 70, 71, 72, 74, 75, 76, 77, 78, 80, 81, 82, 83, 84, 85, 86, 87, 88, 89,
     90, 50, 51, 52, 53, 54, 55, 56, 57]"
  by (simp add: card_alphabet_def byte_def)

lemma length_alphabet: "length card_alphabet = 32"
  by (simp add: card_alphabet_def)

lemma alphabet_range:
  assumes "c \<in> set card_alphabet"
  shows "65 \<le> byte c \<and> byte c \<le> 90 \<or> 50 \<le> byte c \<and> byte c \<le> 57"
proof -
  have "\<forall>r \<in> set (map byte card_alphabet). 65 \<le> r \<and> r \<le> 90 \<or> 50 \<le> r \<and> r \<le> 57"
    unfolding alphabet_bytes by simp
  with assms show ?thesis by auto
qed

lemma sep_bytes: "byte (CHR ''-'') = 45" "byte (CHR '' '') = 32" "byte (CHR ''_'') = 95"
  by (simp_all add: byte_def)

lemma range_not_space:
  "65 \<le> r \<and> r \<le> 90 \<or> 50 \<le> r \<and> r \<le> 57 \<or> r = 45 \<Longrightarrow> \<not> is_space r \<and> upper_rune r = r \<and> r < 128"
  by (auto simp: is_space_def upper_rune_def)

lemma alphabet_plain: "c \<in> set card_alphabet \<Longrightarrow> plain_char c"
  using alphabet_range [of c] range_not_space [of "byte c"]
  by (auto simp: plain_char_def in_alphabet_byte sep_bytes byte_inj [of c, symmetric])

lemma dash_plain: "plain_char (CHR ''-'')"
  using range_not_space [of 45] by (simp add: plain_char_def sep_bytes)

lemma alphabet_no_dash: "CHR ''-'' \<notin> set card_alphabet"
  using alphabet_range [of "CHR ''-''"] by (auto simp: sep_bytes)

lemma in_alphabet_encode:
  assumes "in_alphabet r"
  shows "encode_rune r = [mk_byte r]" "mk_byte r \<in> set card_alphabet"
proof -
  from assms obtain c where c: "c \<in> set card_alphabet" "byte c = r"
    by (auto simp: in_alphabet_def list_ex_iff)
  from alphabet_plain [OF c(1)] c(2) have "r < 128" by (auto simp: plain_char_def)
  then show "encode_rune r = [mk_byte r]" by (rule encode_rune_ascii)
  show "mk_byte r \<in> set card_alphabet" using c by auto
qed

lemma plain_ascii: "\<forall>c \<in> set s. plain_char c \<Longrightarrow> ascii s"
  by (simp add: ascii_def list_all_iff plain_char_def)

lemma plain_trim_upper: "\<forall>c \<in> set s. plain_char c \<Longrightarrow> to_upper (trim_space s) = s"
  by (simp add: trim_space_id plain_ascii plain_char_def to_upper_ascii map_idI)

lemma norm_runes_plain:
  "\<forall>c \<in> set s. plain_char c \<Longrightarrow> norm_runes (map byte s) = Some (filter (\<lambda>c. c \<noteq> CHR ''-'') s)"
  by (induction s) (auto simp: plain_char_def byte_inj encode_rune_ascii)

lemma normalize_plain:
  assumes "\<forall>c \<in> set s. plain_char c" "length (filter (\<lambda>c. c \<noteq> CHR ''-'') s) = 26"
  shows "normalize_card s = Inr (filter (\<lambda>c. c \<noteq> CHR ''-'') s)"
  using assms by (simp add: normalize_card_def plain_trim_upper runes_ascii plain_ascii
      norm_runes_plain card_consts)

lemma card_chars_plain: "card_chars s \<Longrightarrow> \<forall>c \<in> set s. plain_char c"
  using alphabet_plain by blast

lemma card_chars_filter: "card_chars s \<Longrightarrow> filter (\<lambda>c. c \<noteq> CHR ''-'') s = s"
  using alphabet_no_dash by (intro filter_True) auto

lemma norm_runes_chars: "norm_runes rs = Some s \<Longrightarrow> card_chars s"
  by (induction rs arbitrary: s) (auto simp: in_alphabet_encode split: if_splits)

lemma normalize_card_out: "normalize_card x = Inr n \<Longrightarrow> length n = 26 \<and> card_chars n"
  by (auto simp: normalize_card_def card_consts dest: norm_runes_chars
      split: option.splits if_splits)

lemma normalize_card_fix: "card_chars n \<Longrightarrow> length n = 26 \<Longrightarrow> normalize_card n = Inr n"
  using normalize_plain [of n] by (simp add: card_chars_filter card_chars_plain)

subsection \<open>Grouping\<close>

lemma group_code_strip:
  "CHR ''-'' \<notin> set s \<Longrightarrow> filter (\<lambda>c. c \<noteq> CHR ''-'') (group_code i g s) = s"
  by (induction i g s rule: group_code.induct) auto

lemma group_code_set: "set (group_code i g s) \<subseteq> insert (CHR ''-'') (set s)"
  by (induction i g s rule: group_code.induct) auto

lemma format_runes_ascii:
  "ascii s \<Longrightarrow> CHR ''-'' \<notin> set s \<Longrightarrow>
    filter (\<lambda>c. c \<noteq> CHR ''-'') (format_runes i (map (\<lambda>c. (byte c, [c])) s)) = s \<and>
    set (format_runes i (map (\<lambda>c. (byte c, [c])) s)) \<subseteq> insert (CHR ''-'') (set s)"
  by (induction s arbitrary: i) (auto simp: encode_rune_ascii)

lemma group_bytes_format:
  "ascii s \<Longrightarrow> group_bytes i (map (\<lambda>c. (byte c, [c])) s) = format_runes i (map (\<lambda>c. (byte c, [c])) s)"
  by (induction s arbitrary: i) (auto simp: encode_rune_ascii)

lemma card_chars_ascii: "card_chars s \<Longrightarrow> ascii s"
  by (rule plain_ascii) (rule card_chars_plain)

lemma card_chars_no_dash: "card_chars s \<Longrightarrow> CHR ''-'' \<notin> set s"
  using alphabet_no_dash by blast

lemma format_card_strip:
  assumes "card_chars s"
  shows "filter (\<lambda>c. c \<noteq> CHR ''-'') (format_card s) = s"
    "set (format_card s) \<subseteq> insert (CHR ''-'') (set s)"
  using format_runes_ascii [OF card_chars_ascii card_chars_no_dash, OF assms assms, of 0]
  by (simp_all add: format_card_def segs_ascii card_chars_ascii assms)

text \<open>A string of card characters and dashes normalises to its characters.\<close>

lemma normalize_stripped:
  assumes "set x \<subseteq> insert (CHR ''-'') (set s)" "card_chars s" "length s = 26"
    "filter (\<lambda>c. c \<noteq> CHR ''-'') x = s"
  shows "normalize_card x = Inr s"
proof -
  have "\<forall>c \<in> set x. plain_char c"
    using assms(1,2) dash_plain alphabet_plain by blast
  from normalize_plain [OF this] assms(3,4) show ?thesis by simp
qed

subsection \<open>Generation\<close>

lemma draw_chars_Some:
  "draw_chars n rs = Some (s, rest) \<Longrightarrow>
    length s = n \<and> card_chars s \<and> n \<le> length rs \<and> rest = drop n rs \<and>
    s = map (\<lambda>r. card_alphabet ! (r mod 32)) (take n rs)"
proof (induction n rs arbitrary: s rule: draw_chars.induct)
  case (3 n r rs)
  have "card_alphabet ! (x mod 32) \<in> set card_alphabet" for x
    by (rule nth_mem) (simp add: length_alphabet)
  with 3 show ?case by auto
qed auto

lemma draw_chars_enough:
  "n \<le> length rs \<Longrightarrow>
    draw_chars n rs = Some (map (\<lambda>r. card_alphabet ! (r mod 32)) (take n rs), drop n rs)"
  by (induction n rs rule: draw_chars.induct) auto

lemma generate_card_code_Inr:
  assumes "generate_card_code rs = Inr (c, rest)"
  obtains s where "card_chars s" "length s = 26" "c = group_code 0 0 s" "rest = drop 26 rs"
    "26 \<le> length rs" "s = map (\<lambda>r. card_alphabet ! (r mod 32)) (take 26 rs)"
  using assms that by (auto simp: generate_card_code_def card_consts dest!: draw_chars_Some
      split: option.splits)

lemma validate_card_prefix_Inr:
  "validate_card_prefix p = Inr q \<Longrightarrow> length q \<le> 8 \<and> card_chars q"
proof -
  assume v: "validate_card_prefix p = Inr q"
  then have q: "length q \<le> 8" "list_all in_alphabet (runes q)"
    by (auto simp: validate_card_prefix_def Let_def split: if_splits)
  have "r < 128" if "in_alphabet r" for r
    using that alphabet_plain by (auto simp: in_alphabet_def list_ex_iff plain_char_def)
  with q(2) have "ascii q" by (auto simp: runes_ascii_iff [symmetric] list_all_iff)
  with q show ?thesis by (auto simp: runes_ascii list_all_iff in_alphabet_byte)
qed

lemma validate_card_prefix_fix: "card_chars q \<Longrightarrow> length q \<le> 8 \<Longrightarrow> validate_card_prefix q = Inr q"
  by (simp add: validate_card_prefix_def Let_def plain_trim_upper card_chars_plain runes_ascii
      card_chars_ascii list_all_iff in_alphabet_byte card_consts subset_iff)

lemma generate_with_prefix_Inr:
  assumes "generate_card_code_with_prefix p rs = Inr (c, rest)"
  obtains q s where "validate_card_prefix p = Inr q" "card_chars (q @ s)" "length (q @ s) = 26"
    "c = format_card (q @ s)" "rest = drop (26 - length q) rs" "26 - length q \<le> length rs"
proof -
  from assms obtain q s where v: "validate_card_prefix p = Inr q"
    and d: "draw_chars (26 - length q) rs = Some (s, rest)"
    and c: "c = group_bytes 0 (segs (q @ s))"
    by (auto simp: generate_card_code_with_prefix_def card_consts split: sum.splits option.splits)
  from validate_card_prefix_Inr [OF v] draw_chars_Some [OF d]
  have qs: "card_chars (q @ s)" "length (q @ s) = 26" by auto
  have "c = format_card (q @ s)"
    using c group_bytes_format [OF card_chars_ascii [OF qs(1)], of 0]
    by (simp only: format_card_def segs_ascii [OF card_chars_ascii [OF qs(1)]])
  with that [OF v qs] draw_chars_Some [OF d] show thesis by simp
qed

text \<open>Both generators read entropy, so the extra branch of \<open>batch_loop\<close> is dead.\<close>

lemma generators_read:
  "generate_card_code rs = Inr (c, rest) \<Longrightarrow> length rest < length rs"
  "generate_card_code_with_prefix p rs = Inr (c, rest) \<Longrightarrow> length rest < length rs"
proof -
  show "generate_card_code rs = Inr (c, rest) \<Longrightarrow> length rest < length rs"
    by (elim generate_card_code_Inr) auto
  show "generate_card_code_with_prefix p rs = Inr (c, rest) \<Longrightarrow> length rest < length rs"
    by (elim generate_with_prefix_Inr) (auto dest: validate_card_prefix_Inr)
qed

subsection \<open>Batches\<close>

lemma batch_loop_sound:
  assumes "\<And>rs c rest. gen rs = Inr (c, rest) \<Longrightarrow> P c"
  shows "batch_loop gen n cards rs = Inr (cs, rest) \<Longrightarrow> distinct cards \<Longrightarrow> length cards \<le> n \<Longrightarrow>
    \<forall>c \<in> set cards. P c \<Longrightarrow> distinct cs \<and> length cs = n \<and> (\<forall>c \<in> set cs. P c)"
  using assms
proof (induction gen n cards rs rule: batch_loop.induct)
  case (1 gen n cards rs)
  show ?case
  proof (cases "n \<le> length cards")
    case True
    with 1(3-) show ?thesis by (simp add: batch_loop.simps [of gen n cards])
  next
    case False
    with 1(3) obtain c r' where g: "gen rs = Inr (c, r')" and lt: "\<not> length rs \<le> length r'"
      by (auto simp: batch_loop.simps [of gen n cards] split: sum.splits prod.splits if_splits)
    have P: "P c" using g by (rule 1(7))
    show ?thesis
    proof (cases "c \<in> set cards")
      case True
      with 1(3-6) False g lt show ?thesis
        by (intro 1(1) [OF False g refl lt True _ _ _ _ 1(7)])
          (simp_all add: batch_loop.simps [of gen n cards])
    next
      case new: False
      with 1(3-6) False g lt P show ?thesis
        by (intro 1(2) [OF False g refl lt new _ _ _ _ 1(7)])
          (simp_all add: batch_loop.simps [of gen n cards])
    qed
  qed
qed

text \<open>
  \<open>gen_run gen k rs\<close>: the codes of \<open>k\<close> generations in a row, when none fails. A batch
  returns as soon as the codes so generated hold enough distinct ones.
\<close>

fun gen_run :: "(nat list \<Rightarrow> error + string \<times> nat list) \<Rightarrow> nat \<Rightarrow> nat list \<Rightarrow> string list option" where
  "gen_run gen 0 rs = Some []"
| "gen_run gen (Suc k) rs = (case gen rs of Inl e \<Rightarrow> None
     | Inr (c, rest) \<Rightarrow> map_option ((#) c) (gen_run gen k rest))"

lemma batch_loop_returns:
  assumes "\<And>rs c rest. gen rs = Inr (c, rest) \<Longrightarrow> length rest < length rs"
  shows "gen_run gen k rs = Some ds \<Longrightarrow> n \<le> card (set cards \<union> set ds) \<Longrightarrow> distinct cards \<Longrightarrow>
    \<exists>cs rest. batch_loop gen n cards rs = Inr (cs, rest)"
proof (induction k arbitrary: rs ds cards)
  case 0
  then have "n \<le> length cards" by (simp add: distinct_card)
  then show ?case by (simp add: batch_loop.simps)
next
  case (Suc k)
  show ?case
  proof (cases "n \<le> length cards")
    case True
    then show ?thesis by (simp add: batch_loop.simps)
  next
    case False
    from Suc.prems(1) obtain c r' ds' where g: "gen rs = Inr (c, r')"
      and d: "gen_run gen k r' = Some ds'" "ds = c # ds'"
      by (auto split: sum.splits prod.splits)
    have lt: "\<not> length rs \<le> length r'" using assms [OF g] by simp
    have step: "batch_loop gen n cards rs =
        (if c \<in> set cards then batch_loop gen n cards r' else batch_loop gen n (cards @ [c]) r')"
      using False g lt by (simp add: batch_loop.simps [of gen n cards rs])
    show ?thesis
    proof (cases "c \<in> set cards")
      case True
      with Suc.prems(2,3) d show ?thesis
        unfolding step by (simp add: Suc.IH insert_absorb)
    next
      case new: False
      with Suc.prems(2,3) d show ?thesis
        unfolding step by (simp add: Suc.IH)
    qed
  qed
qed

subsection \<open>Properties\<close>

lemma length26:
  assumes "length s = 26"
  obtains a b c d e f g h i j k l m n p q r t u v w x y z x1 x2 where
    "s = [a, b, c, d, e, f, g, h, i, j, k, l, m, n, p, q, r, t, u, v, w, x, y, z, x1, x2]"
  using assms by (auto simp: length_Suc_conv eval_nat_numeral)

lemma group_code_26:
  assumes "length s = 26"
  shows "group_code 0 0 s = take 5 s @ ''-'' @ take 5 (drop 5 s) @ ''-'' @ take 5 (drop 10 s) @
    ''-'' @ take 5 (drop 15 s) @ ''-'' @ drop 20 s"
  using assms by (elim length26) (simp add: card_consts)

lemma format_card_26:
  assumes "length s = 26" "card_chars s"
  shows "format_card s = take 5 s @ ''-'' @ take 5 (drop 5 s) @ ''-'' @ take 5 (drop 10 s) @
    ''-'' @ take 5 (drop 15 s) @ ''-'' @ take 5 (drop 20 s) @ ''-'' @ drop 25 s"
  using card_chars_ascii [OF assms(2)] assms(1) unfolding format_card_def
  by (elim length26) (simp add: segs_ascii card_consts encode_rune_ascii)

text \<open>Both display forms normalise to the characters they show.\<close>

lemma shown_normalizes:
  assumes "card_chars s" "length s = 26"
  shows "normalize_card (group_code 0 0 s) = Inr s" "normalize_card (format_card s) = Inr s"
  by (rule normalize_stripped [OF _ assms];
      simp add: group_code_strip card_chars_no_dash group_code_set format_card_strip assms)+

text \<open>C33. A card code that generation returns has the shape 5-5-5-5-6 with four dashes, and
  its characters are those that the next 26 bytes of the random source choose from the alphabet, in
  order, five bits each, and no more bytes are read; normalising it gives back exactly these 26
  characters, so the code a customer is shown is looked up under the string that was stored for it.\<close>

theorem generate_normalize_roundtrip:
  assumes "generate_card_code rs = Inr (c, rest)"
  shows "26 \<le> length rs \<and> rest = drop 26 rs \<and> (let s = map (\<lambda>r. card_alphabet ! (r mod 32)) (take 26 rs) in
     normalize_card c = Inr s \<and> length s = 26 \<and> card_chars s \<and>
     c = take 5 s @ ''-'' @ take 5 (drop 5 s) @ ''-'' @ take 5 (drop 10 s) @ ''-'' @
         take 5 (drop 15 s) @ ''-'' @ drop 20 s)"
proof -
  from assms obtain s where s: "card_chars s" "length s = 26" "c = group_code 0 0 s" "rest = drop 26 rs" "26 \<le> length rs"
    and drawn: "map (\<lambda>r. card_alphabet ! (r mod 32)) (take 26 rs) = s"
    by (rule generate_card_code_Inr) metis
  show ?thesis unfolding Let_def drawn using s shown_normalizes(1) [OF s(1,2)] group_code_26 [OF s(2)] by simp
qed

theorem generate_normalize_roundtrip_witness:
  "normalize_card ''ABCDE-FGHJK-LMNPQ-RSTUV-WXYZ23'' = Inr ''ABCDEFGHJKLMNPQRSTUVWXYZ23''"
proof -
  have d: "draw_chars card_random_len [0, 1, 2, 3, 4, 5, 6, 7, 8, 9, 10, 11, 12, 13, 14, 15, 16,
      17, 18, 19, 20, 21, 22, 23, 24, 25] = Some (''ABCDEFGHJKLMNPQRSTUVWXYZ23'', [])"
    by (simp add: draw_chars_enough card_consts card_alphabet_def)
  have g: "generate_card_code [0, 1, 2, 3, 4, 5, 6, 7, 8, 9, 10, 11, 12, 13, 14, 15, 16, 17, 18,
      19, 20, 21, 22, 23, 24, 25] = Inr (''ABCDE-FGHJK-LMNPQ-RSTUV-WXYZ23'', [])"
    unfolding generate_card_code_def d by (simp add: card_consts)
  have "map (\<lambda>r. card_alphabet ! (r mod 32)) (take 26 [0, 1, 2, 3, 4, 5, 6, 7, 8, 9, 10, 11, 12, 13, 14, 15, 16, 17, 18,
      19, 20, 21, 22, 23, 24, 25]) = ''ABCDEFGHJKLMNPQRSTUVWXYZ23''" by (simp add: card_alphabet_def)
  then show ?thesis using generate_normalize_roundtrip [OF g] by (simp add: Let_def)
qed

text \<open>Every spelling that normalises is one of 26 characters of the alphabet; normalising
  the result again changes nothing, and normalising its display form (\<open>FormatCard\<close>) gives it
  back.\<close>

theorem normalize_format_roundtrip:
  assumes "normalize_card x = Inr s"
  shows "length s = 26 \<and> card_chars s \<and> normalize_card s = Inr s \<and>
    normalize_card (format_card s) = Inr s"
proof -
  from normalize_card_out [OF assms] have s: "length s = 26" "card_chars s" by auto
  with shown_normalizes(2) [OF s(2,1)] show ?thesis by (simp add: normalize_card_fix)
qed

lemma normalize_lower_example:
  "normalize_card '' abcde_fghjk lmnpq-rstuv-wxyz23 '' = Inr ''ABCDEFGHJKLMNPQRSTUVWXYZ23''"
proof -
  have "to_upper (trim_space '' abcde_fghjk lmnpq-rstuv-wxyz23 '') =
      ''ABCDE_FGHJK LMNPQ-RSTUV-WXYZ23''"
    by (simp add: trim_space_def segs_ascii_Cons byte_def is_space_def to_upper_ascii
        upper_rune_def mk_byte_eq_iff seg_bytes_def)
  then show ?thesis
    by (simp add: normalize_card_def runes_ascii byte_def in_alphabet_def card_alphabet_def
        encode_rune_def mk_byte_eq_iff card_consts)
qed

theorem normalize_format_roundtrip_witness:
  "normalize_card (format_card ''ABCDEFGHJKLMNPQRSTUVWXYZ23'') = Inr ''ABCDEFGHJKLMNPQRSTUVWXYZ23''"
  using normalize_format_roundtrip [OF normalize_lower_example] by blast

text \<open>C34. A batch that returns holds exactly the requested number of codes, between 1 and
  100000, no two the same, each normalising to 26 characters that no other code of the batch
  normalises to and that start with the validated prefix. (The lookup key in the table is the HMAC
  of these characters; that no two are equal is left to the table's unique constraint.)\<close>

theorem card_batch_sound:
  assumes "generate_card_batch_with_prefix n p rs = Inr (cs, rest)"
  shows "\<exists>q. validate_card_prefix p = Inr q \<and> 1 \<le> n \<and> n \<le> 100000 \<and> length cs = nat n \<and>
    distinct cs \<and> distinct (map normalize_card cs) \<and>
    (\<forall>c \<in> set cs. \<exists>s. normalize_card c = Inr (q @ s) \<and> length (q @ s) = 26)"
proof -
  from assms obtain q where v: "validate_card_prefix p = Inr q" and n: "1 \<le> n" "n \<le> 100000"
    and b: "batch_loop (generate_card_code_with_prefix q) (nat n) [] rs = Inr (cs, rest)"
    by (auto simp: generate_card_batch_with_prefix_def split: if_splits sum.splits)
  let ?P = "\<lambda>c. \<exists>s. c = format_card (q @ s) \<and> card_chars (q @ s) \<and> length (q @ s) = 26"
  from validate_card_prefix_Inr [OF v] have vq: "validate_card_prefix q = Inr q"
    by (intro validate_card_prefix_fix) auto
  have "?P c" if "generate_card_code_with_prefix q rs = Inr (c, rest)" for rs c rest
    using that by (rule generate_with_prefix_Inr) (auto simp: vq)
  from batch_loop_sound [of _ ?P, OF this b]
  have cs: "distinct cs" "length cs = nat n" "\<forall>c \<in> set cs. ?P c" by auto
  have norm: "\<exists>s. normalize_card c = Inr (q @ s) \<and> length (q @ s) = 26 \<and> c = format_card (q @ s)"
    if "c \<in> set cs" for c
  proof -
    from cs(3) that obtain s where s: "c = format_card (q @ s)" "card_chars (q @ s)"
      "length (q @ s) = 26" by blast
    from shown_normalizes(2) [OF s(2,3)] s show ?thesis by blast
  qed
  have "inj_on normalize_card (set cs)"
    by (rule inj_onI) (metis norm sum.inject(2))
  moreover have "\<forall>c \<in> set cs. \<exists>s. normalize_card c = Inr (q @ s) \<and> length (q @ s) = 26"
    using norm by blast
  ultimately show ?thesis
    using cs(1,2) v n by (intro exI [of _ q] conjI) (simp_all add: distinct_map del: length_append)
qed

lemma card_batch_sound_witness:
  "\<exists>c s. generate_card_batch_with_prefix 1 ''ab '' (replicate 24 0) = Inr ([c], []) \<and> normalize_card c = Inr (''AB'' @ s)"
proof -
  have "to_upper (trim_space ''ab '') = ''AB''"
    by (simp add: trim_space_def segs_ascii_Cons byte_def is_space_def to_upper_ascii upper_rune_def mk_byte_eq_iff seg_bytes_def)
  then have v: "validate_card_prefix ''ab '' = Inr ''AB''"
    by (simp add: validate_card_prefix_def Let_def runes_ascii byte_def in_alphabet_def card_alphabet_def card_consts)
  have g: "generate_card_code_with_prefix ''AB'' (replicate 24 0) = Inr (c, [])"
    if "c = group_bytes 0 (segs (''AB'' @ replicate 24 CHR ''A''))" for c
    using that validate_card_prefix_fix [of "''AB''"]
    by (simp add: generate_card_code_with_prefix_def draw_chars_enough card_consts card_alphabet_def)
  then obtain c where c: "generate_card_batch_with_prefix 1 ''ab '' (replicate 24 0) = Inr ([c], [])"
    by (simp add: generate_card_batch_with_prefix_def v batch_loop.simps [of _ "Suc 0"])
  from card_batch_sound [OF c] v c show ?thesis by auto
qed

text \<open>C35. The retry loop ends well: when the random source delivers generations that hold as many distinct codes as
  the batch asks for, the batch is made, however many duplicates come between them.\<close>

theorem card_batch_returns:
  assumes "1 \<le> n" "n \<le> 100000" "gen_run generate_card_code k rs = Some ds" "nat n \<le> card (set ds)"
  shows "\<exists>cs rest. generate_card_batch n rs = Inr (cs, rest) \<and> length cs = nat n"
proof -
  have reads: "length rest < length r" if "generate_card_code r = Inr (c, rest)" for r c rest
    using that by (rule generate_card_code_Inr) simp
  obtain cs rest where b: "batch_loop generate_card_code (nat n) [] rs = Inr (cs, rest)"
    using batch_loop_returns [of generate_card_code k rs ds "nat n" "[]"] reads assms(3,4) by auto
  with batch_loop_sound [of generate_card_code "\<lambda>_. True", OF _ b] assms(1,2) show ?thesis
    by (simp add: generate_card_batch_def)
qed

lemma card_batch_returns_witness:
  "\<exists>cs rest. generate_card_batch 1 (replicate 26 7 @ replicate 26 7) = Inr (cs, rest) \<and> length cs = 1"
proof -
  obtain c where g: "generate_card_code (replicate 26 7 @ r) = Inr (c, r)" for r
    by (simp add: generate_card_code_def draw_chars_enough card_random_len_def)
  have "gen_run generate_card_code 2 (replicate 26 7 @ replicate 26 7) = Some [c, c]"
    using g [of "replicate 26 7"] g [of "[]"] by (simp add: numeral_2_eq_2)
  from card_batch_returns [OF _ _ this, of 1] show ?thesis by simp
qed

text \<open>The same for a batch without a prefix, used by the service.\<close>

lemma generate_card_batch_sound:
  assumes "generate_card_batch n rs = Inr (cs, rest)"
  shows "1 \<le> n \<and> n \<le> 100000 \<and> length cs = nat n \<and> distinct cs \<and> distinct (map normalize_card cs) \<and>
    (\<forall>c \<in> set cs. \<exists>s. normalize_card c = Inr s)"
proof -
  from assms have n: "1 \<le> n" "n \<le> 100000"
    and b: "batch_loop generate_card_code (nat n) [] rs = Inr (cs, rest)"
    by (auto simp: generate_card_batch_def split: if_splits)
  let ?P = "\<lambda>c. \<exists>s. normalize_card c = Inr s \<and> c = group_code 0 0 s"
  have "?P c" if "generate_card_code rs = Inr (c, rest)" for rs c rest
    using that by (rule generate_card_code_Inr) (metis shown_normalizes(1))
  from batch_loop_sound [of _ ?P, OF this b]
  have cs: "distinct cs" "length cs = nat n" "\<forall>c \<in> set cs. ?P c" by auto
  have "inj_on normalize_card (set cs)"
    by (rule inj_onI) (metis cs(3) sum.inject(2))
  with cs n show ?thesis by (auto simp: distinct_map)
qed

end
