(* ===== verification/Models.thy ===== *)
theory Models
  imports Domain
begin

section \<open>Models: the rows of the tables, and the database\<close>

text \<open>
  \<open>internal/store/models.go\<close> and the structs of \<open>users.go\<close>: one record per row type, with
  the sources' fields. Columns with a fixed set of values the code itself writes (card,
  licence and device states) are datatypes; the others keep the string the request carries
  and their CHECK constraint (\<open>db/migrations\<close>) is part of the statement that writes them.
  Times are nanoseconds since the epoch; what the database stores is truncated to
  microseconds (\<open>pg_time\<close>). An id is the canonical text of a UUID. A \<open>*string\<close> column is
  an option. The \<open>db\<close> record is the database: one list of rows per table, in insertion
  order; the audit rows leave out the request's \<open>before\<close> and \<open>after\<close> images.
\<close>

type_synonym time = int

definition second :: int where "second = 1000000000"

definition day :: int where "day = 86400 * second"

definition pg_time :: "time \<Rightarrow> time" where
  "pg_time t = t div 1000 * 1000"

lemma pg_time_idem [simp]: "pg_time (pg_time t) = pg_time t"
  by (simp add: pg_time_def)

lemma pg_time_le: "pg_time t \<le> t" "t < pg_time t + 1000"
  using pos_mod_sign [of 1000 t] pos_mod_bound [of 1000 t] div_mult_mod_eq [of t 1000]
  unfolding pg_time_def by linarith+

lemma pg_time_mono: "s \<le> t \<Longrightarrow> pg_time s \<le> pg_time t"
  by (simp add: pg_time_def zdiv_mono1)

lemma pg_time_add_day [simp]: "pg_time (t + n * day) = pg_time t + n * day"
proof -
  have "n * day = (n * 86400000000) * 1000" by (simp add: day_def second_def)
  then show ?thesis by (simp only: pg_time_def div_mult_self1) (simp add: algebra_simps)
qed

text \<open>\<open>t.Unix()\<close>.\<close>

definition unix :: "time \<Rightarrow> int" where
  "unix t = t div second"

text \<open>What a \<open>map[string]any\<close> that goes into a JSONB column holds.\<close>

datatype jval = JStr string | JInt int | JBool bool | JNull | JTime time

type_synonym detail = "(string \<times> jval) list"

record agent =
  ag_id :: string
  ag_name :: string
  ag_parent :: "string option"
  ag_balance :: int
  ag_status :: string
  ag_created :: time

record agent_tx =
  tx_agent :: string
  tx_amount :: int
  tx_after :: int
  tx_kind :: string
  tx_batch :: "string option"
  tx_note :: "string option"
  tx_by :: "string option"
  tx_created :: time

record product =
  pr_id :: string
  pr_code :: string
  pr_name :: string
  pr_status :: string
  pr_created :: time

record plan =
  pl_id :: string
  pl_product :: string
  pl_code :: string
  pl_name :: string
  pl_kind :: string
  pl_days :: int
  pl_fixed_days :: int
  pl_uses :: int
  pl_devices :: int
  pl_concurrent :: int
  pl_features :: "string list"
  pl_grace :: int
  pl_lease_ttl :: int
  pl_heartbeat :: int
  pl_cooldown :: int
  pl_rebinds :: int
  pl_min_version :: string
  pl_price :: int
  pl_status :: string
  pl_created :: time

record card_batch =
  cb_id :: string
  cb_agent :: "string option"
  cb_product :: string
  cb_plan :: string
  cb_quantity :: int
  cb_prefix :: string
  cb_note :: "string option"
  cb_by :: string
  cb_created :: time

record card =
  cd_id :: string
  cd_batch :: string
  cd_agent :: "string option"
  cd_product :: string
  cd_plan :: string
  cd_lookup :: string
  cd_secret :: "(string \<times> string \<times> string) option"
  cd_prefix :: string
  cd_kind :: string
  cd_status :: card_status
  cd_uses_total :: int
  cd_uses_left :: int
  cd_license :: "string option"
  cd_user :: "string option"
  cd_activated :: "time option"
  cd_by :: string
  cd_note :: "string option"
  cd_created :: time

record license =
  li_id :: string
  li_product :: string
  li_plan :: string
  li_agent :: "string option"
  li_card :: string
  li_status :: license_status
  li_uses :: "int option"
  li_activated :: time
  li_expires :: "time option"
  li_policy :: int
  li_note :: "string option"
  li_created :: time
  li_updated :: time

record device =
  dv_id :: string
  dv_license :: string
  dv_fp :: string
  dv_pub :: string
  dv_kty :: string
  dv_trust :: string
  dv_hw :: detail
  dv_status :: device_status
  dv_bound :: time
  dv_unbound :: "time option"
  dv_unbound_by :: "string option"
  dv_heartbeat :: "time option"
  dv_ip :: "string option"
  dv_version :: "string option"
  dv_seq :: int

record activation =
  ac_license :: string
  ac_card :: string
  ac_device :: string
  ac_kind :: string
  ac_ip :: "string option"
  ac_created :: time

record renewal =
  rn_license :: string
  rn_card :: string
  rn_days :: int
  rn_old :: "time option"
  rn_new :: "time option"
  rn_created :: time

record license_event =
  ev_license :: string
  ev_kind :: string
  ev_actor :: string
  ev_detail :: detail
  ev_request :: string
  ev_created :: time

record admin =
  ad_id :: string
  ad_username :: string
  ad_password :: string
  ad_display :: string
  ad_role :: string
  ad_agent :: "string option"
  ad_totp :: "string option"
  ad_mfa :: bool
  ad_status :: string
  ad_failed :: int
  ad_locked :: "time option"
  ad_must_change :: bool
  ad_created :: time
  ad_last_login :: "time option"

record admin_session =
  se_id :: string
  se_admin :: string
  se_token :: string
  se_csrf :: string
  se_mfa :: bool
  se_expires :: time
  se_revoked :: "time option"

record ban =
  bn_id :: string
  bn_kind :: string
  bn_value :: string
  bn_reason :: string
  bn_until :: "time option"
  bn_by :: "string option"
  bn_created :: time

record risk_event =
  rk_kind :: string
  rk_severity :: string
  rk_subject :: string
  rk_action :: string
  rk_detail :: detail
  rk_ts :: time

record end_user =
  eu_id :: string
  eu_product :: string
  eu_username :: string
  eu_password :: string
  eu_security :: string
  eu_status :: string
  eu_expires :: time
  eu_machine :: "string option"
  eu_machine_at :: "time option"
  eu_reg_ip :: "string option"
  eu_last_login :: "time option"
  eu_last_ip :: "string option"
  eu_note :: "string option"
  eu_created :: time
  eu_updated :: time

record end_user_log =
  ul_user :: "string option"
  ul_username :: string
  ul_product :: "string option"
  ul_kind :: string
  ul_ip :: "string option"
  ul_detail :: detail
  ul_created :: time

record soft_message =
  sm_id :: int
  sm_product :: string
  sm_content :: string
  sm_enabled :: bool
  sm_by :: string
  sm_created :: time

record product_version =
  pv_id :: int
  pv_product :: string
  pv_version :: string
  pv_url :: string
  pv_notes :: string
  pv_force :: bool
  pv_created :: time

text \<open>What \<open>json.Marshal\<close> is given for an audit row: nil, a map, or a whole row.\<close>

datatype snapshot = SNull | SMap detail | SProduct product | SPlan plan | SAgent agent | SBan ban
  | SMessage soft_message | SVersion product_version

record audit_log =
  au_admin :: "string option"
  au_username :: "string option"
  au_action :: string
  au_target_type :: "string option"
  au_target :: "string option"
  au_before :: "snapshot option"
  au_after :: "snapshot option"
  au_detail :: "snapshot option"
  au_ip :: "string option"
  au_request :: "string option"
  au_ts :: time

record kex_row =
  kx_kid :: string
  kx_pub :: string
  kx_alg :: string
  kx_active :: bool
  kx_created :: time

record api_limit =
  al_scope :: string
  al_limit :: int
  al_updated :: time

record db =
  d_agents :: "agent list"
  d_agent_txs :: "agent_tx list"
  d_products :: "product list"
  d_plans :: "plan list"
  d_batches :: "card_batch list"
  d_cards :: "card list"
  d_licenses :: "license list"
  d_devices :: "device list"
  d_activations :: "activation list"
  d_renewals :: "renewal list"
  d_events :: "license_event list"
  d_admins :: "admin list"
  d_sessions :: "admin_session list"
  d_audits :: "audit_log list"
  d_risks :: "risk_event list"
  d_bans :: "ban list"
  d_users :: "end_user list"
  d_user_logs :: "end_user_log list"
  d_messages :: "soft_message list"
  d_versions :: "product_version list"
  d_kex :: "kex_row list"
  d_limits :: "api_limit list"
  d_grants :: "(string \<times> string) list"

definition empty_db :: db where
  "empty_db = \<lparr>d_agents = [], d_agent_txs = [], d_products = [], d_plans = [], d_batches = [],
     d_cards = [], d_licenses = [], d_devices = [], d_activations = [], d_renewals = [],
     d_events = [], d_admins = [], d_sessions = [], d_audits = [], d_risks = [], d_bans = [],
     d_users = [], d_user_logs = [], d_messages = [], d_versions = [], d_kex = [], d_limits = [],
     d_grants = []\<rparr>"

end
