(* ===== verification/Cache.thy ===== *)
theory Cache
  imports GoConv "HOL-Library.List_Lexorder"
begin

section \<open>Cache: the Redis primitives\<close>

text \<open>
  \<open>internal/cache/cache.go\<close> over a model of the Redis commands it uses. A key holds a
  value with an optional expiry instant (milliseconds; a key is gone once the clock has passed
  it); a sorted set is the list of its members with their scores. Each Lua script is one
  atomic function of the clock and the store, as Redis runs it. The wrappers that can fail on
  the network are in \<open>World\<close>.

  Numbers in a Lua script are IEEE doubles, and \<open>tostring\<close> prints them with 14 significant
  digits (\<open>%.14g\<close>); \<open>lua_num\<close> and \<open>lua_print\<close> give both roundings on naturals, since the
  device sequence number goes through them. A stored number is kept as the integer its
  decimal form denotes.
\<close>

subsection \<open>The store\<close>

datatype rval = VStr string | VNum int

record redis =
  r_vals :: "string \<Rightarrow> (rval \<times> int option) option"
  r_zsets :: "string \<Rightarrow> (string \<times> int) list \<times> int option"

definition empty_redis :: redis where
  "empty_redis = \<lparr>r_vals = (\<lambda>_. None), r_zsets = (\<lambda>_. ([], None))\<rparr>"

definition live_at :: "int \<Rightarrow> int option \<Rightarrow> bool" where
  "live_at now e \<longleftrightarrow> (case e of None \<Rightarrow> True | Some t \<Rightarrow> now \<le> t)"

definition r_get :: "int \<Rightarrow> string \<Rightarrow> redis \<Rightarrow> rval option" where
  "r_get now k r = (case r_vals r k of None \<Rightarrow> None
     | Some (v, e) \<Rightarrow> if live_at now e then Some v else None)"

definition r_set :: "string \<Rightarrow> rval \<Rightarrow> int option \<Rightarrow> redis \<Rightarrow> redis" where
  "r_set k v e r = r\<lparr>r_vals := (r_vals r)(k := Some (v, e))\<rparr>"

definition r_del :: "string \<Rightarrow> redis \<Rightarrow> redis" where
  "r_del k r = r\<lparr>r_vals := (r_vals r)(k := None)\<rparr>"

definition z_get :: "int \<Rightarrow> string \<Rightarrow> redis \<Rightarrow> (string \<times> int) list" where
  "z_get now k r = (case r_zsets r k of (z, e) \<Rightarrow> if live_at now e then z else [])"

definition z_put :: "string \<Rightarrow> (string \<times> int) list \<Rightarrow> int option \<Rightarrow> redis \<Rightarrow> redis" where
  "z_put k z e r = r\<lparr>r_zsets := (r_zsets r)(k := (z, e))\<rparr>"

definition z_exp :: "int \<Rightarrow> string \<Rightarrow> redis \<Rightarrow> int option" where
  "z_exp now k r = (case r_zsets r k of (z, e) \<Rightarrow> if live_at now e then e else None)"

definition z_add :: "string \<Rightarrow> int \<Rightarrow> (string \<times> int) list \<Rightarrow> (string \<times> int) list" where
  "z_add m s z = filter (\<lambda>p. fst p \<noteq> m) z @ [(m, s)]"

text \<open>\<open>ZREMRANGEBYSCORE key 0 hi\<close>.\<close>

definition z_rem_range :: "int \<Rightarrow> (string \<times> int) list \<Rightarrow> (string \<times> int) list" where
  "z_rem_range hi z = filter (\<lambda>p. \<not> (0 \<le> snd p \<and> snd p \<le> hi)) z"

text \<open>A Go duration (nanoseconds) as the milliseconds the client sends for an expiry.\<close>

definition ttl_ms :: "int \<Rightarrow> int" where
  "ttl_ms d = (if 0 < d \<and> d < 1000000 then 1 else d div 1000000)"

definition expiry :: "int \<Rightarrow> int \<Rightarrow> int option" where
  "expiry now d = (if d = 0 then None else Some (now + ttl_ms d))"

subsection \<open>Numbers in Lua\<close>

definition round_to :: "nat \<Rightarrow> nat \<Rightarrow> nat" where
  "round_to p n = (let q = n div p; r = n mod p in
     if 2 * r < p \<or> 2 * r = p \<and> even q then q * p else (q + 1) * p)"

fun pow_above :: "nat \<Rightarrow> nat \<Rightarrow> nat \<Rightarrow> nat" where
  "pow_above b lim n = (if b < 2 \<or> n < lim \<or> lim = 0 then 1 else b * pow_above b lim (n div b))"

declare pow_above.simps [simp del]

definition lua_num :: "nat \<Rightarrow> nat" where
  "lua_num n = round_to (pow_above 2 (2 ^ 53) n) n"

definition lua_print :: "nat \<Rightarrow> nat" where
  "lua_print n = round_to (pow_above 10 (10 ^ 14) n) n"

lemma round_to_1: "round_to 1 n = n"
  by (simp add: round_to_def Let_def)

lemma lua_num_small: "n < 2 ^ 53 \<Longrightarrow> lua_num n = n"
  by (simp add: lua_num_def pow_above.simps round_to_1 [simplified])

lemma lua_print_small: "n < 10 ^ 14 \<Longrightarrow> lua_print n = n"
  by (simp add: lua_print_def pow_above.simps round_to_1 [simplified])

subsection \<open>Replay protection\<close>

definition nonce_key :: "string \<Rightarrow> string \<Rightarrow> string" where
  "nonce_key scope nonce = ''nonce:'' @ scope @ '':'' @ nonce"

text \<open>\<open>SET key 1 NX PX ttl\<close>: true when the key was absent.\<close>

definition consume_nonce :: "int \<Rightarrow> string \<Rightarrow> string \<Rightarrow> int \<Rightarrow> redis \<Rightarrow> bool \<times> redis" where
  "consume_nonce now scope nonce ttl r =
    (case r_get now (nonce_key scope nonce) r of
       Some _ \<Rightarrow> (False, r)
     | None \<Rightarrow> (True, r_set (nonce_key scope nonce) (VNum 1) (expiry now ttl) r))"

definition seq_key :: "string \<Rightarrow> string" where
  "seq_key dev = ''seq:dev:'' @ dev"

text \<open>The current number of \<open>seqScript\<close>: \<open>tonumber(GET or "-1")\<close>.\<close>

definition seq_cur :: "int \<Rightarrow> string \<Rightarrow> redis \<Rightarrow> int" where
  "seq_cur now dev r = (case r_get now (seq_key dev) r of
     Some (VNum n) \<Rightarrow> (if n < 0 then n else int (lua_num (nat n)))
   | _ \<Rightarrow> -1)"

definition seq_script :: "int \<Rightarrow> string \<Rightarrow> int \<Rightarrow> int \<Rightarrow> redis \<Rightarrow> int \<times> redis" where
  "seq_script now dev sq ttl r =
    (let cur = seq_cur now dev r;
         s = (if sq < 0 then sq else int (lua_num (nat sq))) in
     if s \<le> cur then (0, r)
     else (1, r_set (seq_key dev)
       (VNum (if s < 0 then s else int (lua_print (nat s)))) (Some (now + ttl div 1000000)) r))"

text \<open>\<open>CheckSeq\<close> returns \<open>(ok, known)\<close>; \<open>known\<close> is always true on success.\<close>

definition check_seq :: "int \<Rightarrow> string \<Rightarrow> int \<Rightarrow> int \<Rightarrow> redis \<Rightarrow> (bool \<times> bool) \<times> redis" where
  "check_seq now dev sq ttl r =
    (case seq_script now dev sq ttl r of (res, r') \<Rightarrow> ((res = 1, True), r'))"

subsection \<open>Rate limiting\<close>

definition rl_script :: "int \<Rightarrow> string \<Rightarrow> int \<Rightarrow> int \<Rightarrow> string \<Rightarrow> redis \<Rightarrow> int \<times> redis" where
  "rl_script now key window limit member r =
    (let z = z_rem_range (now - window) (z_get now key r); n = int (length z) in
     if limit \<le> n then (0, z_put key z (z_exp now key r) r)
     else (limit - n, z_put key (z_add member now z) (Some (now + window)) r))"

text \<open>\<open>RateLimit\<close>: \<open>(allowed, remaining)\<close>; \<open>window\<close> is a duration.\<close>

definition rate_limit :: "int \<Rightarrow> string \<Rightarrow> int \<Rightarrow> int \<Rightarrow> string \<Rightarrow> redis \<Rightarrow> (bool \<times> int) \<times> redis" where
  "rate_limit now key limit window member r =
    (case rl_script now (''rl:'' @ key) (window div 1000000) limit member r of (res, r') \<Rightarrow>
      (if res = 0 then (False, 0) else (True, res), r'))"

subsection \<open>Online seats\<close>

definition online_key :: "string \<Rightarrow> string" where
  "online_key lic = ''online:lic:'' @ lic"

definition online_script :: "int \<Rightarrow> string \<Rightarrow> int \<Rightarrow> string \<Rightarrow> int \<Rightarrow> redis \<Rightarrow> int \<times> redis" where
  "online_script now key ttl dev limit r =
    (let z = z_rem_range now (z_get now key r); e = z_exp now key r in
     if dev \<in> fst ` set z then (2, z_put key (z_add dev (now + ttl) z) e r)
     else if limit \<le> int (length z) then (0, z_put key z e r)
     else (1, z_put key (z_add dev (now + ttl) z) e r))"

definition renew_online :: "int \<Rightarrow> string \<Rightarrow> string \<Rightarrow> int \<Rightarrow> int \<Rightarrow> redis \<Rightarrow> bool \<times> redis" where
  "renew_online now lic dev ttl limit r =
    (case online_script now (online_key lic) (ttl div 1000000) dev limit r of (res, r') \<Rightarrow>
      (res = 1 \<or> res = 2, r'))"

definition drop_online :: "int \<Rightarrow> string \<Rightarrow> string \<Rightarrow> redis \<Rightarrow> redis" where
  "drop_online now lic dev r =
    z_put (online_key lic) (filter (\<lambda>p. fst p \<noteq> dev) (z_get now (online_key lic) r))
      (z_exp now (online_key lic) r) r"

definition flush_db :: "redis \<Rightarrow> redis" where
  "flush_db r = empty_redis"

text \<open>\<open>OnlineDevices\<close>: drop the expired members, then list by score, equal scores by member.\<close>

definition online_devices :: "int \<Rightarrow> string \<Rightarrow> redis \<Rightarrow> string list \<times> redis" where
  "online_devices now lic r =
    (let z = z_rem_range now (z_get now (online_key lic) r) in
     (map fst (sort_key snd (sort_key (\<lambda>p. map byte (fst p)) z)),
      z_put (online_key lic) z (z_exp now (online_key lic) r) r))"

definition online_count :: "int \<Rightarrow> string \<Rightarrow> redis \<Rightarrow> int" where
  "online_count now lic r = int (length (z_get now (online_key lic) r))"

text \<open>The members that hold a seat at an instant.\<close>

definition online_set :: "int \<Rightarrow> string \<Rightarrow> redis \<Rightarrow> string set" where
  "online_set now lic r = fst ` set (z_rem_range now (z_get now (online_key lic) r))"

subsection \<open>Counters and short caches\<close>

definition incr_script :: "int \<Rightarrow> string \<Rightarrow> int \<Rightarrow> redis \<Rightarrow> int \<times> redis" where
  "incr_script now key window r =
    (let n = (case r_get now key r of Some (VNum m) \<Rightarrow> m + 1 | _ \<Rightarrow> 1);
         e = (case r_vals r key of Some (v, e) \<Rightarrow> if live_at now e then e else None | None \<Rightarrow> None) in
     (n, r_set key (VNum n) (if n = 1 then Some (now + window) else e) r))"

definition incr :: "int \<Rightarrow> string \<Rightarrow> int \<Rightarrow> redis \<Rightarrow> int \<times> redis" where
  "incr now key window_seconds r = incr_script now (''cnt:'' @ key) (window_seconds * 1000) r"

definition cache_get :: "int \<Rightarrow> string \<Rightarrow> redis \<Rightarrow> string option" where
  "cache_get now key r = (case r_get now (''k:'' @ key) r of Some (VStr s) \<Rightarrow> Some s | _ \<Rightarrow> None)"

definition cache_set :: "int \<Rightarrow> string \<Rightarrow> string \<Rightarrow> int \<Rightarrow> redis \<Rightarrow> redis" where
  "cache_set now key val ttl r = r_set (''k:'' @ key) (VStr val) (expiry now ttl) r"

definition set_pending_totp :: "int \<Rightarrow> string \<Rightarrow> string \<Rightarrow> int \<Rightarrow> redis \<Rightarrow> redis" where
  "set_pending_totp now admin secret ttl r =
     r_set (''mfa:pending:'' @ admin) (VStr secret) (expiry now ttl) r"

text \<open>\<open>GETDEL\<close>: \<open>None\<close> is "pending mfa setup not found".\<close>

definition consume_pending_totp :: "int \<Rightarrow> string \<Rightarrow> redis \<Rightarrow> string option \<times> redis" where
  "consume_pending_totp now admin r =
    (case r_get now (''mfa:pending:'' @ admin) r of
       Some (VStr s) \<Rightarrow> (Some s, r_del (''mfa:pending:'' @ admin) r)
     | _ \<Rightarrow> (None, r_del (''mfa:pending:'' @ admin) r))"

definition consume_totp_window :: "int \<Rightarrow> string \<Rightarrow> int \<Rightarrow> int \<Rightarrow> redis \<Rightarrow> bool \<times> redis" where
  "consume_totp_window now admin step ttl r =
    (let key = ''mfa:used:'' @ admin @ '':'' @ show_int step in
     case r_get now key r of
       Some _ \<Rightarrow> (False, r)
     | None \<Rightarrow> (True, r_set key (VNum 1) (expiry now ttl) r))"

section \<open>Contracts of the cache\<close>

text \<open>
  Three interfaces the services rely on, each as a locale with the client's argument proved
  once: a register that accepts a key once per window (nonces), a high-water mark that
  accepts increasing numbers only (sequence numbers; the database column \<open>last_seq\<close> is a
  second provider), and a pool of seats with a limit (online devices).
\<close>

locale once_register =
  fixes consume :: "int \<Rightarrow> 'k \<Rightarrow> 's \<Rightarrow> bool \<times> 's"
    and live :: "int \<Rightarrow> 'k \<Rightarrow> 's \<Rightarrow> bool"
    and window :: int
  assumes accept_iff: "fst (consume t k s) \<longleftrightarrow> \<not> live t k s"
    and recorded: "fst (consume t k s) \<Longrightarrow> t \<le> t' \<Longrightarrow> t' \<le> t + window \<Longrightarrow>
      live t' k (snd (consume t k s))"
    and rejected: "\<not> fst (consume t k s) \<Longrightarrow> snd (consume t k s) = s"
    and frame: "j \<noteq> k \<Longrightarrow> live t' j (snd (consume t k s)) = live t' j s"
begin

lemma live_run:
  assumes "\<forall>(t, j) \<in> set xs. t0 \<le> t \<and> t \<le> t1"
    and "\<And>t. t0 \<le> t \<Longrightarrow> t \<le> t1 \<Longrightarrow> live t k s"
    and "t0 \<le> t" "t \<le> t1"
  shows "live t k (snd (run_ops (\<lambda>(t, j). consume t j) xs s))"
  using assms
proof (induction xs arbitrary: s)
  case (Cons x xs)
  obtain u j where x: "x = (u, j)" by (cases x)
  have "live t k (snd (consume u j s))" if "t0 \<le> t" "t \<le> t1" for t
  proof (cases "j = k")
    case True
    with Cons.prems(1,2) x have "live u k s" by auto
    then have "snd (consume u j s) = s" using True by (simp add: rejected accept_iff)
    with Cons.prems(2) that show ?thesis by simp
  next
    case False
    with Cons.prems(2) that show ?thesis by (simp add: frame)
  qed
  with Cons.IH [of "snd (consume u j s)"] Cons.prems x show ?case
    by (cases "consume u j s"; cases "run_ops (\<lambda>(t, j). consume t j) xs (snd (consume u j s))") auto
qed simp

text \<open>In a run, two acceptances of one key are more than a window apart.\<close>

lemma accepted_apart:
  assumes "sorted (map fst (xs @ (t, k) # ys @ [(t', k)]))"
    and "outputs (\<lambda>(t, j). consume t j) (xs @ (t, k) # ys @ [(t', k)]) s = os @ True # ps @ [True]"
    and "length os = length xs"
  shows "t + window < t'"
proof (rule ccontr)
  assume "\<not> t + window < t'"
  then have near: "t' \<le> t + window" by simp
  let ?c = "\<lambda>(t, j). consume t j"
  let ?u = "snd (run_ops ?c xs s)" and ?v = "snd (consume t k (snd (run_ops ?c xs s)))"
  have "outputs ?c xs s @ fst (consume t k ?u) # outputs ?c ys ?v @
      [fst (consume t' k (snd (run_ops ?c ys ?v)))] = os @ True # ps @ [True]"
    using assms(2) by (simp add: outputs_append outputs_Cons del: run_ops.simps(2))
  with assms(3) have acc: "fst (consume t k ?u)"
    and acc': "fst (consume t' k (snd (run_ops ?c ys ?v)))"
    by (auto simp: append_eq_append_conv)
  have "live t' k (snd (run_ops ?c ys ?v))"
  proof (rule live_run [where ?t0.0 = t and ?t1.0 = t'])
    show "\<forall>(u, j) \<in> set ys. t \<le> u \<and> u \<le> t'"
      using assms(1) by (auto simp: sorted_append)
    show "live u k ?v" if "t \<le> u" "u \<le> t'" for u
      using recorded [OF acc] that near by simp
    show "t \<le> t'" using assms(1) by (auto simp: sorted_append)
  qed simp
  with acc' show False by (simp add: accept_iff)
qed

end

locale high_water =
  fixes valid :: "int \<Rightarrow> bool"
    and offer :: "int \<Rightarrow> int \<Rightarrow> 's \<Rightarrow> bool \<times> 's"
    and mark :: "int \<Rightarrow> 's \<Rightarrow> int"
    and window :: int
  assumes offer_iff: "valid n \<Longrightarrow> fst (offer t n s) \<longleftrightarrow> mark t s < n"
    and raised: "valid n \<Longrightarrow> fst (offer t n s) \<Longrightarrow> t \<le> t' \<Longrightarrow> t' \<le> t + window \<Longrightarrow>
      mark t' (snd (offer t n s)) = n"
    and kept: "valid n \<Longrightarrow> \<not> fst (offer t n s) \<Longrightarrow> mark t' (snd (offer t n s)) = mark t' s"
begin

lemma mark_run:
  assumes "\<forall>(t, n) \<in> set xs. t0 \<le> t \<and> t \<le> t1 \<and> valid n" "sorted (map fst xs)"
    and "\<And>t. t0 \<le> t \<Longrightarrow> t \<le> t1 \<Longrightarrow> m \<le> mark t s"
    and "\<forall>(t, n) \<in> set xs. t1 \<le> t + window" "\<forall>(u, n) \<in> set xs. u \<le> t" "t0 \<le> t" "t \<le> t1"
  shows "m \<le> mark t (snd (run_ops (\<lambda>(t, n). offer t n) xs s))"
  using assms
proof (induction xs arbitrary: s t0)
  case (Cons x xs)
  obtain u n where x: "x = (u, n)" by (cases x)
  have "m \<le> mark t (snd (offer u n s))" if "u \<le> t" "t \<le> t1" for t
  proof (cases "fst (offer u n s)")
    case True
    with Cons.prems(1,3) x have "m < n" using offer_iff [of n u s] by force
    moreover have "mark t (snd (offer u n s)) = n"
      by (rule raised) (use Cons.prems(1,4) x True that in auto)
    ultimately show ?thesis by simp
  next
    case False
    with Cons.prems(1,3) x that kept [of n u s] show ?thesis by auto
  qed
  with Cons.IH [of u "snd (offer u n s)"] Cons.prems x show ?case
    by (cases "offer u n s"; cases "run_ops (\<lambda>(t, n). offer t n) xs (snd (offer u n s))")
      (auto simp: case_prod_beta)
qed simp

text \<open>In a run, the numbers accepted within a window of each other increase strictly.\<close>

lemma accepted_increase:
  assumes "sorted (map fst (xs @ (t, n) # ys @ [(t', n')]))"
    and "\<forall>(u, k) \<in> set (xs @ (t, n) # ys @ [(t', n')]). valid k"
    and "outputs (\<lambda>(t, n). offer t n) (xs @ (t, n) # ys @ [(t', n')]) s = os @ True # ps @ [True]"
    and "length os = length xs" "t' \<le> t + window"
  shows "n < n'"
proof -
  let ?c = "\<lambda>(t, n). offer t n"
  let ?u = "snd (run_ops ?c xs s)" and ?v = "snd (offer t n (snd (run_ops ?c xs s)))"
  have "outputs ?c xs s @ fst (offer t n ?u) # outputs ?c ys ?v @
      [fst (offer t' n' (snd (run_ops ?c ys ?v)))] = os @ True # ps @ [True]"
    using assms(3) by (simp add: outputs_append outputs_Cons del: run_ops.simps(2))
  with assms(4) have acc: "fst (offer t n ?u)" and acc': "fst (offer t' n' (snd (run_ops ?c ys ?v)))"
    by (auto simp: append_eq_append_conv)
  have vn: "valid n" "valid n'" using assms(2) by auto
  have le: "\<forall>(u, k) \<in> set ys. t \<le> u \<and> u \<le> t'" "t \<le> t'"
    using assms(1) by (auto simp: sorted_append)
  have "n \<le> mark t' (snd (run_ops ?c ys ?v))"
  proof (rule mark_run [where ?t0.0 = t and ?t1.0 = t'])
    show "\<forall>(u, k) \<in> set ys. t \<le> u \<and> u \<le> t' \<and> valid k" using le assms(2) by auto
    show "sorted (map fst ys)" using assms(1) by (auto simp: sorted_append)
    show "n \<le> mark u ?v" if "t \<le> u" "u \<le> t'" for u
      using raised [OF vn(1) acc that(1)] that assms(5) by simp
    show "\<forall>(u, k) \<in> set ys. t' \<le> u + window" using le assms(5) by auto
    show "\<forall>(u, k) \<in> set ys. u \<le> t'" "t \<le> t'" "t' \<le> t'" using le by auto
  qed
  also have "\<dots> < n'" using acc' offer_iff [OF vn(2)] by simp
  finally show ?thesis .
qed

end

locale seat_pool =
  fixes renew :: "int \<Rightarrow> 'd \<Rightarrow> int \<Rightarrow> int \<Rightarrow> 's \<Rightarrow> bool \<times> 's"
    and holders :: "int \<Rightarrow> 's \<Rightarrow> 'd set"
    and inv :: "'s \<Rightarrow> bool"
  assumes inv_renew: "inv s \<Longrightarrow> inv (snd (renew t d ttl limit s))"
    and finite_holders: "inv s \<Longrightarrow> finite (holders t s)"
    and expire: "inv s \<Longrightarrow> t \<le> t' \<Longrightarrow> holders t' s \<subseteq> holders t s"
    and admit_iff: "inv s \<Longrightarrow> fst (renew t d ttl limit s) \<longleftrightarrow>
      d \<in> holders t s \<or> int (card (holders t s)) < limit"
    and seated: "inv s \<Longrightarrow> fst (renew t d ttl limit s) \<Longrightarrow> t \<le> t' \<Longrightarrow> t' < t + ttl \<Longrightarrow>
      d \<in> holders t' (snd (renew t d ttl limit s))"
    and only_new: "inv s \<Longrightarrow> holders t (snd (renew t d ttl limit s)) \<subseteq>
      (if fst (renew t d ttl limit s) then insert d (holders t s) else holders t s)"
begin

lemma renew_card:
  assumes "inv s" "int (card (holders t s)) \<le> limit"
  shows "int (card (holders t (snd (renew t d ttl limit s)))) \<le> limit"
proof (cases "fst (renew t d ttl limit s) \<and> d \<notin> holders t s")
  case True
  with only_new [OF assms(1), of t d ttl limit]
  have "card (holders t (snd (renew t d ttl limit s))) \<le> card (insert d (holders t s))"
    by (intro card_mono) (simp_all add: finite_holders [OF assms(1)])
  moreover have "int (card (holders t s)) < limit"
    using True admit_iff [OF assms(1), of t d ttl limit] by blast
  ultimately show ?thesis using True by (simp add: finite_holders [OF assms(1)])
next
  case False
  with only_new [OF assms(1), of t d ttl limit]
  have "holders t (snd (renew t d ttl limit s)) \<subseteq> holders t s" by (auto split: if_splits)
  then have "card (holders t (snd (renew t d ttl limit s))) \<le> card (holders t s)"
    by (intro card_mono) (simp_all add: finite_holders [OF assms(1)])
  with assms(2) show ?thesis by linarith
qed

text \<open>Under a constant limit, a run never seats more than the limit.\<close>

lemma seats_run:
  assumes "inv s" "sorted (map fst xs)" "\<forall>(t, d, ttl) \<in> set xs. t0 \<le> t"
    "int (card (holders t0 s)) \<le> limit" "\<forall>(t, d, ttl) \<in> set xs. t \<le> t1" "t0 \<le> t1"
  shows "int (card (holders t1 (snd (run_ops (\<lambda>(t, d, ttl). renew t d ttl limit) xs s)))) \<le> limit"
  using assms
proof (induction xs arbitrary: s t0)
  case Nil
  have "card (holders t1 s) \<le> card (holders t0 s)"
    using Nil by (intro card_mono finite_holders expire) auto
  with Nil(4) show ?case by simp
next
  case (Cons x xs)
  obtain t d ttl where x: "x = (t, d, ttl)" by (cases x)
  have "card (holders t s) \<le> card (holders t0 s)"
    using Cons.prems x by (intro card_mono finite_holders expire) auto
  with Cons.prems(4) have "int (card (holders t s)) \<le> limit" by linarith
  from renew_card [OF Cons.prems(1) this]
  have "int (card (holders t (snd (renew t d ttl limit s)))) \<le> limit" .
  moreover have "inv (snd (renew t d ttl limit s))" by (rule inv_renew) (rule Cons.prems)
  moreover have "run_ops (\<lambda>(t, d, ttl). renew t d ttl limit) (x # xs) s =
      (case renew t d ttl limit s of (y, s') \<Rightarrow>
        (case run_ops (\<lambda>(t, d, ttl). renew t d ttl limit) xs s' of (ys, u) \<Rightarrow> (y # ys, u)))"
    by (simp add: x)
  then have "snd (run_ops (\<lambda>(t, d, ttl). renew t d ttl limit) (x # xs) s) =
      snd (run_ops (\<lambda>(t, d, ttl). renew t d ttl limit) xs (snd (renew t d ttl limit s)))"
    by (simp split: prod.splits)
  moreover have "\<forall>(u, d, ttl) \<in> set xs. t \<le> u" using Cons.prems(2) x by auto
  ultimately show ?case
    using Cons.IH [of "snd (renew t d ttl limit s)" t] Cons.prems x
    by (simp add: case_prod_unfold)
qed

end

section \<open>The providers\<close>

lemma r_get_set: "r_get now k (r_set k' v e r) =
    (if k = k' then (if live_at now e then Some v else None) else r_get now k r)"
  by (simp add: r_get_def r_set_def)

lemma live_expiry: "t \<le> t' \<Longrightarrow> t' \<le> t + ttl_ms d \<Longrightarrow> live_at t' (expiry t d)"
  by (simp add: live_at_def expiry_def)

lemma z_get_put: "z_get now k (z_put k' z e r) =
    (if k = k' then (if live_at now e then z else []) else z_get now k r)"
  by (simp add: z_get_def z_put_def)

interpretation nonce: once_register "\<lambda>t n. consume_nonce t scope n ttl"
  "\<lambda>t n r. r_get t (nonce_key scope n) r \<noteq> None" "ttl_ms ttl" for scope ttl
  by unfold_locales
    (auto simp: consume_nonce_def r_get_set live_expiry nonce_key_def split: option.splits)

definition seq_in_range :: "int \<Rightarrow> bool" where
  "seq_in_range n \<longleftrightarrow> 0 \<le> n \<and> n < 10 ^ 14"

lemma lua_small: "seq_in_range n \<Longrightarrow> int (lua_num (nat n)) = n \<and> int (lua_print (nat n)) = n"
proof -
  assume "seq_in_range n"
  then have "0 \<le> n" "nat n < 10 ^ 14" by (auto simp: seq_in_range_def nat_less_iff)
  then show ?thesis by (simp add: lua_num_small lua_print_small)
qed

definition offer_seq :: "string \<Rightarrow> int \<Rightarrow> int \<Rightarrow> int \<Rightarrow> redis \<Rightarrow> bool \<times> redis" where
  "offer_seq dev ttl t n r = (case check_seq t dev n ttl r of ((ok, known), r') \<Rightarrow> (ok, r'))"

lemma offer_seq_range:
  assumes "seq_in_range n"
  shows "offer_seq dev ttl t n r =
    (if n \<le> seq_cur t dev r then (False, r)
     else (True, r_set (seq_key dev) (VNum n) (Some (t + ttl div 1000000)) r))"
  using assms lua_small [OF assms]
  by (simp add: offer_seq_def check_seq_def seq_script_def Let_def seq_in_range_def)

lemma seq_cur_set: "seq_in_range n \<Longrightarrow> t' \<le> e \<Longrightarrow> seq_cur t' dev (r_set (seq_key dev) (VNum n) (Some e) r) = n"
  using lua_small [of n] by (simp add: seq_cur_def r_get_set live_at_def seq_in_range_def)

interpretation seqno: high_water seq_in_range "offer_seq dev ttl" "\<lambda>t. seq_cur t dev"
  "ttl div 1000000" for dev ttl
  by unfold_locales (auto simp: offer_seq_range seq_cur_set split: if_splits)

definition seats_wf :: "string \<Rightarrow> redis \<Rightarrow> bool" where
  "seats_wf lic r \<longleftrightarrow> distinct (map fst (fst (r_zsets r (online_key lic)))) \<and>
     snd (r_zsets r (online_key lic)) = None"

lemma distinct_z_rem: "distinct (map fst z) \<Longrightarrow> distinct (map fst (z_rem_range hi z))"
  by (simp add: z_rem_range_def distinct_map_filter)

lemma distinct_z_add: "distinct (map fst z) \<Longrightarrow> distinct (map fst (z_add m s z))"
  by (auto simp: z_add_def distinct_map_filter)

lemma z_get_wf: "seats_wf lic r \<Longrightarrow> z_get t (online_key lic) r = fst (r_zsets r (online_key lic)) \<and>
    z_exp t (online_key lic) r = None"
  by (auto simp: seats_wf_def z_get_def z_exp_def live_at_def split: prod.splits)

lemma card_online:
  assumes "seats_wf lic r"
  shows "card (online_set t lic r) = length (z_rem_range t (z_get t (online_key lic) r))"
proof -
  have "distinct (map fst (z_rem_range t (z_get t (online_key lic) r)))"
    using assms by (simp add: z_get_wf distinct_z_rem) (simp add: seats_wf_def distinct_z_rem)
  from distinct_card [OF this] show ?thesis by (simp add: online_set_def)
qed

lemma renew_online_eq:
  assumes "seats_wf lic r"
  shows "renew_online t lic dev ttl limit r =
    (let z = z_rem_range t (fst (r_zsets r (online_key lic)));
         ok = (dev \<in> online_set t lic r \<or> int (card (online_set t lic r)) < limit) in
     (ok, z_put (online_key lic) (if ok then z_add dev (t + ttl div 1000000) z else z) None r))"
  using assms card_online [OF assms, of t]
  by (auto simp: renew_online_def online_script_def Let_def z_get_wf online_set_def)

lemma online_set_put:
  "online_set t lic (z_put (online_key lic) z None r) = fst ` set (z_rem_range t z)"
  by (simp add: online_set_def z_get_put live_at_def)

lemma online_set_wf:
  "seats_wf lic r \<Longrightarrow> online_set t lic r = fst ` set (z_rem_range t (fst (r_zsets r (online_key lic))))"
  by (simp add: online_set_def z_get_wf)

lemma seats_wf_put: "seats_wf lic (z_put (online_key lic) z None r) \<longleftrightarrow> distinct (map fst z)"
  by (simp add: seats_wf_def z_put_def)

lemma in_z_rem: "p \<in> set (z_rem_range t z) \<longleftrightarrow> p \<in> set z \<and> (snd p < 0 \<or> t < snd p)"
  by (auto simp: z_rem_range_def)

lemma in_z_add: "p \<in> set (z_add m s z) \<longleftrightarrow> p = (m, s) \<or> p \<in> set z \<and> fst p \<noteq> m"
  by (auto simp: z_add_def)

interpretation seats: seat_pool "\<lambda>t dev ttl limit. renew_online t lic dev (ttl * 1000000) limit"
  "\<lambda>t. online_set t lic" "seats_wf lic" for lic
proof
  fix s :: redis and t t' ttl limit :: int and d :: string
  assume wf: "seats_wf lic s"
  note eq = renew_online_eq [OF wf, of t d "ttl * 1000000" limit]
  from wf have dz: "distinct (map fst (z_rem_range t (fst (r_zsets s (online_key lic)))))"
    by (simp add: seats_wf_def distinct_z_rem)
  show "seats_wf lic (snd (renew_online t lic d (ttl * 1000000) limit s))"
    using dz by (simp add: eq Let_def seats_wf_put distinct_z_add)
  show "finite (online_set t lic s)" by (simp add: online_set_def)
  show "online_set t' lic s \<subseteq> online_set t lic s" if "t \<le> t'"
    using that wf by (fastforce simp: online_set_def z_get_wf in_z_rem)
  show "fst (renew_online t lic d (ttl * 1000000) limit s) \<longleftrightarrow>
      d \<in> online_set t lic s \<or> int (card (online_set t lic s)) < limit"
    by (simp add: eq Let_def)
  show "d \<in> online_set t' lic (snd (renew_online t lic d (ttl * 1000000) limit s))"
    if "fst (renew_online t lic d (ttl * 1000000) limit s)" "t \<le> t'" "t' < t + ttl"
    using that by (force simp: eq Let_def online_set_put in_z_rem in_z_add)
  show "online_set t lic (snd (renew_online t lic d (ttl * 1000000) limit s)) \<subseteq>
      (if fst (renew_online t lic d (ttl * 1000000) limit s) then insert d (online_set t lic s)
       else online_set t lic s)"
    by (simp add: eq Let_def online_set_put online_set_wf [OF wf])
      (auto simp: in_z_rem in_z_add intro: rev_image_eqI)
qed

section \<open>What the cache promises\<close>

text \<open>C25. One nonce of one scope is accepted at most once per window: in any run of
  \<open>ConsumeNonce\<close> calls in time order, two acceptances of the same nonce are more than the
  time to live (in milliseconds) apart, whatever other nonces come in between.\<close>
lemma nonce_accepted_once_per_window:
  assumes "sorted (map fst (xs @ (t, n) # ys @ [(t', n)]))"
    and "outputs (\<lambda>(u, m). consume_nonce u scope m ttl) (xs @ (t, n) # ys @ [(t', n)]) r =
      os @ True # ps @ [True]"
    and "length os = length xs"
  shows "t + ttl_ms ttl < t'"
  using assms by (rule nonce.accepted_apart)

lemma nonce_accepted_once_per_window_witness:
  "outputs (\<lambda>(u, m). consume_nonce u ''dev'' m 5000000) ([] @ (0, ''a'') # [(3, ''a'')] @ [(9, ''a'')])
     empty_redis = [] @ True # [False] @ [True] \<and> 0 + ttl_ms 5000000 < 9"
proof -
  have run: "outputs (\<lambda>(u, m). consume_nonce u ''dev'' m 5000000)
      ([] @ (0, ''a'') # [(3, ''a'')] @ [(9, ''a'')]) empty_redis = [] @ True # [False] @ [True]"
    by (simp add: consume_nonce_def r_get_def r_set_def empty_redis_def expiry_def ttl_ms_def
        live_at_def)
  from nonce_accepted_once_per_window [OF _ this] run show ?thesis by simp
qed

text \<open>C26. The device sequence check is a high-water mark: among calls of \<open>CheckSeq\<close> for one
  device, in time order and no further apart than the key's life, the accepted numbers increase
  strictly, for every number the script's \<open>tostring\<close> prints exactly (below \<open>10 ^ 14\<close>).\<close>
lemma seq_accepted_increase:
  assumes "sorted (map fst (xs @ (t, n) # ys @ [(t', n')]))"
    and "\<forall>(u, k) \<in> set (xs @ (t, n) # ys @ [(t', n')]). seq_in_range k"
    and "outputs (\<lambda>(u, k). offer_seq dev ttl u k) (xs @ (t, n) # ys @ [(t', n')]) r =
      os @ True # ps @ [True]"
    and "length os = length xs" "t' \<le> t + ttl div 1000000"
  shows "n < n'"
  using assms by (rule seqno.accepted_increase)

lemma seq_accepted_increase_witness:
  "outputs (\<lambda>(u, k). offer_seq ''d'' 60000000000 u k) ([] @ (0, 5) # [(1, 5)] @ [(2, 8)]) empty_redis =
     [] @ True # [False] @ [True] \<and> (5::int) < 8"
proof -
  have range: "\<forall>(u::int, k) \<in> set ([] @ (0, 5) # [(1, 5)] @ [(2, 8)]). seq_in_range k"
    by (simp add: seq_in_range_def)
  have run: "outputs (\<lambda>(u, k). offer_seq ''d'' 60000000000 u k)
      ([] @ (0, 5) # [(1, 5)] @ [(2, 8)]) empty_redis = [] @ True # [False] @ [True]"
    by (simp add: offer_seq_range seq_in_range_def seq_cur_def r_get_def r_set_def empty_redis_def
        live_at_def lua_num_small)
  from seq_accepted_increase [OF _ range this] run show ?thesis by simp
qed

text \<open>Past 14 significant digits the mark is rounded down when it is stored: \<open>CheckSeq\<close>
  accepts the number \<open>100000000000001\<close> and, on the resulting store, accepts it again.\<close>
lemma seq_replayed_past_14_digits:
  "fst (check_seq 1 ''d'' 100000000000001 60000000000
      (snd (check_seq 0 ''d'' 100000000000001 60000000000 empty_redis))) = (True, True)"
proof -
  have num: "lua_num 100000000000001 = 100000000000001" "lua_num 100000000000000 = 100000000000000"
    by (simp_all add: lua_num_small)
  have "pow_above 10 (10 ^ 14) 100000000000001 = 10"
    by (simp add: pow_above.simps)
  then have print: "lua_print 100000000000001 = 100000000000000"
    by (simp add: lua_print_def round_to_def Let_def)
  show ?thesis
    by (simp add: check_seq_def seq_script_def seq_cur_def r_get_def r_set_def empty_redis_def
        live_at_def Let_def num print)
qed

text \<open>C27. A licence never has more online devices than its concurrency limit: from a store with
  at most the limit seated, any run of \<open>RenewOnline\<close> calls in time order under that limit leaves
  at most the limit seated at any later instant.\<close>
lemma online_seats_bounded:
  assumes "seats_wf lic r" "sorted (map fst xs)" "\<forall>(t, d, ttl) \<in> set xs. t0 \<le> t"
    "int (card (online_set t0 lic r)) \<le> limit" "\<forall>(t, d, ttl) \<in> set xs. t \<le> t1" "t0 \<le> t1"
  shows "int (card (online_set t1 lic
    (snd (run_ops (\<lambda>(t, d, ttl). renew_online t lic d (ttl * 1000000) limit) xs r)))) \<le> limit"
  using assms by (rule seats.seats_run)

lemma online_seats_bounded_witness:
  "outputs (\<lambda>(t, d, ttl). renew_online t ''l'' d (ttl * 1000000) 1) [(0, ''a'', 5), (1, ''b'', 5)]
     empty_redis = [True, False] \<and>
   int (card (online_set 1 ''l'' (snd (run_ops (\<lambda>(t, d, ttl). renew_online t ''l'' d (ttl * 1000000) 1)
     [(0, ''a'', 5), (1, ''b'', 5)] empty_redis)))) \<le> 1"
proof -
  have wf: "seats_wf ''l'' empty_redis" by (simp add: seats_wf_def empty_redis_def)
  have "outputs (\<lambda>(t, d, ttl). renew_online t ''l'' d (ttl * 1000000) 1) [(0, ''a'', 5), (1, ''b'', 5)]
     empty_redis = [True, False]"
    by (simp add: renew_online_def online_script_def z_get_def z_put_def z_exp_def empty_redis_def
        Let_def z_rem_range_def z_add_def live_at_def) auto
  moreover have "int (card (online_set 0 ''l'' empty_redis)) \<le> 1"
    by (simp add: online_set_wf [OF wf]) (simp add: empty_redis_def z_rem_range_def)
  ultimately show ?thesis
    using online_seats_bounded [OF wf, of "[(0, ''a'', 5), (1, ''b'', 5)]" 0 1 1] by simp
qed

text \<open>An agreed seat stays agreed until it expires: \<open>RenewOnline\<close> accepts exactly when the
  device holds a seat already or fewer than the limit are held.\<close>
lemma renew_online_accepts_iff:
  assumes "seats_wf lic r"
  shows "fst (renew_online t lic d (ttl * 1000000) limit r) \<longleftrightarrow>
    d \<in> online_set t lic r \<or> int (card (online_set t lic r)) < limit"
  using assms by (rule seats.admit_iff)

lemma renew_online_accepts_iff_witness:
  "fst (renew_online 0 ''l'' ''a'' (5 * 1000000) 0 empty_redis) \<longleftrightarrow>
    ''a'' \<in> online_set 0 ''l'' empty_redis \<or> int (card (online_set 0 ''l'' empty_redis)) < 0"
  by (rule renew_online_accepts_iff) (simp add: seats_wf_def empty_redis_def)

end
