(* ===== verification/World.thy ===== *)
theory World
  imports Models Cache
begin

section \<open>World: the state a handler runs in\<close>

text \<open>
  The state behind every handler: the database, the Redis store, the clock (nanoseconds; the
  database's \<open>now()\<close> is the same clock), the streams random values are drawn from, and the
  faults the network still has in store. A fault schedule is a list consumed one entry per
  statement or command, and an exhausted list means no more faults: \<open>Fine\<close> answers,
  \<open>Lost\<close> fails before taking effect, \<open>Late\<close> takes effect and then fails, so that the caller
  sees an error either way. \<open>WithTx\<close> runs its body on the database and puts the old one back
  on an error, as \<open>ROLLBACK\<close> does; the commit itself is one more fallible call.
\<close>

datatype fault = Fine | Lost | Late

record world =
  w_db :: db
  w_cache :: redis
  w_now :: time
  w_ids :: "nat \<Rightarrow> string"
  w_next_id :: nat
  w_rand :: "nat \<Rightarrow> string"
  w_next_rand :: nat
  w_serial :: int
  w_db_faults :: "fault list"
  w_redis_faults :: "fault list"

type_synonym 'a srv = "(world, error, 'a) m"

definition next_fault :: "fault list \<Rightarrow> fault \<times> fault list" where
  "next_fault fs = (case fs of [] \<Rightarrow> (Fine, []) | f # r \<Rightarrow> (f, r))"

subsection \<open>Statements\<close>

text \<open>
  \<open>db_exec f\<close> is one statement: \<open>f\<close> reads the clock and the database and gives a row
  result with the new database, or an SQL error with no effect. \<open>db_new\<close> is a statement whose
  defaults draw a fresh id, \<open>db_serial\<close> one that draws from a sequence.
\<close>

definition db_step :: "(world \<Rightarrow> store_error + 'a \<times> db) \<Rightarrow> 'a srv" where
  "db_step f w = (case next_fault (w_db_faults w) of (x, fs) \<Rightarrow>
     (let w = w\<lparr>w_db_faults := fs\<rparr> in
      case x of
        Lost \<Rightarrow> (Inl (Store ErrConn), w)
      | Late \<Rightarrow> (case f w of Inl e \<Rightarrow> (Inl (Store e), w)
                 | Inr (y, d) \<Rightarrow> (Inl (Store ErrConn), w\<lparr>w_db := d\<rparr>))
      | Fine \<Rightarrow> (case f w of Inl e \<Rightarrow> (Inl (Store e), w)
                 | Inr (y, d) \<Rightarrow> (Inr y, w\<lparr>w_db := d\<rparr>))))"

definition db_exec :: "(time \<Rightarrow> db \<Rightarrow> store_error + 'a \<times> db) \<Rightarrow> 'a srv" where
  "db_exec f = db_step (\<lambda>w. f (pg_time (w_now w)) (w_db w))"

definition db_new :: "(time \<Rightarrow> string \<Rightarrow> db \<Rightarrow> store_error + 'a \<times> db) \<Rightarrow> 'a srv" where
  "db_new f w = db_step (\<lambda>v. f (pg_time (w_now v)) (w_ids v (w_next_id w)) (w_db v))
     (w\<lparr>w_next_id := Suc (w_next_id w)\<rparr>)"

definition db_serial :: "(time \<Rightarrow> int \<Rightarrow> db \<Rightarrow> store_error + 'a \<times> db) \<Rightarrow> 'a srv" where
  "db_serial f w = db_step (\<lambda>v. f (pg_time (w_now v)) (w_serial w) (w_db v))
     (w\<lparr>w_serial := w_serial w + 1\<rparr>)"

text \<open>A \<open>SELECT\<close> of any number of rows, and one of exactly one row (\<open>collectOne\<close>).\<close>

definition db_read :: "(time \<Rightarrow> db \<Rightarrow> 'a) \<Rightarrow> 'a srv" where
  "db_read f = db_exec (\<lambda>t d. Inr (f t d, d))"

definition db_one :: "(time \<Rightarrow> db \<Rightarrow> 'a option) \<Rightarrow> 'a srv" where
  "db_one f = db_exec (\<lambda>t d. case f t d of None \<Rightarrow> Inl ErrNoRows | Some x \<Rightarrow> Inr (x, d))"

definition db_write :: "(time \<Rightarrow> db \<Rightarrow> db) \<Rightarrow> unit srv" where
  "db_write f = db_exec (\<lambda>t d. Inr ((), f t d))"

text \<open>The pattern \<open>tag.RowsAffected() == 0 \<Rightarrow> ErrNoRows\<close>.\<close>

definition need_rows :: "nat \<Rightarrow> db \<Rightarrow> store_error + unit \<times> db" where
  "need_rows n d = (if n = 0 then Inl ErrNoRows else Inr ((), d))"

subsection \<open>Transactions\<close>

text \<open>Put the database back; ids, serials and faults already used stay used.\<close>

definition rollback :: "db \<Rightarrow> world \<Rightarrow> world" where
  "rollback d w = w\<lparr>w_db := d\<rparr>"

definition with_tx :: "'a srv \<Rightarrow> 'a srv" where
  "with_tx body w =
    (case next_fault (w_db_faults w) of (b, fs) \<Rightarrow>
      (let w1 = w\<lparr>w_db_faults := fs\<rparr> in
       if b \<noteq> Fine then (Inl (Store ErrConn), w1)
       else case body w1 of
         (Inl e, w2) \<Rightarrow> (Inl e, rollback (w_db w) w2)
       | (Inr x, w2) \<Rightarrow> (case next_fault (w_db_faults w2) of (c, gs) \<Rightarrow>
           (let w3 = w2\<lparr>w_db_faults := gs\<rparr> in
            case c of Fine \<Rightarrow> (Inr x, w3)
            | Late \<Rightarrow> (Inl (Store ErrConn), w3)
            | Lost \<Rightarrow> (Inl (Store ErrConn), rollback (w_db w) w3)))))"

subsection \<open>Redis, the clock and randomness\<close>

text \<open>One Redis command. Its clock is in milliseconds.\<close>

definition now_ms :: "world \<Rightarrow> int" where
  "now_ms w = w_now w div 1000000"

definition redis_call :: "(int \<Rightarrow> redis \<Rightarrow> 'a \<times> redis) \<Rightarrow> 'a srv" where
  "redis_call f w = (case next_fault (w_redis_faults w) of (x, fs) \<Rightarrow>
     (let w1 = w\<lparr>w_redis_faults := fs\<rparr>; (y, r) = f (now_ms w) (w_cache w) in
      case x of Lost \<Rightarrow> (Inl (Service ErrCache), w1)
      | Late \<Rightarrow> (Inl (Service ErrCache), w1\<lparr>w_cache := r\<rparr>)
      | Fine \<Rightarrow> (Inr y, w1\<lparr>w_cache := r\<rparr>)))"

definition go_now :: "time srv" where
  "go_now = getsM w_now"

definition random_token :: "string srv" where
  "random_token w = (Inr (w_rand w (w_next_rand w)), w\<lparr>w_next_rand := Suc (w_next_rand w)\<rparr>)"

definition redis_op :: "(redis \<Rightarrow> redis) \<Rightarrow> unit srv" where
  "redis_op f = redis_call (\<lambda>t r. ((), f r))"

subsection \<open>Observing the database\<close>

text \<open>Database invariants: \<open>dbinv I m\<close> says every run of \<open>m\<close>, failing or not, keeps \<open>I\<close>.\<close>

abbreviation dbinv :: "(db \<Rightarrow> bool) \<Rightarrow> 'a srv \<Rightarrow> bool" where
  "dbinv I m \<equiv> preserves (\<lambda>w. I (w_db w)) m"

lemma next_fault_cases [simp]:
  "next_fault [] = (Fine, [])" "next_fault (f # r) = (f, r)"
  by (simp_all add: next_fault_def)

lemma db_step_db:
  assumes "\<And>fs y d. f (w\<lparr>w_db_faults := fs\<rparr>) = Inr (y, d) \<Longrightarrow> P d" "P (w_db w)"
  shows "P (w_db (snd (db_step f w)))"
proof (cases "next_fault (w_db_faults w)")
  case (Pair x fs)
  show ?thesis
  proof (cases "f (w\<lparr>w_db_faults := fs\<rparr>)")
    case (Inl e)
    with Pair assms(2) show ?thesis by (cases x) (simp_all add: db_step_def)
  next
    case (Inr p)
    then obtain y d where yd: "f (w\<lparr>w_db_faults := fs\<rparr>) = Inr (y, d)" by (cases p) auto
    then have "P d" by (rule assms(1))
    with Pair yd assms(2) show ?thesis by (cases x) (simp_all add: db_step_def)
  qed
qed

lemma dbinvI: "(\<And>w. I (w_db w) \<Longrightarrow> I (w_db (snd (m w)))) \<Longrightarrow> dbinv I m"
  by (rule validTI) (metis snd_conv)+

lemma dbinv_db_exec:
  assumes "\<And>t d x d'. I d \<Longrightarrow> f t d = Inr (x, d') \<Longrightarrow> I d'"
  shows "dbinv I (db_exec f)"
  unfolding db_exec_def by (rule dbinvI, rule db_step_db) (simp_all, erule (1) assms)

lemma dbinv_db_new:
  assumes "\<And>t i d x d'. I d \<Longrightarrow> f t i d = Inr (x, d') \<Longrightarrow> I d'"
  shows "dbinv I (db_new f)"
  by (rule dbinvI, unfold db_new_def, rule db_step_db) (simp_all, erule (1) assms)

lemma dbinv_db_serial:
  assumes "\<And>t i d x d'. I d \<Longrightarrow> f t i d = Inr (x, d') \<Longrightarrow> I d'"
  shows "dbinv I (db_serial f)"
  by (rule dbinvI, unfold db_serial_def, rule db_step_db) (simp_all, erule (1) assms)

lemma dbinv_db_write: "(\<And>t d. I d \<Longrightarrow> I (f t d)) \<Longrightarrow> dbinv I (db_write f)"
  unfolding db_write_def by (rule dbinv_db_exec) auto

subsection \<open>Operations that leave the database alone\<close>

lemma keeps_db_step:
  assumes "\<And>v y d. f v = Inr (y, d) \<Longrightarrow> d = w_db v"
  shows "keeps w_db (db_step f)"
  unfolding keeps_def by (rule allI, rule db_step_db) (simp_all, drule assms, simp)

lemma keeps_db_read [keepI]: "keeps w_db (db_read f)"
  unfolding db_read_def db_exec_def by (rule keeps_db_step) simp

lemma keeps_db_one [keepI]: "keeps w_db (db_one f)"
  unfolding db_one_def db_exec_def by (rule keeps_db_step) (simp split: option.splits)

lemma keeps_redis [keepI]: "keeps w_db (redis_call f)" "keeps w_db (redis_op g)"
  by (simp_all add: keeps_def redis_op_def redis_call_def Let_def split: prod.splits fault.splits)

lemma keeps_go_now [keepI]: "keeps w_db go_now" "keeps w_db random_token"
  by (simp_all add: keeps_def go_now_def random_token_def getsM_def)

lemma dbinv_keeps: "keeps w_db m \<Longrightarrow> dbinv I m"
  by (rule keeps_preserves)

lemmas dbinv_pure [trip] = keeps_db_read [THEN dbinv_keeps] keeps_db_one [THEN dbinv_keeps]
  keeps_redis [THEN dbinv_keeps] keeps_go_now [THEN dbinv_keeps]

subsection \<open>What a transaction guarantees\<close>

text \<open>
  A transaction ends in the database it started from, or in the one its body left on success:
  nothing in between is ever visible.
\<close>

lemma with_tx_atomic:
  "w_db (snd (with_tx body w)) = w_db w \<or>
   (\<exists>x w'. body (w\<lparr>w_db_faults := snd (next_fault (w_db_faults w))\<rparr>) = (Inr x, w') \<and>
     w_db (snd (with_tx body w)) = w_db w')"
  by (auto simp: with_tx_def Let_def rollback_def split: prod.splits sum.splits fault.splits)

lemma with_tx_Inr:
  assumes "with_tx body w = (Inr x, w')"
  shows "\<exists>w2. body (w\<lparr>w_db_faults := snd (next_fault (w_db_faults w))\<rparr>) = (Inr x, w2) \<and> w_db w' = w_db w2"
  using assms by (auto simp: with_tx_def Let_def split: prod.splits sum.splits fault.splits if_splits)

lemma dbinv_with_tx [trip]:
  assumes "dbinv I body"
  shows "dbinv I (with_tx body)"
proof (rule validTI)
  fix w :: world
  assume I: "I (w_db w)"
  have "I (w_db (snd (with_tx body w)))"
    using with_tx_atomic [of body w]
  proof (elim disjE exE conjE)
    fix x w'
    assume run: "body (w\<lparr>w_db_faults := snd (next_fault (w_db_faults w))\<rparr>) = (Inr x, w')"
      and eq: "w_db (snd (with_tx body w)) = w_db w'"
    from validT_Inr [OF assms _ run] I have "I (w_db w')" by simp
    then show ?thesis by (simp add: eq)
  qed (simp add: I)
  then show "with_tx body w = (Inl e, t) \<Longrightarrow> I (w_db t)" "with_tx body w = (Inr x, t) \<Longrightarrow> I (w_db t)"
    for e x t by auto
qed

text \<open>With no fault pending, a body that fails leaves the database as it was.\<close>

lemma with_tx_error_keeps:
  assumes "with_tx body w = (Inl e, w')" "e \<noteq> Store ErrConn"
  shows "w_db w' = w_db w"
  using assms by (auto simp: with_tx_def Let_def rollback_def
      split: prod.splits sum.splits fault.splits if_splits)

text \<open>Triples through a transaction, for a success.\<close>

lemma validT_with_tx:
  assumes "validT P body Q E" "\<And>w fs. P w \<Longrightarrow> P (w\<lparr>w_db_faults := fs\<rparr>)"
    and "\<And>x w fs. Q x w \<Longrightarrow> R x (w\<lparr>w_db_faults := fs\<rparr>)"
  shows "validT P (with_tx body) R (\<lambda>_ _. True)"
proof (rule validTI)
  fix s x t
  assume "P s" "with_tx body s = (Inr x, t)"
  then show "R x t"
    using assms validT_Inr [OF assms(1)] 
    by (fastforce simp: with_tx_def Let_def rollback_def
        split: prod.splits sum.splits fault.splits if_splits)
qed simp

end
