(* ===== verification/StoreCatalog.thy ===== *)
theory StoreCatalog
  imports World
begin

section \<open>Store: products, plans, agents and balances\<close>

text \<open>
  \<open>internal/store/catalog.go\<close>: one definition per method of \<open>Queries\<close>, each a single SQL
  statement. Constraints fail in PostgreSQL's order (CHECK, then UNIQUE, then FOREIGN KEY),
  and a number the column's type cannot hold fails like a CHECK. Rows come back sorted by
  \<open>created_at\<close> (ties in insertion order).
\<close>

subsection \<open>Column checks\<close>

definition int4 :: "int \<Rightarrow> bool" where
  "int4 x \<longleftrightarrow> - (2 ^ 31) \<le> x \<and> x < 2 ^ 31"

definition int8 :: "int \<Rightarrow> bool" where
  "int8 x \<longleftrightarrow> int64_min \<le> x \<and> x \<le> int64_max"

definition chars_within :: "string \<Rightarrow> nat \<Rightarrow> nat \<Rightarrow> string \<Rightarrow> bool" where
  "chars_within cs lo hi s \<longleftrightarrow> lo \<le> length s \<and> length s \<le> hi \<and> list_all (\<lambda>c. c \<in> set cs) s"

definition uppers :: string where "uppers = ''ABCDEFGHIJKLMNOPQRSTUVWXYZ''"

definition lowers :: string where "lowers = ''abcdefghijklmnopqrstuvwxyz''"

definition digits :: string where "digits = ''0123456789''"

definition text_len :: "nat \<Rightarrow> nat \<Rightarrow> string \<Rightarrow> bool" where
  "text_len lo hi s \<longleftrightarrow> lo \<le> length (runes s) \<and> length (runes s) \<le> hi"

definition in_strs :: "string \<Rightarrow> string list \<Rightarrow> bool" where
  "in_strs s xs \<longleftrightarrow> list_ex (\<lambda>x. x = s) xs"

lemma in_strs_iff: "in_strs s xs \<longleftrightarrow> s \<in> set xs"
  by (auto simp: in_strs_def list_ex_iff)

text \<open>\<open>LIKE\<close> on code points: \<open>%\<close> any text, \<open>_\<close> any one, backslash quotes the next.\<close>

fun sql_like :: "nat list \<Rightarrow> nat list \<Rightarrow> bool" where
  "sql_like [] t = (t = [])"
| "sql_like (p # ps) t =
     (if p = 37 then sql_like ps t \<or> (case t of [] \<Rightarrow> False | _ # t' \<Rightarrow> sql_like (p # ps) t')
      else if p = 92 then (case (ps, t) of (q # qs, x # t') \<Rightarrow> q = x \<and> sql_like qs t' | _ \<Rightarrow> False)
      else (case t of [] \<Rightarrow> False | x # t' \<Rightarrow> (p = 95 \<or> p = x) \<and> sql_like ps t'))"

definition like :: "string \<Rightarrow> string \<Rightarrow> bool" where
  "like pat s \<longleftrightarrow> sql_like (runes pat) (runes s)"

text \<open>\<open>LIMIT/OFFSET\<close>, and the defaults the list methods put in for a bad limit.\<close>

definition page :: "int \<Rightarrow> int \<Rightarrow> 'a list \<Rightarrow> 'a list" where
  "page lim off xs = take (nat lim) (drop (nat off) xs)"

definition clamp_limit :: "int \<Rightarrow> int \<Rightarrow> int \<Rightarrow> int" where
  "clamp_limit hi def n = (if n \<le> 0 \<or> n > hi then def else n)"

definition newest_first :: "('a \<Rightarrow> time) \<Rightarrow> 'a list \<Rightarrow> 'a list" where
  "newest_first f xs = sort_key (\<lambda>x. - f x) xs"

lemma set_newest_first [simp]: "set (newest_first f xs) = set xs"
  by (simp add: newest_first_def)

lemma set_page: "set (page lim off xs) \<subseteq> set xs"
  unfolding page_def by (meson order_trans set_drop_subset set_take_subset)

text \<open>A paged list: the page and the total before paging.\<close>

definition list_page :: "(time \<Rightarrow> db \<Rightarrow> 'a list) \<Rightarrow> int \<Rightarrow> int \<Rightarrow> ('a list \<times> int) srv" where
  "list_page f lim off =
    bindM (db_read (\<lambda>t d. int (length (f t d)))) (\<lambda>total.
    bindM (db_exec (\<lambda>t d. if off < 0 then Inl ErrInvalidInput else Inr (page lim off (f t d), d)))
      (\<lambda>rows. retM (rows, total)))"

definition next_row :: "(db \<Rightarrow> 'a list) \<Rightarrow> ('a \<Rightarrow> bool) \<Rightarrow> time \<Rightarrow> db \<Rightarrow> 'a option" where
  "next_row tab p t d = find p (tab d)"

subsection \<open>Products\<close>

definition create_product :: "string \<Rightarrow> string \<Rightarrow> product srv" where
  "create_product code name = db_new (\<lambda>t i d.
     if \<not> (chars_within (uppers @ digits @ ''_'') 2 32 code \<and> text_len 1 128 name) then Inl ErrCheck
     else if exists_row (\<lambda>r. pr_id r = i \<or> pr_code r = code) (d_products d) then Inl ErrUnique
     else let p = \<lparr>pr_id = i, pr_code = code, pr_name = name, pr_status = ''active'', pr_created = t\<rparr>
       in Inr (p, d\<lparr>d_products := d_products d @ [p]\<rparr>))"

definition list_products :: "product list srv" where
  "list_products = db_read (\<lambda>t d. sort_key pr_created (d_products d))"

definition get_product_by_code :: "string \<Rightarrow> product srv" where
  "get_product_by_code code = db_one (next_row d_products (\<lambda>r. pr_code r = code))"

definition get_product :: "string \<Rightarrow> product srv" where
  "get_product key = db_one (next_row d_products (\<lambda>r. pr_id r = key))"

definition set_product_status :: "string \<Rightarrow> string \<Rightarrow> unit srv" where
  "set_product_status key st = db_exec (\<lambda>t d.
     if exists_row (\<lambda>r. pr_id r = key) (d_products d) \<and> \<not> in_strs st [''active'', ''retired'']
     then Inl ErrCheck
     else Inr ((), d\<lparr>d_products := upd (\<lambda>r. pr_id r = key) (pr_status_update (\<lambda>_. st)) (d_products d)\<rparr>))"

subsection \<open>Plans\<close>

definition plan_limits_ok :: "plan \<Rightarrow> bool" where
  "plan_limits_ok p \<longleftrightarrow> text_len 1 128 (pl_name p) \<and>
     0 \<le> pl_days p \<and> pl_days p \<le> 36500 \<and>
     0 \<le> pl_fixed_days p \<and> int4 (pl_fixed_days p) \<and> 0 \<le> pl_uses p \<and> int4 (pl_uses p) \<and>
     1 \<le> pl_devices p \<and> pl_devices p \<le> 100 \<and> 1 \<le> pl_concurrent p \<and> pl_concurrent p \<le> 100 \<and>
     0 \<le> pl_grace p \<and> pl_grace p \<le> 604800 \<and> 60 \<le> pl_lease_ttl p \<and> pl_lease_ttl p \<le> 86400 \<and>
     10 \<le> pl_heartbeat p \<and> pl_heartbeat p \<le> 3600 \<and>
     0 \<le> pl_cooldown p \<and> int4 (pl_cooldown p) \<and> 0 \<le> pl_rebinds p \<and> int4 (pl_rebinds p) \<and>
     0 \<le> pl_price p \<and> int8 (pl_price p)"

definition plan_checks :: "plan \<Rightarrow> bool" where
  "plan_checks p \<longleftrightarrow> chars_within (lowers @ digits @ ''_-'') 2 64 (pl_code p) \<and>
     in_strs (pl_kind p) [''duration'', ''fixed'', ''permanent'', ''uses''] \<and> plan_limits_ok p"

definition create_plan :: "plan \<Rightarrow> plan srv" where
  "create_plan p = db_new (\<lambda>t i d.
     if \<not> plan_checks p then Inl ErrCheck
     else if exists_row (\<lambda>r. pl_id r = i \<or> pl_code r = pl_code p) (d_plans d) then Inl ErrUnique
     else if \<not> exists_row (\<lambda>r. pr_id r = pl_product p) (d_products d) then Inl ErrForeignKey
     else let q = p\<lparr>pl_id := i, pl_status := ''active'', pl_created := t\<rparr>
       in Inr (q, d\<lparr>d_plans := d_plans d @ [q]\<rparr>))"

definition list_plans :: "string \<Rightarrow> plan list srv" where
  "list_plans prod_id = (if prod_id \<noteq> [] then
       db_read (\<lambda>t d. sort_key pl_created (filter (\<lambda>p. pl_product p = prod_id) (d_plans d)))
     else db_read (\<lambda>t d. sort_key pl_created (d_plans d)))"

definition set_plan_status :: "string \<Rightarrow> string \<Rightarrow> unit srv" where
  "set_plan_status key st = db_exec (\<lambda>t d.
     if exists_row (\<lambda>r. pl_id r = key) (d_plans d) \<and> \<not> in_strs st [''active'', ''retired'']
     then Inl ErrCheck
     else need_rows (affected (\<lambda>r. pl_id r = key) (d_plans d))
       (d\<lparr>d_plans := upd (\<lambda>r. pl_id r = key) (pl_status_update (\<lambda>_. st)) (d_plans d)\<rparr>))"

definition get_plan :: "string \<Rightarrow> plan srv" where
  "get_plan key = db_one (next_row d_plans (\<lambda>r. pl_id r = key))"

text \<open>The columns \<open>UPDATE plans\<close> sets; product, code, kind and status stay.\<close>

definition plan_edit :: "plan \<Rightarrow> plan \<Rightarrow> plan" where
  "plan_edit p r = r\<lparr>pl_name := pl_name p, pl_days := pl_days p, pl_fixed_days := pl_fixed_days p,
     pl_uses := pl_uses p, pl_devices := pl_devices p, pl_concurrent := pl_concurrent p,
     pl_features := pl_features p, pl_grace := pl_grace p, pl_lease_ttl := pl_lease_ttl p,
     pl_heartbeat := pl_heartbeat p, pl_cooldown := pl_cooldown p, pl_rebinds := pl_rebinds p,
     pl_min_version := pl_min_version p, pl_price := pl_price p\<rparr>"

definition update_plan :: "plan \<Rightarrow> plan srv" where
  "update_plan p = db_exec (\<lambda>t d. case find (\<lambda>r. pl_id r = pl_id p) (d_plans d) of
     None \<Rightarrow> Inl ErrNoRows
   | Some r \<Rightarrow> if \<not> plan_limits_ok p then Inl ErrCheck
     else Inr (plan_edit p r,
       d\<lparr>d_plans := upd (\<lambda>r. pl_id r = pl_id p) (plan_edit p) (d_plans d)\<rparr>))"

definition count_plan_references :: "string \<Rightarrow> int srv" where
  "count_plan_references key = db_read (\<lambda>t d.
     int (affected (\<lambda>r. cb_plan r = key) (d_batches d)) + int (affected (\<lambda>r. cd_plan r = key) (d_cards d))
       + int (affected (\<lambda>r. li_plan r = key) (d_licenses d)))"

definition count_plan_licenses :: "string \<Rightarrow> int srv" where
  "count_plan_licenses key = db_read (\<lambda>t d. int (affected (\<lambda>r. li_plan r = key) (d_licenses d)))"

definition count_plan_live_cards :: "string \<Rightarrow> int srv" where
  "count_plan_live_cards key = db_read (\<lambda>t d.
     int (affected (\<lambda>r. cd_plan r = key \<and> cd_status r \<noteq> CardUnused) (d_cards d)))"

text \<open>Rows another table still references cannot be deleted.\<close>

definition card_referenced :: "db \<Rightarrow> string \<Rightarrow> bool" where
  "card_referenced d key \<longleftrightarrow> exists_row (\<lambda>r. li_card r = key) (d_licenses d) \<or>
     exists_row (\<lambda>r. ac_card r = key) (d_activations d) \<or> exists_row (\<lambda>r. rn_card r = key) (d_renewals d)"

definition void_and_delete_unused_cards :: "string \<Rightarrow> unit srv" where
  "void_and_delete_unused_cards plan = db_exec (\<lambda>t d.
     let p = (\<lambda>r. cd_plan r = plan \<and> cd_status r = CardUnused) in
     if exists_row (\<lambda>r. p r \<and> card_referenced d (cd_id r)) (d_cards d) then Inl ErrForeignKey
     else Inr ((), d\<lparr>d_cards := filter (\<lambda>r. \<not> p r) (d_cards d)\<rparr>))"

definition delete_batches_by_plan :: "string \<Rightarrow> unit srv" where
  "delete_batches_by_plan plan = db_exec (\<lambda>t d.
     if exists_row (\<lambda>b. cb_plan b = plan \<and> exists_row (\<lambda>c. cd_batch c = cb_id b) (d_cards d)) (d_batches d)
     then Inl ErrForeignKey
     else Inr ((), d\<lparr>d_batches := filter (\<lambda>b. cb_plan b \<noteq> plan) (d_batches d)\<rparr>))"

definition delete_plan :: "string \<Rightarrow> unit srv" where
  "delete_plan key = db_exec (\<lambda>t d.
     if affected (\<lambda>r. pl_id r = key) (d_plans d) = 0 then Inl ErrNoRows
     else if exists_row (\<lambda>r. cb_plan r = key) (d_batches d) \<or> exists_row (\<lambda>r. cd_plan r = key) (d_cards d) \<or>
        exists_row (\<lambda>r. li_plan r = key) (d_licenses d) then Inl ErrForeignKey
     else Inr ((), d\<lparr>d_plans := filter (\<lambda>r. pl_id r \<noteq> key) (d_plans d)\<rparr>))"

definition touch_licenses_policy :: "string \<Rightarrow> unit srv" where
  "touch_licenses_policy plan = db_write (\<lambda>t d. d\<lparr>d_licenses :=
     upd (\<lambda>r. li_plan r = plan) (\<lambda>r. r\<lparr>li_policy := li_policy r + 1, li_updated := t\<rparr>) (d_licenses d)\<rparr>)"

definition get_plan_by_product_duration :: "string \<Rightarrow> int \<Rightarrow> plan srv" where
  "get_plan_by_product_duration prod_id days = db_one (\<lambda>t d.
     find (\<lambda>p. pl_product p = prod_id \<and> pl_kind p = ''duration'' \<and> pl_days p = days \<and>
       like ''custom-%'' (pl_code p)) (sort_key pl_created (d_plans d)))"

definition get_plan_by_code :: "string \<Rightarrow> plan srv" where
  "get_plan_by_code code = db_one (next_row d_plans (\<lambda>r. pl_code r = code))"

subsection \<open>Agents' product grants\<close>

definition grant_agent_product :: "string \<Rightarrow> string \<Rightarrow> unit srv" where
  "grant_agent_product agent prod_id = db_exec (\<lambda>t d.
     if (agent, prod_id) \<in> set (d_grants d) then Inr ((), d)
     else if \<not> (exists_row (\<lambda>r. ag_id r = agent) (d_agents d) \<and>
        exists_row (\<lambda>r. pr_id r = prod_id) (d_products d)) then Inl ErrForeignKey
     else Inr ((), d\<lparr>d_grants := d_grants d @ [(agent, prod_id)]\<rparr>))"

definition revoke_agent_product :: "string \<Rightarrow> string \<Rightarrow> unit srv" where
  "revoke_agent_product agent prod_id = db_write (\<lambda>t d.
     d\<lparr>d_grants := filter (\<lambda>g. g \<noteq> (agent, prod_id)) (d_grants d)\<rparr>)"

definition agent_has_product :: "string \<Rightarrow> string \<Rightarrow> bool srv" where
  "agent_has_product agent prod_id = db_read (\<lambda>t d. (agent, prod_id) \<in> set (d_grants d))"

definition list_agent_products :: "string \<Rightarrow> string list srv" where
  "list_agent_products agent = db_read (\<lambda>t d.
     sort_key (map byte) (map snd (filter (\<lambda>g. fst g = agent) (d_grants d))))"

subsection \<open>Agents and their balance\<close>

definition create_agent :: "string \<Rightarrow> string option \<Rightarrow> agent srv" where
  "create_agent name parent = db_new (\<lambda>t i d.
     if \<not> text_len 1 128 name then Inl ErrCheck
     else if exists_row (\<lambda>r. ag_id r = i) (d_agents d) then Inl ErrUnique
     else if (case parent of None \<Rightarrow> False
       | Some p \<Rightarrow> \<not> (p = i \<or> exists_row (\<lambda>r. ag_id r = p) (d_agents d))) then Inl ErrForeignKey
     else let a = \<lparr>ag_id = i, ag_name = name, ag_parent = parent, ag_balance = 0,
         ag_status = ''active'', ag_created = t\<rparr>
       in Inr (a, d\<lparr>d_agents := d_agents d @ [a]\<rparr>))"

definition list_agents :: "agent list srv" where
  "list_agents = db_read (\<lambda>t d. sort_key ag_created (d_agents d))"

definition set_agent_status :: "string \<Rightarrow> string \<Rightarrow> unit srv" where
  "set_agent_status key st = db_exec (\<lambda>t d.
     if exists_row (\<lambda>r. ag_id r = key) (d_agents d) \<and> \<not> in_strs st [''active'', ''suspended'']
     then Inl ErrCheck
     else Inr ((), d\<lparr>d_agents := upd (\<lambda>r. ag_id r = key) (ag_status_update (\<lambda>_. st)) (d_agents d)\<rparr>))"

definition get_agent :: "string \<Rightarrow> agent srv" where
  "get_agent key = db_one (next_row d_agents (\<lambda>r. ag_id r = key))"

definition add_balance :: "string \<Rightarrow> int \<Rightarrow> db \<Rightarrow> db" where
  "add_balance key amt d =
     d\<lparr>d_agents := upd (\<lambda>r. ag_id r = key) (\<lambda>r. r\<lparr>ag_balance := ag_balance r + amt\<rparr>) (d_agents d)\<rparr>"

text \<open>The conditional \<open>UPDATE ... RETURNING balance_cents\<close>: the balance moves when it is enough.\<close>

definition deduct_agent_balance :: "string \<Rightarrow> int \<Rightarrow> int srv" where
  "deduct_agent_balance key amt =
    (if amt \<le> 0 then throwM (Text ''invalid deduction amount'')
     else db_exec (\<lambda>t d. case find (\<lambda>r. ag_id r = key) (d_agents d) of
         None \<Rightarrow> Inl ErrNoRows
       | Some a \<Rightarrow> if ag_balance a < amt then Inl ErrNoRows
           else Inr (ag_balance a - amt, add_balance key (- amt) d)))"

definition top_up_agent_balance :: "string \<Rightarrow> int \<Rightarrow> int srv" where
  "top_up_agent_balance key amt = db_exec (\<lambda>t d. case find (\<lambda>r. ag_id r = key) (d_agents d) of
     None \<Rightarrow> Inl ErrNoRows
   | Some a \<Rightarrow> if \<not> int8 (ag_balance a + amt) then Inl ErrCheck
       else if ag_balance a + amt < 0 then Inl ErrNoRows
       else Inr (ag_balance a + amt, add_balance key amt d))"

definition insert_agent_transaction ::
  "string \<Rightarrow> int \<Rightarrow> int \<Rightarrow> string \<Rightarrow> string option \<Rightarrow> string option \<Rightarrow> string option \<Rightarrow> unit srv" where
  "insert_agent_transaction agent amt after kind batch note who = db_exec (\<lambda>t d.
     if \<not> in_strs kind [''topup'', ''adjust'', ''batch_purchase''] then Inl ErrCheck
     else if \<not> exists_row (\<lambda>r. ag_id r = agent) (d_agents d) then Inl ErrForeignKey
     else Inr ((), d\<lparr>d_agent_txs := d_agent_txs d @ [\<lparr>tx_agent = agent, tx_amount = amt,
       tx_after = after, tx_kind = kind, tx_batch = batch, tx_note = note, tx_by = who,
       tx_created = t\<rparr>]\<rparr>))"

definition list_agent_transactions :: "string \<Rightarrow> int \<Rightarrow> agent_tx list srv" where
  "list_agent_transactions agent limit = db_read (\<lambda>t d. take (nat (clamp_limit 500 100 limit))
     (newest_first tx_created (filter (\<lambda>r. tx_agent r = agent) (d_agent_txs d))))"

end
