(* ===== verification/StoreLicenses.thy ===== *)
theory StoreLicenses
  imports StoreCatalog
begin

section \<open>Store: cards, licences, devices and their journals\<close>

text \<open>
  \<open>internal/store/licenses.go\<close>, one definition per method. The unique keys are
  \<open>cards.lookup\<close>, \<open>devices (license_id, fingerprint_hash)\<close> and the partial index on
  \<open>device_pub\<close> of active devices (migration 0007); \<open>cards_state\<close> is the CHECK that an
  active card has an activation time. The queries for one card leave out its note and
  ciphertext, so the row handed to the service does too (\<open>card_view\<close>).
\<close>

subsection \<open>Cards\<close>

record card_seed =
  cs_lookup :: string
  cs_prefix :: string
  cs_kind :: string
  cs_uses_total :: int
  cs_uses_left :: int
  cs_secret :: "string \<times> string \<times> string"

definition agent_ref_ok :: "db \<Rightarrow> string option \<Rightarrow> bool" where
  "agent_ref_ok d a = (case a of None \<Rightarrow> True | Some x \<Rightarrow> exists_row (\<lambda>r. ag_id r = x) (d_agents d))"

definition product_plan_ok :: "db \<Rightarrow> string \<Rightarrow> string \<Rightarrow> bool" where
  "product_plan_ok d p q \<longleftrightarrow> exists_row (\<lambda>r. pr_id r = p) (d_products d) \<and>
     exists_row (\<lambda>r. pl_id r = q) (d_plans d)"

definition insert_batch :: "card_batch \<Rightarrow> card_batch srv" where
  "insert_batch b = db_new (\<lambda>t i d.
     if \<not> (1 \<le> cb_quantity b \<and> cb_quantity b \<le> 100000 \<and> text_len 0 8 (cb_prefix b)) then Inl ErrCheck
     else if exists_row (\<lambda>r. cb_id r = i) (d_batches d) then Inl ErrUnique
     else if \<not> (agent_ref_ok d (cb_agent b) \<and> product_plan_ok d (cb_product b) (cb_plan b)) then Inl ErrForeignKey
     else let r = b\<lparr>cb_id := i, cb_created := t\<rparr>
       in Inr (r, d\<lparr>d_batches := d_batches d @ [r]\<rparr>))"

definition card_view :: "card \<Rightarrow> card" where
  "card_view c = c\<lparr>cd_secret := None, cd_note := None\<rparr>"

definition card_row :: "card_batch \<Rightarrow> card_seed \<Rightarrow> time \<Rightarrow> string \<Rightarrow> card" where
  "card_row b s t i = \<lparr>cd_id = i, cd_batch = cb_id b, cd_agent = cb_agent b, cd_product = cb_product b,
     cd_plan = cb_plan b, cd_lookup = cs_lookup s, cd_secret = Some (cs_secret s),
     cd_prefix = cs_prefix s, cd_kind = cs_kind s, cd_status = CardUnused,
     cd_uses_total = cs_uses_total s, cd_uses_left = cs_uses_left s, cd_license = None,
     cd_user = None, cd_activated = None, cd_by = cb_by b, cd_note = None, cd_created = t\<rparr>"

definition insert_card :: "card_batch \<Rightarrow> card_seed \<Rightarrow> card srv" where
  "insert_card b s = db_new (\<lambda>t i d.
     if \<not> (in_strs (cs_kind s) [''license'', ''renewal''] \<and> int4 (cs_uses_total s) \<and>
       int4 (cs_uses_left s)) then Inl ErrCheck
     else if exists_row (\<lambda>r. cd_id r = i \<or> cd_lookup r = cs_lookup s) (d_cards d) then Inl ErrUnique
     else if \<not> (exists_row (\<lambda>r. cb_id r = cb_id b) (d_batches d) \<and> agent_ref_ok d (cb_agent b) \<and>
       product_plan_ok d (cb_product b) (cb_plan b)) then Inl ErrForeignKey
     else Inr (card_view (card_row b s t i), d\<lparr>d_cards := d_cards d @ [card_row b s t i]\<rparr>))"

fun insert_cards :: "card_batch \<Rightarrow> card_seed list \<Rightarrow> card list srv" where
  "insert_cards b [] = retM []"
| "insert_cards b (s # ss) =
     bindM (insert_card b s) (\<lambda>c. bindM (insert_cards b ss) (\<lambda>cs. retM (c # cs)))"

definition create_batch :: "card_batch \<Rightarrow> card_seed list \<Rightarrow> (card_batch \<times> card list) srv" where
  "create_batch b seeds =
     bindM (insert_batch b) (\<lambda>row. bindM (insert_cards row seeds) (\<lambda>cards. retM (row, cards)))"

definition get_card_by_id :: "string \<Rightarrow> card srv" where
  "get_card_by_id key = db_one (\<lambda>t d. map_option card_view (find (\<lambda>r. cd_id r = key) (d_cards d)))"

definition get_card_by_lookup :: "string \<Rightarrow> card srv" where
  "get_card_by_lookup l = db_one (\<lambda>t d. map_option card_view (find (\<lambda>r. cd_lookup r = l) (d_cards d)))"

record card_filter =
  cf_agent :: string
  cf_prefix :: string
  cf_batch :: string
  cf_status :: string
  cf_kind :: string
  cf_plan :: string
  cf_product :: string
  cf_search :: string

definition opt_eq :: "string \<Rightarrow> string \<Rightarrow> bool" where
  "opt_eq want have \<longleftrightarrow> want = [] \<or> have = want"

definition card_matches :: "card_filter \<Rightarrow> card \<Rightarrow> bool" where
  "card_matches f c \<longleftrightarrow> (cf_agent f = [] \<or> cd_agent c = Some (cf_agent f)) \<and>
     opt_eq (cf_prefix f) (cd_prefix c) \<and> opt_eq (cf_batch f) (cd_batch c) \<and>
     opt_eq (cf_status f) (card_status_str (cd_status c)) \<and> opt_eq (cf_kind f) (cd_kind c) \<and>
     opt_eq (cf_plan f) (cd_plan c) \<and> opt_eq (cf_product f) (cd_product c) \<and>
     (cf_search f = [] \<or> like (cf_search f @ ''%'') (cd_prefix c))"

definition list_cards :: "card_filter \<Rightarrow> int \<Rightarrow> int \<Rightarrow> (card list \<times> int) srv" where
  "list_cards f lim off = list_page
     (\<lambda>t d. newest_first cd_created (map (\<lambda>c. c\<lparr>cd_secret := None\<rparr>) (filter (card_matches f) (d_cards d))))
     (clamp_limit 500 50 lim) off"

definition card_state_ok :: "card \<Rightarrow> bool" where
  "card_state_ok c \<longleftrightarrow> cd_status c = CardActive \<longrightarrow> cd_activated c \<noteq> None"

text \<open>An \<open>UPDATE cards\<close> of the rows \<open>p\<close>, refused when a new row fails \<open>cards_state\<close>.\<close>

definition update_cards :: "(card \<Rightarrow> bool) \<Rightarrow> (time \<Rightarrow> card \<Rightarrow> card) \<Rightarrow> unit srv" where
  "update_cards p f = db_exec (\<lambda>t d.
     if exists_row (\<lambda>r. p r \<and> \<not> card_state_ok (f t r)) (d_cards d) then Inl ErrCheck
     else need_rows (affected p (d_cards d)) (d\<lparr>d_cards := upd p (f t) (d_cards d)\<rparr>))"

definition set_card_status :: "string \<Rightarrow> card_status \<Rightarrow> unit srv" where
  "set_card_status key st = update_cards (\<lambda>r. cd_id r = key) (\<lambda>t. cd_status_update (\<lambda>_. st))"

definition transition_card_status :: "string \<Rightarrow> card_status \<Rightarrow> card_status \<Rightarrow> unit srv" where
  "transition_card_status key from to =
     update_cards (\<lambda>r. cd_id r = key \<and> cd_status r = from) (\<lambda>t. cd_status_update (\<lambda>_. to))"

definition transition_card_to_terminal :: "string \<Rightarrow> card_status \<Rightarrow> unit srv" where
  "transition_card_to_terminal key to =
     update_cards (\<lambda>r. cd_id r = key \<and> cd_status r \<notin> {CardRevoked, CardVoided, CardDepleted})
       (\<lambda>t. cd_status_update (\<lambda>_. to))"

definition set_card_activated :: "string \<Rightarrow> string \<Rightarrow> time \<Rightarrow> unit srv" where
  "set_card_activated key lic at = db_write (\<lambda>t d. d\<lparr>d_cards :=
     upd (\<lambda>r. cd_id r = key \<and> (cd_status r = CardUnused \<or> cd_status r = CardDepleted))
       (\<lambda>r. r\<lparr>cd_status := (if cd_status r = CardDepleted then CardDepleted else CardActive),
         cd_license := Some lic, cd_activated := Some (pg_time at)\<rparr>) (d_cards d)\<rparr>)"

definition set_card_note :: "string \<Rightarrow> string \<Rightarrow> unit srv" where
  "set_card_note key note = db_write (\<lambda>t d. d\<lparr>d_cards :=
     upd (\<lambda>r. cd_id r = key) (cd_note_update (\<lambda>_. Some note)) (d_cards d)\<rparr>)"

subsection \<open>Licences\<close>

definition get_license :: "string \<Rightarrow> license srv" where
  "get_license key = db_one (next_row d_licenses (\<lambda>r. li_id r = key))"

definition license_row :: "license \<Rightarrow> time \<Rightarrow> string \<Rightarrow> license" where
  "license_row l t i = \<lparr>li_id = i, li_product = li_product l, li_plan = li_plan l,
     li_agent = li_agent l, li_card = li_card l, li_status = LicenseActive, li_uses = li_uses l,
     li_activated = t, li_expires = map_option pg_time (li_expires l), li_policy = 1,
     li_note = None, li_created = t, li_updated = t\<rparr>"

definition create_license :: "license \<Rightarrow> license srv" where
  "create_license l = db_new (\<lambda>t i d.
     if \<not> (case li_uses l of None \<Rightarrow> True | Some u \<Rightarrow> int4 u) then Inl ErrCheck
     else if exists_row (\<lambda>r. li_id r = i) (d_licenses d) then Inl ErrUnique
     else if \<not> (product_plan_ok d (li_product l) (li_plan l) \<and> agent_ref_ok d (li_agent l) \<and>
       exists_row (\<lambda>r. cd_id r = li_card l) (d_cards d)) then Inl ErrForeignKey
     else Inr (license_row l t i, d\<lparr>d_licenses := d_licenses d @ [license_row l t i]\<rparr>))"

definition update_licenses :: "(license \<Rightarrow> bool) \<Rightarrow> (time \<Rightarrow> license \<Rightarrow> license) \<Rightarrow> unit srv" where
  "update_licenses p f = db_exec (\<lambda>t d.
     need_rows (affected p (d_licenses d)) (d\<lparr>d_licenses := upd p (f t) (d_licenses d)\<rparr>))"

definition transition_license :: "string \<Rightarrow> license_status \<Rightarrow> license_status \<Rightarrow> unit srv" where
  "transition_license key from to =
     update_licenses (\<lambda>r. li_id r = key \<and> li_status r = from) (\<lambda>t r. r\<lparr>li_status := to, li_updated := t\<rparr>)"

definition transition_license_terminal :: "string \<Rightarrow> license_status \<Rightarrow> unit srv" where
  "transition_license_terminal key to =
     update_licenses (\<lambda>r. li_id r = key \<and> li_status r \<notin> {LicenseRevoked, LicenseVoided})
       (\<lambda>t r. r\<lparr>li_status := to, li_updated := t\<rparr>)"

text \<open>\<open>uses_left > 0\<close> is not true of a NULL, so a licence without a count is not found.\<close>

definition consume_license_use :: "string \<Rightarrow> int srv" where
  "consume_license_use key = db_exec (\<lambda>t d. case find (\<lambda>r. li_id r = key) (d_licenses d) of
     None \<Rightarrow> Inl ErrNoRows
   | Some l \<Rightarrow> (case li_uses l of
       None \<Rightarrow> Inl ErrNoRows
     | Some u \<Rightarrow> if u \<le> 0 then Inl ErrNoRows
       else Inr (u - 1, d\<lparr>d_licenses :=
         upd (\<lambda>r. li_id r = key) (li_uses_update (\<lambda>_. Some (u - 1))) (d_licenses d)\<rparr>)))"

definition needs_expired_event :: "time \<Rightarrow> db \<Rightarrow> license \<Rightarrow> bool" where
  "needs_expired_event t d l \<longleftrightarrow> li_status l = LicenseActive \<and>
     (case li_expires l of None \<Rightarrow> False | Some e \<Rightarrow> e < t) \<and>
     \<not> exists_row (\<lambda>e. ev_license e = li_id l \<and> ev_kind e = ''expired'') (d_events d)"

definition mark_expired_license_events :: "int srv" where
  "mark_expired_license_events = db_exec (\<lambda>t d.
     let ls = filter (needs_expired_event t d) (d_licenses d) in
     Inr (int (length ls), d\<lparr>d_events := d_events d @ map (\<lambda>l. \<lparr>ev_license = li_id l,
       ev_kind = ''expired'', ev_actor = ''system'', ev_detail = [], ev_request = [],
       ev_created = t\<rparr>) ls\<rparr>))"

text \<open>The new expiry of \<open>ExtendLicense\<close>: \<open>CASE ... END\<close>.\<close>

definition extended_expiry :: "time \<Rightarrow> time option \<Rightarrow> int \<Rightarrow> time" where
  "extended_expiry t e days = (case e of None \<Rightarrow> t + days * day
     | Some x \<Rightarrow> if x < t then t + days * day else x + days * day)"

definition extend_license :: "string \<Rightarrow> int \<Rightarrow> time srv" where
  "extend_license key days = db_exec (\<lambda>t d.
     if \<not> int4 days then Inl ErrCheck
     else case find (\<lambda>r. li_id r = key) (d_licenses d) of
       None \<Rightarrow> Inl ErrNoRows
     | Some l \<Rightarrow> let e = extended_expiry t (li_expires l) days in
         Inr (e, d\<lparr>d_licenses := upd (\<lambda>r. li_id r = key)
           (\<lambda>r. r\<lparr>li_expires := Some e, li_updated := t\<rparr>) (d_licenses d)\<rparr>))"

definition set_license_note :: "string \<Rightarrow> string \<Rightarrow> unit srv" where
  "set_license_note key note = db_write (\<lambda>t d. d\<lparr>d_licenses :=
     upd (\<lambda>r. li_id r = key) (\<lambda>r. r\<lparr>li_note := Some note, li_updated := t\<rparr>) (d_licenses d)\<rparr>)"

record license_filter =
  lf_agent :: string
  lf_status :: string
  lf_product :: string
  lf_search :: string

definition license_matches :: "license_filter \<Rightarrow> db \<Rightarrow> license \<Rightarrow> bool" where
  "license_matches f d l \<longleftrightarrow> (lf_agent f = [] \<or> li_agent l = Some (lf_agent f)) \<and>
     opt_eq (lf_status f) (license_status_str (li_status l)) \<and> opt_eq (lf_product f) (li_product l) \<and>
     (lf_search f = [] \<or> like (''%'' @ lf_search f @ ''%'') (li_id l) \<or>
       exists_row (\<lambda>c. cd_id c = li_card l \<and> like (''%'' @ lf_search f @ ''%'') (cd_prefix c)) (d_cards d))"

definition list_licenses :: "license_filter \<Rightarrow> int \<Rightarrow> int \<Rightarrow> (license list \<times> int) srv" where
  "list_licenses f lim off = list_page
     (\<lambda>t d. newest_first li_created (filter (license_matches f d) (d_licenses d)))
     (clamp_limit 500 50 lim) off"

subsection \<open>Devices\<close>

definition device_row :: "device \<Rightarrow> time \<Rightarrow> string \<Rightarrow> device" where
  "device_row v t i = \<lparr>dv_id = i, dv_license = dv_license v, dv_fp = dv_fp v, dv_pub = dv_pub v,
     dv_kty = dv_kty v, dv_trust = dv_trust v, dv_hw = dv_hw v, dv_status = DeviceActive,
     dv_bound = t, dv_unbound = None, dv_unbound_by = None, dv_heartbeat = None, dv_ip = dv_ip v,
     dv_version = dv_version v, dv_seq = 0\<rparr>"

definition device_checks :: "string \<Rightarrow> string \<Rightarrow> bool" where
  "device_checks kty trust \<longleftrightarrow> in_strs kty [''ed25519'', ''p256''] \<and> in_strs trust [''tpm'', ''software'']"

definition create_device :: "device \<Rightarrow> device srv" where
  "create_device v = db_new (\<lambda>t i d.
     if \<not> device_checks (dv_kty v) (dv_trust v) then Inl ErrCheck
     else if exists_row (\<lambda>r. dv_id r = i \<or> (dv_license r = dv_license v \<and> dv_fp r = dv_fp v) \<or>
       (dv_pub r = dv_pub v \<and> dv_status r = DeviceActive)) (d_devices d) then Inl ErrUnique
     else if \<not> exists_row (\<lambda>r. li_id r = dv_license v) (d_licenses d) then Inl ErrForeignKey
     else Inr (device_row v t i, d\<lparr>d_devices := d_devices d @ [device_row v t i]\<rparr>))"

definition get_device_by_fingerprint :: "string \<Rightarrow> string \<Rightarrow> device srv" where
  "get_device_by_fingerprint lic fp =
     db_one (next_row d_devices (\<lambda>r. dv_license r = lic \<and> dv_fp r = fp))"

definition get_device_by_pub :: "string \<Rightarrow> device srv" where
  "get_device_by_pub pub = db_one (\<lambda>t d. case newest_first dv_bound
     (filter (\<lambda>r. dv_pub r = pub \<and> dv_status r = DeviceActive) (d_devices d)) of
       [] \<Rightarrow> None | v # _ \<Rightarrow> Some v)"

definition get_device :: "string \<Rightarrow> device srv" where
  "get_device key = db_one (next_row d_devices (\<lambda>r. dv_id r = key))"

definition count_active_devices :: "string \<Rightarrow> int srv" where
  "count_active_devices lic = db_read (\<lambda>t d.
     int (affected (\<lambda>r. dv_license r = lic \<and> dv_status r = DeviceActive) (d_devices d)))"

definition unbind_row :: "time \<Rightarrow> string \<Rightarrow> device \<Rightarrow> device" where
  "unbind_row t who r = r\<lparr>dv_status := DeviceUnbound, dv_unbound := Some t, dv_unbound_by := Some who\<rparr>"

definition store_unbind_device :: "string \<Rightarrow> string \<Rightarrow> device srv" where
  "store_unbind_device key who = db_exec (\<lambda>t d.
     case find (\<lambda>r. dv_id r = key \<and> dv_status r = DeviceActive) (d_devices d) of
       None \<Rightarrow> Inl ErrNoRows
     | Some v \<Rightarrow> Inr (unbind_row t who v, d\<lparr>d_devices :=
         upd (\<lambda>r. dv_id r = key \<and> dv_status r = DeviceActive) (unbind_row t who) (d_devices d)\<rparr>))"

definition list_devices :: "string \<Rightarrow> bool \<Rightarrow> device list srv" where
  "list_devices lic include_unbound = db_read (\<lambda>t d. sort_key dv_bound
     (filter (\<lambda>r. dv_license r = lic \<and> (include_unbound \<or> dv_status r = DeviceActive)) (d_devices d)))"

definition heartbeat_row :: "time \<Rightarrow> int \<Rightarrow> string \<Rightarrow> string \<Rightarrow> device \<Rightarrow> device" where
  "heartbeat_row t sq ip ver r = r\<lparr>dv_heartbeat := Some t, dv_seq := max (dv_seq r) sq, dv_ip := Some ip,
     dv_version := (if ver = [] then dv_version r else Some ver)\<rparr>"

definition bump_device_heartbeat :: "string \<Rightarrow> int \<Rightarrow> string \<Rightarrow> string \<Rightarrow> unit srv" where
  "bump_device_heartbeat key sq ip ver = db_exec (\<lambda>t d.
     if ip = [] then Inl ErrInvalidInput
     else Inr ((), d\<lparr>d_devices := upd (\<lambda>r. dv_id r = key) (heartbeat_row t sq ip ver) (d_devices d)\<rparr>))"

definition accept_seq_stmt :: "string \<Rightarrow> int \<Rightarrow> bool srv" where
  "accept_seq_stmt key sq = db_exec (\<lambda>t d.
     if affected (\<lambda>r. dv_id r = key \<and> dv_seq r < sq) (d_devices d) = 0 then Inl ErrNoRows
     else Inr (True, d\<lparr>d_devices := upd (\<lambda>r. dv_id r = key \<and> dv_seq r < sq) (dv_seq_update (\<lambda>_. sq))
       (d_devices d)\<rparr>))"

definition accept_device_seq :: "string \<Rightarrow> int \<Rightarrow> bool srv" where
  "accept_device_seq key sq =
    bindM (tryM (accept_seq_stmt key sq)) (\<lambda>r. case r of
      Inr b \<Rightarrow> retM b
    | Inl e \<Rightarrow> if e \<noteq> Store ErrNoRows then throwM e
        else bindM (db_read (\<lambda>t d. exists_row (\<lambda>r. dv_id r = key) (d_devices d))) (\<lambda>ex.
          if ex then retM False else throwM (Store ErrNoRows)))"

definition rotate_device_pub :: "string \<Rightarrow> string \<Rightarrow> string \<Rightarrow> string \<Rightarrow> unit srv" where
  "rotate_device_pub key pub kty trust = db_exec (\<lambda>t d.
     let p = (\<lambda>r. dv_id r = key \<and> \<not> exists_row (\<lambda>q. dv_pub q = pub \<and> dv_status q = DeviceActive \<and>
       dv_id q \<noteq> key) (d_devices d)) in
     if exists_row p (d_devices d) \<and> \<not> device_checks kty trust then Inl ErrCheck
     else need_rows (affected p (d_devices d)) (d\<lparr>d_devices :=
       upd p (\<lambda>r. r\<lparr>dv_pub := pub, dv_kty := kty, dv_trust := trust\<rparr>) (d_devices d)\<rparr>))"

subsection \<open>Journals\<close>

definition insert_renewal ::
  "string \<Rightarrow> string \<Rightarrow> int \<Rightarrow> time option \<Rightarrow> time option \<Rightarrow> unit srv" where
  "insert_renewal lic cid days old new = db_new (\<lambda>t i d.
     if \<not> (0 < days \<and> int4 days) then Inl ErrCheck
     else if \<not> (exists_row (\<lambda>r. li_id r = lic) (d_licenses d) \<and>
       exists_row (\<lambda>r. cd_id r = cid) (d_cards d)) then Inl ErrForeignKey
     else Inr ((), d\<lparr>d_renewals := d_renewals d @ [\<lparr>rn_license = lic, rn_card = cid, rn_days = days,
       rn_old = map_option pg_time old, rn_new = map_option pg_time new, rn_created = t\<rparr>]\<rparr>))"

definition str_opt :: "string \<Rightarrow> string option" where
  "str_opt s = (if s = [] then None else Some s)"

definition insert_activation ::
  "string \<Rightarrow> string \<Rightarrow> string \<Rightarrow> string \<Rightarrow> string \<Rightarrow> unit srv" where
  "insert_activation lic cid dev kind ip = db_new (\<lambda>t i d.
     if \<not> in_strs kind [''initial'', ''rebind'', ''reactivation''] then Inl ErrCheck
     else if \<not> (exists_row (\<lambda>r. li_id r = lic) (d_licenses d) \<and>
       exists_row (\<lambda>r. cd_id r = cid) (d_cards d) \<and>
       exists_row (\<lambda>r. dv_id r = dev) (d_devices d)) then Inl ErrForeignKey
     else Inr ((), d\<lparr>d_activations := d_activations d @ [\<lparr>ac_license = lic, ac_card = cid,
       ac_device = dev, ac_kind = kind, ac_ip = str_opt ip, ac_created = t\<rparr>]\<rparr>))"

definition event_kinds :: "string list" where
  "event_kinds = [''activated'', ''renewed'', ''frozen'', ''unfrozen'', ''revoked'', ''voided'',
     ''device_bound'', ''device_unbound'', ''expired'', ''policy_updated'']"

definition insert_license_event ::
  "string \<Rightarrow> string \<Rightarrow> string \<Rightarrow> string \<Rightarrow> detail \<Rightarrow> unit srv" where
  "insert_license_event lic kind actor req det = db_serial (\<lambda>t i d.
     if \<not> in_strs kind event_kinds then Inl ErrCheck
     else if \<not> exists_row (\<lambda>r. li_id r = lic) (d_licenses d) then Inl ErrForeignKey
     else Inr ((), d\<lparr>d_events := d_events d @ [\<lparr>ev_license = lic, ev_kind = kind, ev_actor = actor,
       ev_detail = det, ev_request = req, ev_created = t\<rparr>]\<rparr>))"

definition list_license_events :: "string \<Rightarrow> int \<Rightarrow> license_event list srv" where
  "list_license_events lic lim = db_read (\<lambda>t d. take (nat lim)
     (newest_first ev_created (filter (\<lambda>e. ev_license e = lic) (d_events d))))"

end
