(* ===== verification/StoreUsers.thy ===== *)
theory StoreUsers
  imports StoreLicenses
begin

section \<open>Store: end users, announcements, versions and limits\<close>

text \<open>
  \<open>internal/store/users.go\<close>, one definition per method. A user name is unique per product;
  \<open>MarkCardUsedByUser\<close> is the guarded statement that spends an unused card on an account.
\<close>

definition nullable_ip :: "string option \<Rightarrow> string option" where
  "nullable_ip ip = (case ip of None \<Rightarrow> None | Some s \<Rightarrow> if s = [] then None else Some s)"

definition username_ok :: "string \<Rightarrow> bool" where
  "username_ok s \<longleftrightarrow> chars_within (lowers @ uppers @ digits @ ''_'') 3 32 s"

definition end_user_row :: "end_user \<Rightarrow> time \<Rightarrow> string \<Rightarrow> end_user" where
  "end_user_row u t i = \<lparr>eu_id = i, eu_product = eu_product u, eu_username = eu_username u,
     eu_password = eu_password u, eu_security = eu_security u, eu_status = ''active'',
     eu_expires = pg_time (eu_expires u), eu_machine = None, eu_machine_at = None,
     eu_reg_ip = nullable_ip (eu_reg_ip u), eu_last_login = None, eu_last_ip = None, eu_note = None,
     eu_created = t, eu_updated = t\<rparr>"

definition create_end_user :: "end_user \<Rightarrow> end_user srv" where
  "create_end_user u = db_new (\<lambda>t i d.
     if \<not> username_ok (eu_username u) then Inl ErrCheck
     else if exists_row (\<lambda>r. eu_id r = i \<or>
       eu_product r = eu_product u \<and> eu_username r = eu_username u) (d_users d) then Inl ErrUnique
     else if \<not> exists_row (\<lambda>r. pr_id r = eu_product u) (d_products d) then Inl ErrForeignKey
     else Inr (end_user_row u t i, d\<lparr>d_users := d_users d @ [end_user_row u t i]\<rparr>))"

definition get_end_user :: "string \<Rightarrow> end_user srv" where
  "get_end_user key = db_one (next_row d_users (\<lambda>r. eu_id r = key))"

definition get_end_user_by_name :: "string \<Rightarrow> string \<Rightarrow> end_user srv" where
  "get_end_user_by_name prod_id name =
     db_one (next_row d_users (\<lambda>r. eu_product r = prod_id \<and> eu_username r = name))"

definition upd_user :: "string \<Rightarrow> (end_user \<Rightarrow> end_user) \<Rightarrow> db \<Rightarrow> db" where
  "upd_user key f d = d\<lparr>d_users := upd (\<lambda>r. eu_id r = key) f (d_users d)\<rparr>"

definition extend_end_user :: "string \<Rightarrow> int \<Rightarrow> time srv" where
  "extend_end_user key days = db_exec (\<lambda>t d.
     if \<not> int4 days then Inl ErrCheck
     else case find (\<lambda>r. eu_id r = key) (d_users d) of
       None \<Rightarrow> Inl ErrNoRows
     | Some u \<Rightarrow> let e = extended_expiry t (Some (eu_expires u)) days in
         Inr (e, upd_user key (\<lambda>r. r\<lparr>eu_expires := e, eu_updated := t\<rparr>) d))"

definition bind_end_user_machine :: "string \<Rightarrow> string \<Rightarrow> unit srv" where
  "bind_end_user_machine key mh = db_exec (\<lambda>t d.
     let p = (\<lambda>r. eu_id r = key \<and> eu_machine r = None) in
     need_rows (affected p (d_users d)) (d\<lparr>d_users :=
       upd p (\<lambda>r. r\<lparr>eu_machine := Some mh, eu_machine_at := Some t\<rparr>) (d_users d)\<rparr>))"

definition reset_end_user_machine :: "string \<Rightarrow> unit srv" where
  "reset_end_user_machine key =
     db_write (\<lambda>t. upd_user key (\<lambda>r. r\<lparr>eu_machine := None, eu_machine_at := None\<rparr>))"

definition set_end_user_password :: "string \<Rightarrow> string \<Rightarrow> unit srv" where
  "set_end_user_password key h =
     db_write (\<lambda>t. upd_user key (\<lambda>r. r\<lparr>eu_password := h, eu_updated := t\<rparr>))"

definition set_end_user_status :: "string \<Rightarrow> string \<Rightarrow> unit srv" where
  "set_end_user_status key st = db_exec (\<lambda>t d.
     if exists_row (\<lambda>r. eu_id r = key) (d_users d) \<and> \<not> in_strs st [''active'', ''disabled'']
     then Inl ErrCheck
     else Inr ((), upd_user key (\<lambda>r. r\<lparr>eu_status := st, eu_updated := t\<rparr>) d))"

definition set_end_user_note :: "string \<Rightarrow> string \<Rightarrow> unit srv" where
  "set_end_user_note key note =
     db_write (\<lambda>t. upd_user key (\<lambda>r. r\<lparr>eu_note := Some note, eu_updated := t\<rparr>))"

definition mark_card_used_by_user :: "string \<Rightarrow> string \<Rightarrow> unit srv" where
  "mark_card_used_by_user cid user = db_exec (\<lambda>t d.
     let p = (\<lambda>r. cd_id r = cid \<and> cd_status r = CardUnused \<and> cd_license r = None \<and> cd_user r = None) in
     if affected p (d_cards d) = 0 then Inl ErrNoRows
     else if \<not> exists_row (\<lambda>r. eu_id r = user) (d_users d) then Inl ErrForeignKey
     else Inr ((), d\<lparr>d_cards := upd p (\<lambda>r. r\<lparr>cd_user := Some user, cd_status := CardDepleted,
       cd_activated := Some t\<rparr>) (d_cards d)\<rparr>))"

record end_user_filter =
  ef_product :: string
  ef_status :: string
  ef_search :: string

definition end_user_matches :: "end_user_filter \<Rightarrow> end_user \<Rightarrow> bool" where
  "end_user_matches f u \<longleftrightarrow> opt_eq (ef_product f) (eu_product u) \<and> opt_eq (ef_status f) (eu_status u) \<and>
     (ef_search f = [] \<or> like (ef_search f @ ''%'') (eu_username u))"

definition list_end_users :: "end_user_filter \<Rightarrow> int \<Rightarrow> int \<Rightarrow> (end_user list \<times> int) srv" where
  "list_end_users f lim off = list_page
     (\<lambda>t d. newest_first eu_created (filter (end_user_matches f) (d_users d))) (clamp_limit 500 50 lim) off"

subsection \<open>The users' log\<close>

definition user_log_kinds :: "string list" where
  "user_log_kinds = [''register'', ''login'', ''login_failed'', ''login_machine_rejected'',
     ''bind_card'', ''change_pw'', ''recover'', ''disabled'', ''machine_reset'']"

definition insert_end_user_log ::
  "string option \<Rightarrow> string \<Rightarrow> string \<Rightarrow> string option \<Rightarrow> string option \<Rightarrow> detail \<Rightarrow> unit srv" where
  "insert_end_user_log user name kind prod_id ip det = db_serial (\<lambda>t i d.
     if \<not> in_strs kind user_log_kinds then Inl ErrCheck
     else if (case user of None \<Rightarrow> False | Some u \<Rightarrow> \<not> exists_row (\<lambda>r. eu_id r = u) (d_users d))
     then Inl ErrForeignKey
     else Inr ((), d\<lparr>d_user_logs := d_user_logs d @ [\<lparr>ul_user = user, ul_username = name,
       ul_product = prod_id, ul_kind = kind, ul_ip = nullable_ip ip, ul_detail = det,
       ul_created = t\<rparr>]\<rparr>))"

definition list_end_user_logs :: "string \<Rightarrow> int \<Rightarrow> end_user_log list srv" where
  "list_end_user_logs user lim = db_read (\<lambda>t d. take (nat (clamp_limit 500 100 lim))
     (newest_first ul_created (filter (\<lambda>r. ul_user r = Some user) (d_user_logs d))))"

definition list_recent_user_logs :: "int \<Rightarrow> end_user_log list srv" where
  "list_recent_user_logs lim = db_read (\<lambda>t d. take (nat (clamp_limit 500 100 lim))
     (newest_first ul_created (d_user_logs d)))"

subsection \<open>Announcements and versions\<close>

definition create_soft_message :: "string \<Rightarrow> string \<Rightarrow> string \<Rightarrow> soft_message srv" where
  "create_soft_message prod_id content who = db_serial (\<lambda>t i d.
     if \<not> text_len 1 2000 content then Inl ErrCheck
     else if exists_row (\<lambda>r. sm_id r = i) (d_messages d) then Inl ErrUnique
     else if \<not> exists_row (\<lambda>r. pr_id r = prod_id) (d_products d) then Inl ErrForeignKey
     else let m = \<lparr>sm_id = i, sm_product = prod_id, sm_content = content, sm_enabled = True,
         sm_by = who, sm_created = t\<rparr>
       in Inr (m, d\<lparr>d_messages := d_messages d @ [m]\<rparr>))"

definition set_soft_message_enabled :: "int \<Rightarrow> bool \<Rightarrow> unit srv" where
  "set_soft_message_enabled key b = db_write (\<lambda>t d. d\<lparr>d_messages :=
     upd (\<lambda>r. sm_id r = key) (sm_enabled_update (\<lambda>_. b)) (d_messages d)\<rparr>)"

definition delete_soft_message :: "int \<Rightarrow> unit srv" where
  "delete_soft_message key =
     db_write (\<lambda>t d. d\<lparr>d_messages := filter (\<lambda>r. sm_id r \<noteq> key) (d_messages d)\<rparr>)"

definition list_soft_messages :: "string \<Rightarrow> soft_message list srv" where
  "list_soft_messages prod_id = db_read (\<lambda>t d. take 200
     (newest_first sm_created (filter (\<lambda>r. opt_eq prod_id (sm_product r)) (d_messages d))))"

text \<open>No enabled announcement is the empty text, not an error.\<close>

definition latest_enabled_message :: "string \<Rightarrow> string srv" where
  "latest_enabled_message prod_id = db_read (\<lambda>t d. case newest_first sm_created
     (filter (\<lambda>r. sm_product r = prod_id \<and> sm_enabled r) (d_messages d)) of
       [] \<Rightarrow> [] | m # _ \<Rightarrow> sm_content m)"

definition version_text_ok :: "string \<Rightarrow> bool" where
  "version_text_ok s \<longleftrightarrow> length (split_on (CHR ''.'') s) = 3 \<and>
     list_all (\<lambda>p. p \<noteq> [] \<and> list_all (\<lambda>c. c \<in> set digits) p) (split_on (CHR ''.'') s)"

definition create_product_version ::
  "string \<Rightarrow> string \<Rightarrow> string \<Rightarrow> string \<Rightarrow> bool \<Rightarrow> product_version srv" where
  "create_product_version prod_id ver url notes force = db_serial (\<lambda>t i d.
     if \<not> version_text_ok ver then Inl ErrCheck
     else if exists_row (\<lambda>r. pv_id r = i \<or> pv_product r = prod_id \<and> pv_version r = ver) (d_versions d)
     then Inl ErrUnique
     else if \<not> exists_row (\<lambda>r. pr_id r = prod_id) (d_products d) then Inl ErrForeignKey
     else let v = \<lparr>pv_id = i, pv_product = prod_id, pv_version = ver, pv_url = url, pv_notes = notes,
         pv_force = force, pv_created = t\<rparr>
       in Inr (v, d\<lparr>d_versions := d_versions d @ [v]\<rparr>))"

definition delete_product_version :: "int \<Rightarrow> unit srv" where
  "delete_product_version key =
     db_write (\<lambda>t d. d\<lparr>d_versions := filter (\<lambda>r. pv_id r \<noteq> key) (d_versions d)\<rparr>)"

definition list_product_versions :: "string \<Rightarrow> product_version list srv" where
  "list_product_versions prod_id = db_read (\<lambda>t d. take 200
     (newest_first pv_created (filter (\<lambda>r. opt_eq prod_id (pv_product r)) (d_versions d))))"

definition latest_product_version :: "string \<Rightarrow> product_version srv" where
  "latest_product_version prod_id = db_one (\<lambda>t d. case newest_first pv_created
     (filter (\<lambda>r. pv_product r = prod_id) (d_versions d)) of [] \<Rightarrow> None | v # _ \<Rightarrow> Some v)"

subsection \<open>Limits per interface, and logins\<close>

definition upsert_api_rate_limit :: "string \<Rightarrow> int \<Rightarrow> unit srv" where
  "upsert_api_rate_limit scope lim = db_exec (\<lambda>t d.
     if \<not> (1 \<le> lim \<and> lim \<le> 100000) then Inl ErrCheck
     else Inr ((), d\<lparr>d_limits := (if exists_row (\<lambda>r. al_scope r = scope) (d_limits d)
       then upd (\<lambda>r. al_scope r = scope) (\<lambda>r. r\<lparr>al_limit := lim, al_updated := t\<rparr>) (d_limits d)
       else d_limits d @ [\<lparr>al_scope = scope, al_limit = lim, al_updated = t\<rparr>])\<rparr>))"

definition list_api_rate_limits :: "api_limit list srv" where
  "list_api_rate_limits = db_read (\<lambda>t d. sort_key (\<lambda>r. map byte (al_scope r)) (d_limits d))"

definition all_api_rate_limits :: "(string \<Rightarrow> int option) srv" where
  "all_api_rate_limits = db_read (\<lambda>t d. map_of (map (\<lambda>r. (al_scope r, al_limit r)) (d_limits d)))"

definition touch_end_user_login :: "string \<Rightarrow> string \<Rightarrow> unit srv" where
  "touch_end_user_login key ip =
     db_write (\<lambda>t. upd_user key (\<lambda>r. r\<lparr>eu_last_login := Some t, eu_last_ip := str_opt ip\<rparr>))"

text \<open>Activations per day over the last seven days, days in UTC numbered from the epoch.\<close>

definition daily_activation_trend :: "(int \<times> int) list srv" where
  "daily_activation_trend = db_read (\<lambda>t d. map (\<lambda>k. (t div day - 6 + k,
     int (affected (\<lambda>r. t - 7 * day < ac_created r \<and> ac_created r div day = t div day - 6 + k)
       (d_activations d)))) [0..6])"

end
