(* ===== verification/StoreAdmin.thy ===== *)
theory StoreAdmin
  imports StoreUsers
begin

section \<open>Store: administrators, sessions, audit, risk, bans and counts\<close>

text \<open>
  \<open>internal/store/adminstore.go\<close> and the two account updates of \<open>catalog.go\<close>, one
  definition per method.
\<close>

subsection \<open>Administrators\<close>

definition admin_name_ok :: "string \<Rightarrow> bool" where
  "admin_name_ok s \<longleftrightarrow> chars_within (lowers @ uppers @ digits @ ''_.-'') 3 64 s"

definition admin_roles :: "string list" where
  "admin_roles = [''superadmin'', ''admin'', ''agent'', ''auditor'', ''viewer'']"

definition get_admin_by_username :: "string \<Rightarrow> admin srv" where
  "get_admin_by_username name = db_one (next_row d_admins (\<lambda>r. ad_username r = name))"

definition get_admin :: "string \<Rightarrow> admin srv" where
  "get_admin key = db_one (next_row d_admins (\<lambda>r. ad_id r = key))"

definition admin_row :: "admin \<Rightarrow> time \<Rightarrow> string \<Rightarrow> admin" where
  "admin_row a t i = \<lparr>ad_id = i, ad_username = ad_username a, ad_password = ad_password a,
     ad_display = ad_display a, ad_role = ad_role a, ad_agent = ad_agent a, ad_totp = ad_totp a,
     ad_mfa = ad_mfa a, ad_status = ''active'', ad_failed = 0, ad_locked = None,
     ad_must_change = ad_must_change a, ad_created = t, ad_last_login = None\<rparr>"

definition store_create_admin :: "admin \<Rightarrow> admin srv" where
  "store_create_admin a = db_new (\<lambda>t i d.
     if \<not> (admin_name_ok (ad_username a) \<and> in_strs (ad_role a) admin_roles) then Inl ErrCheck
     else if exists_row (\<lambda>r. ad_id r = i \<or> ad_username r = ad_username a) (d_admins d) then Inl ErrUnique
     else if \<not> agent_ref_ok d (ad_agent a) then Inl ErrForeignKey
     else Inr (admin_row a t i, d\<lparr>d_admins := d_admins d @ [admin_row a t i]\<rparr>))"

definition count_admins :: "int srv" where
  "count_admins = db_read (\<lambda>t d. int (length (d_admins d)))"

definition list_admins :: "admin list srv" where
  "list_admins = db_read (\<lambda>t d. sort_key ad_created (d_admins d))"

definition upd_admin :: "string \<Rightarrow> (admin \<Rightarrow> admin) \<Rightarrow> db \<Rightarrow> db" where
  "upd_admin key f d = d\<lparr>d_admins := upd (\<lambda>r. ad_id r = key) f (d_admins d)\<rparr>"

definition on_login_success :: "string \<Rightarrow> unit srv" where
  "on_login_success key = db_write (\<lambda>t. upd_admin key
     (\<lambda>r. r\<lparr>ad_failed := 0, ad_locked := None, ad_last_login := Some t\<rparr>))"

definition failed_row :: "time \<Rightarrow> admin \<Rightarrow> admin" where
  "failed_row t r = r\<lparr>ad_failed := ad_failed r + 1,
     ad_locked := (if ad_failed r + 1 \<ge> 5 then Some (t + 900 * second) else None)\<rparr>"

definition on_login_failed :: "string \<Rightarrow> bool srv" where
  "on_login_failed key = db_exec (\<lambda>t d. case find (\<lambda>r. ad_id r = key) (d_admins d) of
     None \<Rightarrow> Inl ErrNoRows
   | Some a \<Rightarrow> Inr (ad_locked (failed_row t a) \<noteq> None, upd_admin key (failed_row t) d))"

definition set_admin_mfa :: "string \<Rightarrow> string option \<Rightarrow> bool \<Rightarrow> unit srv" where
  "set_admin_mfa key secret b =
     db_write (\<lambda>t. upd_admin key (\<lambda>r. r\<lparr>ad_totp := secret, ad_mfa := b\<rparr>))"

definition set_admin_password :: "string \<Rightarrow> string \<Rightarrow> bool \<Rightarrow> unit srv" where
  "set_admin_password key h must = db_write (\<lambda>t. upd_admin key (\<lambda>r. r\<lparr>ad_password := h,
     ad_must_change := must, ad_failed := 0, ad_locked := None\<rparr>))"

definition set_admin_status :: "string \<Rightarrow> string \<Rightarrow> unit srv" where
  "set_admin_status key st = db_exec (\<lambda>t d.
     if exists_row (\<lambda>r. ad_id r = key) (d_admins d) \<and> \<not> in_strs st [''active'', ''disabled'']
     then Inl ErrCheck
     else Inr ((), upd_admin key (ad_status_update (\<lambda>_. st)) d))"

definition update_admin_username :: "string \<Rightarrow> string \<Rightarrow> unit srv" where
  "update_admin_username key name = db_exec (\<lambda>t d.
     if affected (\<lambda>r. ad_id r = key) (d_admins d) = 0 then Inl ErrNoRows
     else if \<not> admin_name_ok name then Inl ErrCheck
     else if exists_row (\<lambda>r. ad_id r \<noteq> key \<and> ad_username r = name) (d_admins d) then Inl ErrUnique
     else Inr ((), upd_admin key (ad_username_update (\<lambda>_. name)) d))"

definition reset_admin_password :: "string \<Rightarrow> string \<Rightarrow> unit srv" where
  "reset_admin_password key h = db_exec (\<lambda>t d.
     need_rows (affected (\<lambda>r. ad_id r = key) (d_admins d)) (upd_admin key (\<lambda>r. r\<lparr>ad_password := h,
       ad_must_change := True, ad_failed := 0, ad_locked := None\<rparr>) d))"

definition get_agent_admin :: "string \<Rightarrow> admin srv" where
  "get_agent_admin agent = db_one (\<lambda>t d. find (\<lambda>r. ad_role r = ''agent'' \<and> ad_agent r = Some agent \<and>
     ad_status r = ''active'') (sort_key ad_created (d_admins d)))"

subsection \<open>Sessions\<close>

definition create_session :: "admin_session \<Rightarrow> unit srv" where
  "create_session s = db_exec (\<lambda>t d.
     if exists_row (\<lambda>r. se_id r = se_id s \<or> se_token r = se_token s) (d_sessions d) then Inl ErrUnique
     else if \<not> exists_row (\<lambda>r. ad_id r = se_admin s) (d_admins d) then Inl ErrForeignKey
     else Inr ((), d\<lparr>d_sessions := d_sessions d @
       [s\<lparr>se_expires := pg_time (se_expires s), se_revoked := None\<rparr>]\<rparr>))"

definition session_live :: "time \<Rightarrow> string \<Rightarrow> admin_session \<Rightarrow> bool" where
  "session_live t tok s \<longleftrightarrow> se_token s = tok \<and> se_revoked s = None \<and> t < se_expires s"

definition get_session_by_token_hash :: "string \<Rightarrow> admin_session srv" where
  "get_session_by_token_hash tok = db_one (\<lambda>t d. find (session_live t tok) (d_sessions d))"

definition revoke_session :: "string \<Rightarrow> unit srv" where
  "revoke_session key = db_write (\<lambda>t d. d\<lparr>d_sessions :=
     upd (\<lambda>r. se_id r = key) (se_revoked_update (\<lambda>_. Some t)) (d_sessions d)\<rparr>)"

definition revoke_all_sessions :: "string \<Rightarrow> unit srv" where
  "revoke_all_sessions who = db_write (\<lambda>t d. d\<lparr>d_sessions :=
     upd (\<lambda>r. se_admin r = who \<and> se_revoked r = None) (se_revoked_update (\<lambda>_. Some t)) (d_sessions d)\<rparr>)"

definition reap_sessions :: "int srv" where
  "reap_sessions = db_exec (\<lambda>t d. let p = (\<lambda>r. se_expires r < t - 7 * day) in
     Inr (int (affected p (d_sessions d)), d\<lparr>d_sessions := filter (\<lambda>r. \<not> p r) (d_sessions d)\<rparr>))"

subsection \<open>Audit and risk\<close>

text \<open>The column \<open>detail\<close> is NOT NULL; a nil detail is passed as NULL, not as the default.\<close>

definition insert_audit :: "audit_log \<Rightarrow> unit srv" where
  "insert_audit a = db_serial (\<lambda>t i d.
     if au_detail a = None then Inl ErrCheck
     else Inr ((), d\<lparr>d_audits := d_audits d @ [a\<lparr>au_ip := nullable_ip (au_ip a), au_ts := t\<rparr>]\<rparr>))"

record audit_filter =
  af_admin :: string
  af_action :: string
  af_target :: string
  af_since :: "time option"
  af_until :: "time option"

definition audit_matches :: "audit_filter \<Rightarrow> audit_log \<Rightarrow> bool" where
  "audit_matches f a \<longleftrightarrow> (af_admin f = [] \<or> au_admin a = Some (af_admin f)) \<and>
     opt_eq (af_action f) (au_action a) \<and> (af_target f = [] \<or> au_target a = Some (af_target f)) \<and>
     (case af_since f of None \<Rightarrow> True | Some s \<Rightarrow> pg_time s \<le> au_ts a) \<and>
     (case af_until f of None \<Rightarrow> True | Some u \<Rightarrow> au_ts a \<le> pg_time u)"

definition list_audit :: "audit_filter \<Rightarrow> int \<Rightarrow> int \<Rightarrow> (audit_log list \<times> int) srv" where
  "list_audit f lim off = list_page
     (\<lambda>t d. newest_first au_ts (filter (audit_matches f) (d_audits d))) (clamp_limit 1000 100 lim) off"

definition insert_risk_event :: "string \<Rightarrow> string \<Rightarrow> string \<Rightarrow> string \<Rightarrow> detail \<Rightarrow> unit srv" where
  "insert_risk_event kind sev subject action det = db_serial (\<lambda>t i d.
     if \<not> (in_strs sev [''low'', ''medium'', ''high'', ''critical''] \<and>
       in_strs action [''logged'', ''throttled'', ''blocked'', ''banned'']) then Inl ErrCheck
     else Inr ((), d\<lparr>d_risks := d_risks d @ [\<lparr>rk_kind = kind, rk_severity = sev, rk_subject = subject,
       rk_action = action, rk_detail = det, rk_ts = t\<rparr>]\<rparr>))"

definition list_risk_events :: "string \<Rightarrow> int \<Rightarrow> risk_event list srv" where
  "list_risk_events kind lim = db_read (\<lambda>t d. take (nat (clamp_limit 500 100 lim))
     (newest_first rk_ts (filter (\<lambda>r. opt_eq kind (rk_kind r)) (d_risks d))))"

subsection \<open>Bans\<close>

definition ban_kinds :: "string list" where
  "ban_kinds = [''ip'', ''device'', ''card_prefix'', ''client_version'', ''asn'']"

definition store_create_ban ::
  "string \<Rightarrow> string \<Rightarrow> string \<Rightarrow> string \<Rightarrow> time option \<Rightarrow> ban srv" where
  "store_create_ban kind val reason who til = db_new (\<lambda>t i d.
     if \<not> in_strs kind ban_kinds then Inl ErrCheck
     else case find (\<lambda>r. bn_kind r = kind \<and> bn_value r = val) (d_bans d) of
       Some b \<Rightarrow> let f = (\<lambda>r. r\<lparr>bn_reason := reason, bn_until := map_option pg_time til\<rparr>) in
         Inr (f b, d\<lparr>d_bans := upd (\<lambda>r. bn_kind r = kind \<and> bn_value r = val) f (d_bans d)\<rparr>)
     | None \<Rightarrow> if exists_row (\<lambda>r. bn_id r = i) (d_bans d) then Inl ErrUnique
         else let b = \<lparr>bn_id = i, bn_kind = kind, bn_value = val, bn_reason = reason,
             bn_until = map_option pg_time til, bn_by = str_opt who, bn_created = t\<rparr>
           in Inr (b, d\<lparr>d_bans := d_bans d @ [b]\<rparr>))"

definition store_delete_ban :: "string \<Rightarrow> string \<Rightarrow> unit srv" where
  "store_delete_ban kind val = db_write (\<lambda>t d. d\<lparr>d_bans :=
     filter (\<lambda>r. \<not> (bn_kind r = kind \<and> bn_value r = val)) (d_bans d)\<rparr>)"

definition list_bans :: "ban list srv" where
  "list_bans = db_read (\<lambda>t d. newest_first bn_created (d_bans d))"

definition ban_live :: "time \<Rightarrow> string \<Rightarrow> string \<Rightarrow> ban \<Rightarrow> bool" where
  "ban_live t kind val r \<longleftrightarrow> bn_kind r = kind \<and> bn_value r = val \<and>
     (case bn_until r of None \<Rightarrow> True | Some u \<Rightarrow> t < u)"

definition is_banned :: "string \<Rightarrow> string \<Rightarrow> bool srv" where
  "is_banned kind val = db_read (\<lambda>t d. 0 < affected (ban_live t kind val) (d_bans d))"

subsection \<open>Counts and lists for the dashboard\<close>

definition count_cards_by_status :: "(card_status \<times> int) list srv" where
  "count_cards_by_status = db_read (\<lambda>t d. map (\<lambda>s. (s, int (affected (\<lambda>r. cd_status r = s) (d_cards d))))
     (filter (\<lambda>s. exists_row (\<lambda>r. cd_status r = s) (d_cards d))
       [CardUnused, CardActive, CardFrozen, CardRevoked, CardVoided, CardDepleted]))"

definition count_licenses_by_status :: "string \<Rightarrow> int srv" where
  "count_licenses_by_status st = db_read (\<lambda>t d.
     int (affected (\<lambda>r. license_status_str (li_status r) = st) (d_licenses d)))"

definition count_recent_heartbeats :: "int \<Rightarrow> int srv" where
  "count_recent_heartbeats within = db_read (\<lambda>t d. int (affected (\<lambda>r. dv_status r = DeviceActive \<and>
     (case dv_heartbeat r of None \<Rightarrow> False | Some h \<Rightarrow> t - within div second * second < h)) (d_devices d)))"

definition count_misc :: "(int \<times> int \<times> int \<times> int \<times> int) srv" where
  "count_misc = db_read (\<lambda>t d. (int (length (d_products d)), int (length (d_plans d)),
     int (length (d_agents d)), int (affected (\<lambda>r. t - 7 * day < ac_created r) (d_activations d)),
     int (affected (\<lambda>r. t - day < rk_ts r) (d_risks d))))"

definition list_batches :: "string \<Rightarrow> int \<Rightarrow> int \<Rightarrow> (card_batch list \<times> int) srv" where
  "list_batches agent lim off = list_page (\<lambda>t d. newest_first cb_created
     (filter (\<lambda>b. agent = [] \<or> cb_agent b = Some agent) (d_batches d))) (clamp_limit 500 50 lim) off"

subsection \<open>The key exchange keys\<close>

definition upsert_kex_key :: "string \<Rightarrow> string \<Rightarrow> string \<Rightarrow> bool \<Rightarrow> unit srv" where
  "upsert_kex_key kid pub alg active = db_write (\<lambda>t d. d\<lparr>d_kex :=
     (if exists_row (\<lambda>r. kx_kid r = kid) (d_kex d)
      then upd (\<lambda>r. kx_kid r = kid) (\<lambda>r. r\<lparr>kx_pub := pub, kx_active := active\<rparr>) (d_kex d)
      else d_kex d @ [\<lparr>kx_kid = kid, kx_pub = pub, kx_alg = alg, kx_active = active, kx_created = t\<rparr>])\<rparr>)"

definition active_kex_keys :: "kex_row list srv" where
  "active_kex_keys = db_read (\<lambda>t d. sort_key (\<lambda>r. (if kx_active r then 0 else 1 :: int)) (sort_key kx_created (d_kex d)))"

end
