(* ===== verification/Json.thy ===== *)
theory Json
  imports GoConv
begin

section \<open>Json: what the program uses of encoding/json\<close>

text \<open>
  \<open>json.Unmarshal\<close> checks the whole text first and then fills a struct field by field; a
  value of the wrong type, or an unknown field when those are refused, is an error but the
  other fields are still filled. \<open>json.Decoder.Decode\<close> reads the first value only and leaves
  what follows it unread. A field matches a key exactly or up to letter case; the last of
  several equal keys wins; \<open>null\<close> leaves a string or number as it is. Strings are byte
  lists; ill-formed UTF-8 becomes U+FFFD.
\<close>

datatype json = JsNull | JsBool bool | JsNum string | JsStr string | JsArr "json list"
  | JsObj "(string \<times> json) list"

subsection \<open>Reading\<close>

definition js_ws :: "char \<Rightarrow> bool" where
  "js_ws c \<longleftrightarrow> byte c = 32 \<or> byte c = 9 \<or> byte c = 10 \<or> byte c = 13"

definition skip_ws :: "string \<Rightarrow> string" where
  "skip_ws s = dropWhile js_ws s"

definition hex_val :: "char \<Rightarrow> nat option" where
  "hex_val c = (let b = byte c in
     if 48 \<le> b \<and> b \<le> 57 then Some (b - 48) else if 97 \<le> b \<and> b \<le> 102 then Some (b - 87)
     else if 65 \<le> b \<and> b \<le> 70 then Some (b - 55) else None)"

fun hex4 :: "string \<Rightarrow> (nat \<times> string) option" where
  "hex4 (a # b # c # d # s) = (case (hex_val a, hex_val b, hex_val c, hex_val d) of
     (Some p, Some q, Some u, Some v) \<Rightarrow> Some (((p * 16 + q) * 16 + u) * 16 + v, s)
   | _ \<Rightarrow> None)"
| "hex4 _ = None"

text \<open>A \<open>\u\<close> escape: a surrogate pair is one code point, a lone surrogate is U+FFFD.\<close>

definition unicode_escape :: "string \<Rightarrow> (nat \<times> string) option" where
  "unicode_escape s = (case hex4 s of None \<Rightarrow> None | Some (u, r) \<Rightarrow>
     if 55296 \<le> u \<and> u < 57344 then
       (case r of a # b # r' \<Rightarrow>
          (if byte a = 92 \<and> byte b = 117 then
             (case hex4 r' of Some (v, r'') \<Rightarrow>
                (if u < 56320 \<and> 56320 \<le> v \<and> v < 57344
                 then Some (65536 + (u - 55296) * 1024 + (v - 56320), r'') else Some (rune_error, r))
              | None \<Rightarrow> Some (rune_error, r))
           else Some (rune_error, r))
        | _ \<Rightarrow> Some (rune_error, r))
     else Some (u, r))"

definition simple_escape :: "nat \<Rightarrow> nat option" where
  "simple_escape b = (if b = 34 \<or> b = 92 \<or> b = 47 then Some b else if b = 98 then Some 8
     else if b = 102 then Some 12 else if b = 110 then Some 10 else if b = 114 then Some 13
     else if b = 116 then Some 9 else None)"

text \<open>The rest of a string after its opening quote; the fuel is the length of the text.\<close>

fun str_body :: "nat \<Rightarrow> string \<Rightarrow> (string \<times> string) option" where
  "str_body 0 s = None"
| "str_body (Suc n) [] = None"
| "str_body (Suc n) (c # s) =
    (if byte c = 34 then Some ([], s)
     else if byte c < 32 then None
     else if byte c = 92 then
       (case s of [] \<Rightarrow> None
        | e # s' \<Rightarrow>
          (if byte e = 117 then
             (case unicode_escape s' of None \<Rightarrow> None | Some (r, s'') \<Rightarrow>
               (case str_body n s'' of None \<Rightarrow> None | Some (t, z) \<Rightarrow> Some (encode_rune r @ t, z)))
           else (case simple_escape (byte e) of None \<Rightarrow> None | Some b \<Rightarrow>
               (case str_body n s' of None \<Rightarrow> None | Some (t, z) \<Rightarrow> Some (mk_byte b # t, z)))))
     else (case decode_rune (c # s) of (r, w) \<Rightarrow>
       (case str_body n (drop w (c # s)) of None \<Rightarrow> None | Some (t, z) \<Rightarrow> Some (encode_rune r @ t, z))))"

definition num_char :: "char \<Rightarrow> bool" where
  "num_char c \<longleftrightarrow> is_digit c \<or> c \<in> set ''+-.eE''"

definition digits1 :: "string \<Rightarrow> bool" where
  "digits1 s \<longleftrightarrow> s \<noteq> [] \<and> list_all is_digit s"

definition exp_ok :: "string \<Rightarrow> bool" where
  "exp_ok s \<longleftrightarrow> (case s of [] \<Rightarrow> False | c # t \<Rightarrow> if c \<in> set ''+-'' then digits1 t else digits1 s)"

definition valid_number :: "string \<Rightarrow> bool" where
  "valid_number s = (let t = (case s of [] \<Rightarrow> [] | c # u \<Rightarrow> if c = CHR ''-'' then u else s);
     ip = takeWhile is_digit t; r = dropWhile is_digit t;
     ok_int = (ip \<noteq> [] \<and> (length ip = 1 \<or> hd ip \<noteq> CHR ''0'')) in
     ok_int \<and> (case r of [] \<Rightarrow> True
       | c # u \<Rightarrow> if c = CHR ''.'' then
           (let fp = takeWhile is_digit u; v = dropWhile is_digit u in
            fp \<noteq> [] \<and> (case v of [] \<Rightarrow> True | d # w \<Rightarrow> d \<in> set ''eE'' \<and> exp_ok w))
         else c \<in> set ''eE'' \<and> exp_ok u))"

definition lit :: "string \<Rightarrow> json \<Rightarrow> string \<Rightarrow> (json \<times> string) option" where
  "lit w v s = (if take (length w) s = w then Some (v, drop (length w) s) else None)"

text \<open>
  Values, list items and members; the fuel is used up one unit per value, item or member, so
  twice the length of the text is always enough.
\<close>

fun p_val :: "nat \<Rightarrow> string \<Rightarrow> (json \<times> string) option"
  and p_items :: "nat \<Rightarrow> string \<Rightarrow> (json list \<times> string) option"
  and p_members :: "nat \<Rightarrow> string \<Rightarrow> ((string \<times> json) list \<times> string) option" where
  "p_val 0 s = None"
| "p_val (Suc n) s = (case skip_ws s of [] \<Rightarrow> None
   | c # t \<Rightarrow>
     if c = CHR ''{'' then (case skip_ws t of d # u \<Rightarrow>
         if d = CHR ''}'' then Some (JsObj [], u)
         else (case p_members n (d # u) of None \<Rightarrow> None | Some (ms, z) \<Rightarrow> Some (JsObj ms, z))
       | [] \<Rightarrow> None)
     else if c = CHR ''['' then (case skip_ws t of d # u \<Rightarrow>
         if d = CHR '']'' then Some (JsArr [], u)
         else (case p_items n (d # u) of None \<Rightarrow> None | Some (vs, z) \<Rightarrow> Some (JsArr vs, z))
       | [] \<Rightarrow> None)
     else if byte c = 34 then map_option (\<lambda>(x, z). (JsStr x, z)) (str_body (length t) t)
     else if c = CHR ''n'' then lit ''null'' JsNull (c # t)
     else if c = CHR ''t'' then lit ''true'' (JsBool True) (c # t)
     else if c = CHR ''f'' then lit ''false'' (JsBool False) (c # t)
     else if valid_number (takeWhile num_char (c # t))
       then Some (JsNum (takeWhile num_char (c # t)), dropWhile num_char (c # t)) else None)"
| "p_items 0 s = None"
| "p_items (Suc n) s = (case p_val n s of None \<Rightarrow> None | Some (v, r) \<Rightarrow>
     (case skip_ws r of [] \<Rightarrow> None
      | c # t \<Rightarrow> if c = CHR '']'' then Some ([v], t)
          else if c = CHR '','' then
            (case p_items n t of None \<Rightarrow> None | Some (vs, z) \<Rightarrow> Some (v # vs, z))
          else None))"
| "p_members 0 s = None"
| "p_members (Suc n) s = (case skip_ws s of [] \<Rightarrow> None
   | q # t \<Rightarrow> if byte q \<noteq> 34 then None else
     (case str_body (length t) t of None \<Rightarrow> None | Some (k, r) \<Rightarrow>
       (case skip_ws r of [] \<Rightarrow> None
        | c # u \<Rightarrow> if c \<noteq> CHR '':'' then None else
          (case p_val n u of None \<Rightarrow> None | Some (v, w) \<Rightarrow>
            (case skip_ws w of [] \<Rightarrow> None
             | e # x \<Rightarrow> if e = CHR ''}'' then Some ([(k, v)], x)
                 else if e = CHR '','' then
                   (case p_members n x of None \<Rightarrow> None | Some (ms, z) \<Rightarrow> Some ((k, v) # ms, z))
                 else None)))))"

definition parse_first :: "string \<Rightarrow> json option" where
  "parse_first s = map_option fst (p_val (2 * length s + 1) s)"

definition parse_all :: "string \<Rightarrow> json option" where
  "parse_all s = (case p_val (2 * length s + 1) s of
     Some (v, r) \<Rightarrow> if skip_ws r = [] then Some v else None
   | None \<Rightarrow> None)"

subsection \<open>Filling a struct\<close>

text \<open>A field: its name, and how a value changes the struct (with whether it fitted).\<close>

type_synonym 'r js_field = "string \<times> (json \<Rightarrow> 'r \<Rightarrow> bool \<times> 'r)"

definition fold_name :: "string \<Rightarrow> rune list" where
  "fold_name s = map (\<lambda>r. if 65 \<le> r \<and> r \<le> 90 then r + 32 else if r = 8490 then 107
     else if r = 383 then 115 else r) (runes s)"

definition find_field :: "'r js_field list \<Rightarrow> string \<Rightarrow> 'r js_field option" where
  "find_field fs k = (case find (\<lambda>f. fst f = k) fs of Some f \<Rightarrow> Some f
     | None \<Rightarrow> find (\<lambda>f. fold_name (fst f) = fold_name k) fs)"

fun fill :: "bool \<Rightarrow> 'r js_field list \<Rightarrow> (string \<times> json) list \<Rightarrow> bool \<times> 'r \<Rightarrow> bool \<times> 'r" where
  "fill strict fs [] st = st"
| "fill strict fs ((k, v) # ms) (ok, r) = (case find_field fs k of
     None \<Rightarrow> fill strict fs ms (ok \<and> \<not> strict, r)
   | Some (n, f) \<Rightarrow> (case f v r of (b, r') \<Rightarrow> fill strict fs ms (ok \<and> b, r')))"

definition to_struct :: "bool \<Rightarrow> 'r js_field list \<Rightarrow> json \<Rightarrow> 'r \<Rightarrow> bool \<times> 'r" where
  "to_struct strict fs v r = (case v of JsObj ms \<Rightarrow> fill strict fs ms (True, r)
     | JsNull \<Rightarrow> (True, r) | _ \<Rightarrow> (False, r))"

text \<open>\<open>json.Unmarshal(data, &r)\<close>: whether it succeeded, and the struct it left.\<close>

definition unmarshal :: "'r js_field list \<Rightarrow> string \<Rightarrow> 'r \<Rightarrow> bool \<times> 'r" where
  "unmarshal fs s r = (case parse_all s of None \<Rightarrow> (False, r) | Some v \<Rightarrow> to_struct False fs v r)"

text \<open>\<open>unmarshalStrict\<close>: the first value, unknown fields refused.\<close>

definition unmarshal_strict :: "'r js_field list \<Rightarrow> string \<Rightarrow> 'r \<Rightarrow> bool \<times> 'r" where
  "unmarshal_strict fs s r = (case parse_first s of None \<Rightarrow> (False, r) | Some v \<Rightarrow> to_struct True fs v r)"

definition js_string :: "string \<Rightarrow> (string \<Rightarrow> 'r \<Rightarrow> 'r) \<Rightarrow> 'r js_field" where
  "js_string name set_it = (name, \<lambda>v r. case v of JsStr s \<Rightarrow> (True, set_it s r)
     | JsNull \<Rightarrow> (True, r) | _ \<Rightarrow> (False, r))"

definition js_int :: "string \<Rightarrow> (int \<Rightarrow> 'r \<Rightarrow> 'r) \<Rightarrow> 'r js_field" where
  "js_int name set_it = (name, \<lambda>v r. case v of
       JsNum l \<Rightarrow> (case parse_int l of Inr n \<Rightarrow> (True, set_it n r) | Inl _ \<Rightarrow> (False, r))
     | JsNull \<Rightarrow> (True, r) | _ \<Rightarrow> (False, r))"

definition js_elem :: "json \<Rightarrow> bool \<times> string" where
  "js_elem v = (case v of JsStr s \<Rightarrow> (True, s) | JsNull \<Rightarrow> (True, []) | _ \<Rightarrow> (False, []))"

definition js_strings :: "string \<Rightarrow> (string list \<Rightarrow> 'r \<Rightarrow> 'r) \<Rightarrow> 'r js_field" where
  "js_strings name set_it = (name, \<lambda>v r. case v of
       JsArr vs \<Rightarrow> (list_all (\<lambda>x. fst (js_elem x)) vs, set_it (map (\<lambda>x. snd (js_elem x)) vs) r)
     | JsNull \<Rightarrow> (True, set_it [] r) | _ \<Rightarrow> (False, r))"

definition js_map :: "string \<Rightarrow> ((string \<times> string) list \<Rightarrow> 'r \<Rightarrow> 'r) \<Rightarrow> 'r js_field" where
  "js_map name set_it = (name, \<lambda>v r. case v of
       JsObj ms \<Rightarrow> (list_all (\<lambda>(k, x). fst (js_elem x)) ms,
         set_it (map (\<lambda>(k, x). (k, snd (js_elem x))) ms) r)
     | JsNull \<Rightarrow> (True, set_it [] r) | _ \<Rightarrow> (False, r))"

subsection \<open>Writing\<close>

definition u_escape :: "nat \<Rightarrow> string" where
  "u_escape r = [mk_byte 92, mk_byte 117, hex_digit (r div 4096 mod 16), hex_digit (r div 256 mod 16),
     hex_digit (r div 16 mod 16), hex_digit (r mod 16)]"

definition js_rune :: "rune \<times> string \<Rightarrow> string" where
  "js_rune p = (case p of (r, bs) \<Rightarrow>
     if r = 34 \<or> r = 92 then mk_byte 92 # bs
     else if r = 8 then [mk_byte 92, CHR ''b''] else if r = 12 then [mk_byte 92, CHR ''f'']
     else if r = 10 then [mk_byte 92, CHR ''n''] else if r = 13 then [mk_byte 92, CHR ''r'']
     else if r = 9 then [mk_byte 92, CHR ''t'']
     else if r < 32 \<or> r = 60 \<or> r = 62 \<or> r = 38 \<or> r = 8232 \<or> r = 8233 then u_escape r
     else if r = rune_error \<and> length bs = 1 then u_escape r
     else bs)"

definition show_string :: "string \<Rightarrow> string" where
  "show_string s = mk_byte 34 # concat (map js_rune (segs s)) @ [mk_byte 34]"

definition join :: "string \<Rightarrow> string list \<Rightarrow> string" where
  "join sep xs = (case xs of [] \<Rightarrow> [] | x # ys \<Rightarrow> x @ concat (map (\<lambda>y. sep @ y) ys))"

definition show_strings :: "string list \<Rightarrow> string" where
  "show_strings xs = ''['' @ join '','' (map show_string xs) @ '']''"

definition show_member :: "string \<Rightarrow> string \<Rightarrow> string" where
  "show_member k v = show_string k @ '':'' @ v"

definition show_object :: "string list \<Rightarrow> string" where
  "show_object ms = ''{'' @ join '','' ms @ ''}''"

text \<open>The members of a struct: \<open>omitempty\<close> fields with a zero value are left out.\<close>

definition mem_str :: "string \<Rightarrow> string \<Rightarrow> string list" where
  "mem_str k s = [show_member k (show_string s)]"

definition mem_str_omit :: "string \<Rightarrow> string \<Rightarrow> string list" where
  "mem_str_omit k s = (if s = [] then [] else mem_str k s)"

definition mem_int :: "string \<Rightarrow> int \<Rightarrow> string list" where
  "mem_int k n = [show_member k (show_int n)]"

definition mem_int_omit :: "string \<Rightarrow> int \<Rightarrow> string list" where
  "mem_int_omit k n = (if n = 0 then [] else mem_int k n)"

definition mem_strs_omit :: "string \<Rightarrow> string list \<Rightarrow> string list" where
  "mem_strs_omit k xs = (if xs = [] then [] else [show_member k (show_strings xs)])"

end
