(* ===== verification/SigToken.thy ===== *)
theory SigToken
  imports Domain Json "HOL-Library.List_Lexorder"
begin

section \<open>SigToken: the signer and the signed tokens\<close>

text \<open>
  \<open>internal/crypto/keys.go\<close> and \<open>sigtoken.go\<close>. The cryptographic primitives of the Go library
  are the fields of a \<open>prims\<close> record, an argument of every definition that uses one; nothing
  is assumed of them except where a theorem names it (\<open>ed_ok\<close>: a signature made with a seed
  verifies under the seed's public key and has 64 bytes). A \<open>signer\<close> is the \<open>Signer\<close>
  interface, \<open>local_signer\<close> its implementation.
\<close>

record prims =
  p_sha256 :: "string \<Rightarrow> string"
  p_hmac256 :: "string \<Rightarrow> string \<Rightarrow> string"
  p_hmac1 :: "string \<Rightarrow> string \<Rightarrow> string"
  p_hkdf :: "string \<Rightarrow> string \<Rightarrow> string \<Rightarrow> string"
  p_ed_pub :: "string \<Rightarrow> string"
  p_ed_sign :: "string \<Rightarrow> string \<Rightarrow> string"
  p_ed_verify :: "string \<Rightarrow> string \<Rightarrow> string \<Rightarrow> bool"
  p_p256_point :: "string \<Rightarrow> bool"
  p_p256_raw :: "string \<Rightarrow> string \<Rightarrow> string \<Rightarrow> bool"
  p_p256_der :: "string \<Rightarrow> string \<Rightarrow> string \<Rightarrow> bool"
  p_x_pub :: "string \<Rightarrow> string"
  p_ecdh :: "string \<Rightarrow> string \<Rightarrow> string option"
  p_seal :: "string \<Rightarrow> string \<Rightarrow> string \<Rightarrow> string \<Rightarrow> string \<Rightarrow> string"
  p_open :: "string \<Rightarrow> string \<Rightarrow> string \<Rightarrow> string \<Rightarrow> string \<Rightarrow> string option"
  p_argon2 :: "string \<Rightarrow> string \<Rightarrow> nat \<Rightarrow> nat \<Rightarrow> nat \<Rightarrow> nat \<Rightarrow> string option"

definition ed_ok :: "prims \<Rightarrow> bool" where
  "ed_ok P \<longleftrightarrow> (\<forall>seed m. p_ed_verify P (p_ed_pub P seed) m (p_ed_sign P seed m) \<and>
     length (p_ed_sign P seed m) = 64)"

text \<open>A trivial instance, for concrete runs: hashes and ciphers that only concatenate.\<close>

definition plain_prims :: prims where
  "plain_prims = \<lparr>p_sha256 = (\<lambda>m. m), p_hmac256 = (\<lambda>k m. k @ m), p_hmac1 = (\<lambda>k m. replicate 20 (mk_byte 0)),
     p_hkdf = (\<lambda>k s i. k @ s @ i), p_ed_pub = (\<lambda>s. s), p_ed_sign = (\<lambda>s m. replicate 64 (mk_byte 0)),
     p_ed_verify = (\<lambda>k m s. s = replicate 64 (mk_byte 0)), p_p256_point = (\<lambda>_. True),
     p_p256_raw = (\<lambda>k d s. True), p_p256_der = (\<lambda>k d s. True), p_x_pub = (\<lambda>s. s),
     p_ecdh = (\<lambda>s p. Some (replicate 32 (mk_byte 0))), p_seal = (\<lambda>a k n p d. p),
     p_open = (\<lambda>a k n c d. Some c), p_argon2 = (\<lambda>p s t m l n. if t = 0 \<or> l = 0 then None else Some (p @ s))\<rparr>"

lemma plain_prims_ed_ok: "ed_ok plain_prims"
  by (simp add: ed_ok_def plain_prims_def)

subsection \<open>Keys\<close>

record signer =
  sg_sign :: "string \<Rightarrow> error + string \<times> string"
  sg_public :: "string \<Rightarrow> string option"
  sg_active :: string
  sg_kids :: "string list"

definition kid_char :: "rune \<Rightarrow> bool" where
  "kid_char c \<longleftrightarrow> 97 \<le> c \<and> c \<le> 122 \<or> 48 \<le> c \<and> c \<le> 57 \<or> c = 45"

definition validate_kid :: "string \<Rightarrow> error + unit" where
  "validate_kid kid =
    (if kid = [] \<or> length kid > 32 then Inl (Text ''crypto: invalid kid'')
     else if list_all kid_char (runes kid) then Inr () else Inl (Text ''crypto: kid must be [a-z0-9-]''))"

text \<open>The loop over the keys; the state is the list of \<open>(kid, seed)\<close> decoded so far.\<close>

fun load_keys :: "(string \<times> string) list \<Rightarrow> error + (string \<times> string) list" where
  "load_keys [] = Inr []"
| "load_keys ((kid, seed64) # ks) =
    (case validate_kid kid of Inl e \<Rightarrow> Inl e | Inr _ \<Rightarrow>
      (case b64_decode seed64 of None \<Rightarrow> Inl (Text ''crypto: seed decode'')
       | Some seed \<Rightarrow> if length seed \<noteq> 32 then Inl (Text ''crypto: seed length'')
           else (case load_keys ks of Inl e \<Rightarrow> Inl e | Inr r \<Rightarrow> Inr ((kid, seed) # r))))"

definition local_sign :: "prims \<Rightarrow> (string \<times> string) list \<Rightarrow> string \<Rightarrow> string \<Rightarrow> error + string \<times> string" where
  "local_sign P keys active msg = (case map_of keys active of
     None \<Rightarrow> Inl (Text ''crypto: active key missing'')
   | Some seed \<Rightarrow> Inr (p_ed_sign P seed msg, active))"

definition local_signer :: "prims \<Rightarrow> (string \<times> string) list \<Rightarrow> string \<Rightarrow> signer" where
  "local_signer P keys active = \<lparr>sg_sign = local_sign P keys active,
     sg_public = (\<lambda>kid. map_option (p_ed_pub P) (map_of keys kid)),
     sg_active = active, sg_kids = sort_key (map byte) (remdups (map fst keys))\<rparr>"

definition new_local_signer :: "prims \<Rightarrow> (string \<times> string) list \<Rightarrow> string \<Rightarrow> error + signer" where
  "new_local_signer P keys active =
    (if keys = [] then Inl (Text ''crypto: at least one signing key required'')
     else if map_of keys active = None then Inl (Text ''crypto: active kid not in key set'')
     else (case load_keys keys of Inl e \<Rightarrow> Inl e | Inr ks \<Rightarrow> Inr (local_signer P ks active)))"

definition public_keys_snapshot :: "signer \<Rightarrow> (string \<times> string) list" where
  "public_keys_snapshot s = concat (map (\<lambda>kid. case sg_public s kid of None \<Rightarrow> []
     | Some pk \<Rightarrow> [(kid, b64_encode pk)]) (sg_kids s))"

subsection \<open>Claims\<close>

record claims =
  lc_typ :: string
  lc_kid :: string
  lc_jti :: string
  lc_lic :: string
  lc_prod :: string
  lc_dev :: string
  lc_feat :: "string list"
  lc_iat :: int
  lc_exp :: int
  lc_lex :: int
  lc_pol :: int
  lc_hbi :: int
  lc_grace :: int
  lc_status :: string
  lc_min_version :: string
  lc_nonce :: string

definition no_claims :: claims where
  "no_claims = \<lparr>lc_typ = [], lc_kid = [], lc_jti = [], lc_lic = [], lc_prod = [], lc_dev = [],
     lc_feat = [], lc_iat = 0, lc_exp = 0, lc_lex = 0, lc_pol = 0, lc_hbi = 0, lc_grace = 0,
     lc_status = [], lc_min_version = [], lc_nonce = []\<rparr>"

definition claims_json :: "claims \<Rightarrow> string" where
  "claims_json c = show_object (concat [mem_str ''typ'' (lc_typ c), mem_str ''kid'' (lc_kid c),
     mem_str ''jti'' (lc_jti c), mem_str ''lic'' (lc_lic c), mem_str ''prod'' (lc_prod c),
     mem_str_omit ''dev'' (lc_dev c), mem_strs_omit ''feat'' (lc_feat c), mem_int ''iat'' (lc_iat c),
     mem_int ''exp'' (lc_exp c), mem_int_omit ''lex'' (lc_lex c), mem_int ''pol'' (lc_pol c),
     mem_int_omit ''hbi'' (lc_hbi c), mem_int_omit ''grace'' (lc_grace c),
     mem_str ''st'' (lc_status c), mem_str_omit ''mver'' (lc_min_version c),
     mem_str_omit ''nnc'' (lc_nonce c)])"

definition claims_fields :: "claims js_field list" where
  "claims_fields = [js_string ''typ'' (\<lambda>x. lc_typ_update (\<lambda>_. x)),
     js_string ''kid'' (\<lambda>x. lc_kid_update (\<lambda>_. x)), js_string ''jti'' (\<lambda>x. lc_jti_update (\<lambda>_. x)),
     js_string ''lic'' (\<lambda>x. lc_lic_update (\<lambda>_. x)), js_string ''prod'' (\<lambda>x. lc_prod_update (\<lambda>_. x)),
     js_string ''dev'' (\<lambda>x. lc_dev_update (\<lambda>_. x)), js_strings ''feat'' (\<lambda>x. lc_feat_update (\<lambda>_. x)),
     js_int ''iat'' (\<lambda>x. lc_iat_update (\<lambda>_. x)), js_int ''exp'' (\<lambda>x. lc_exp_update (\<lambda>_. x)),
     js_int ''lex'' (\<lambda>x. lc_lex_update (\<lambda>_. x)), js_int ''pol'' (\<lambda>x. lc_pol_update (\<lambda>_. x)),
     js_int ''hbi'' (\<lambda>x. lc_hbi_update (\<lambda>_. x)), js_int ''grace'' (\<lambda>x. lc_grace_update (\<lambda>_. x)),
     js_string ''st'' (\<lambda>x. lc_status_update (\<lambda>_. x)),
     js_string ''mver'' (\<lambda>x. lc_min_version_update (\<lambda>_. x)),
     js_string ''nnc'' (\<lambda>x. lc_nonce_update (\<lambda>_. x))]"

subsection \<open>Minting and verifying\<close>

definition token_prefix :: string where "token_prefix = ''VLT1''"

definition mint_token :: "signer \<Rightarrow> claims \<Rightarrow> error + string" where
  "mint_token s c0 =
    (let c = c0\<lparr>lc_kid := sg_active s\<rparr>; payload = b64_encode (claims_json c) in
     case sg_sign s payload of Inl e \<Rightarrow> Inl e
     | Inr (sig, kid) \<Rightarrow> if kid \<noteq> lc_kid c then Inl (Text ''token: kid mismatch'')
         else Inr (token_prefix @ ''.'' @ payload @ ''.'' @ b64_encode sig))"

text \<open>\<open>now\<close> is the Unix time in seconds.\<close>

definition verify_token :: "prims \<Rightarrow> string \<Rightarrow> int \<Rightarrow> signer \<Rightarrow> error + claims" where
  "verify_token P token now s =
    (case split_on (CHR ''.'') token of
       [a, b, c] \<Rightarrow>
        (if a \<noteq> token_prefix then Inl (Crypto ErrTokenFormat)
         else (case b64_decode c of None \<Rightarrow> Inl (Crypto ErrTokenFormat) | Some sig \<Rightarrow>
           if length sig \<noteq> 64 then Inl (Crypto ErrTokenFormat)
           else (case b64_decode b of None \<Rightarrow> Inl (Crypto ErrTokenFormat) | Some payload \<Rightarrow>
             (case unmarshal claims_fields payload no_claims of (ok, cl) \<Rightarrow>
               if \<not> ok then Inl (Crypto ErrTokenFormat)
               else (case sg_public s (lc_kid cl) of None \<Rightarrow> Inl (Crypto ErrTokenUnknownKID) | Some pk \<Rightarrow>
                 if \<not> p_ed_verify P pk b sig then Inl (Crypto ErrTokenBadSig)
                 else if now > lc_exp cl then Inl (Crypto ErrTokenExpired)
                 else if lc_iat cl > now + 60 then Inl (Crypto ErrTokenNotYetValid)
                 else Inr cl)))))
     | _ \<Rightarrow> Inl (Crypto ErrTokenFormat))"

definition verify_token_with_type :: "prims \<Rightarrow> string \<Rightarrow> string \<Rightarrow> int \<Rightarrow> signer \<Rightarrow> error + claims" where
  "verify_token_with_type P token typ now s = (case verify_token P token now s of
     Inl e \<Rightarrow> Inl e | Inr c \<Rightarrow> if lc_typ c \<noteq> typ then Inl (Crypto ErrTokenType) else Inr c)"

subsection \<open>The signer's contract\<close>

text \<open>
  What the token code needs of a \<open>Signer\<close>, once its keys are in order (\<open>loaded\<close>): it signs under
  its active key, whose public half it publishes, and signatures have the length the verifier
  asks for.
\<close>

locale token_signer =
  fixes verify :: "string \<Rightarrow> string \<Rightarrow> string \<Rightarrow> bool" and s :: signer and loaded :: bool
  assumes signs: "loaded \<Longrightarrow> \<exists>sig. sg_sign s m = Inr (sig, sg_active s)"
    and published: "loaded \<Longrightarrow> sg_sign s m = Inr (sig, kid) \<Longrightarrow> \<exists>pk. sg_public s kid = Some pk \<and> verify pk m sig"
    and sig_length: "loaded \<Longrightarrow> sg_sign s m = Inr (sig, kid) \<Longrightarrow> length sig = 64"
begin

lemma mint_returns: "loaded \<Longrightarrow> \<exists>t. mint_token s c = Inr t"
  using signs [of "b64_encode (claims_json (c\<lparr>lc_kid := sg_active s\<rparr>))"]
  by (auto simp: mint_token_def Let_def)

text \<open>The token carries the claims' text and a signature that verifies over it as sent.\<close>

lemma mint_signed:
  assumes loaded and "mint_token s c = Inr t"
  shows "\<exists>sig pk. split_on (CHR ''.'') t =
      [token_prefix, b64_encode (claims_json (c\<lparr>lc_kid := sg_active s\<rparr>)), b64_encode sig] \<and>
    length sig = 64 \<and> sg_public s (sg_active s) = Some pk \<and>
    verify pk (b64_encode (claims_json (c\<lparr>lc_kid := sg_active s\<rparr>))) sig"
proof -
  let ?p = "b64_encode (claims_json (c\<lparr>lc_kid := sg_active s\<rparr>))"
  obtain sig where sig: "sg_sign s ?p = Inr (sig, sg_active s)" using signs [OF assms(1)] by blast
  with assms have t: "t = token_prefix @ CHR ''.'' # ?p @ CHR ''.'' # b64_encode sig"
    by (simp add: mint_token_def Let_def)
  have nodot: "CHR ''.'' \<notin> set (b64_encode x)" for x
    using b64_encode_chars [of "CHR ''.''" x] by (auto simp: byte_def)
  have "CHR ''.'' \<notin> set token_prefix" by (simp add: token_prefix_def)
  then have "split_on (CHR ''.'') t = [token_prefix, ?p, b64_encode sig]"
    unfolding t by (simp add: split_on_sep split_on_no_sep nodot)
  with published [OF assms(1) sig] sig_length [OF assms(1) sig] show ?thesis by blast
qed

end

text \<open>The local signer keeps the contract when Ed25519 does and its active key is among its keys.\<close>

interpretation local: token_signer "p_ed_verify P" "local_signer P keys active" "ed_ok P \<and> map_of keys active \<noteq> None"
  for P keys active
  by unfold_locales (auto simp: local_signer_def local_sign_def ed_ok_def)

lemma new_local_signer_loaded:
  "new_local_signer P keys active = Inr s \<Longrightarrow> \<exists>ks. s = local_signer P ks active \<and> map_of ks active \<noteq> None"
proof -
  have "load_keys kl = Inr ks \<Longrightarrow> map fst ks = map fst kl" for kl ks
    by (induction kl arbitrary: ks rule: load_keys.induct)
      (auto simp: Let_def split: sum.splits option.splits if_splits)
  then have "load_keys kl = Inr ks \<Longrightarrow> map_of ks k = None \<longleftrightarrow> map_of kl k = None" for kl ks k
    by (simp add: map_of_eq_None_iff flip: set_map)
  then show "new_local_signer P keys active = Inr s \<Longrightarrow> ?thesis"
    by (force simp: new_local_signer_def split: if_splits sum.splits)
qed

end
