(* ===== verification/DeviceSig.thy ===== *)
theory DeviceSig
  imports SigToken
begin

section \<open>DeviceSig: the device's proof of possession\<close>

text \<open>
  \<open>internal/service/httpsig.go\<close> and \<open>DeviceAuthMessage\<close> of \<open>crypto/sigtoken.go\<close>: the header
  \<open>v1 pub=.. ts=.. nonce=.. seq=.. sig=..\<close>, the text it signs, and the check under the two
  key types. The lemmas show that the header printed is the header parsed, and that the
  signed text determines every field it is made from.
\<close>

record device_sig =
  ds_pub :: string
  ds_ts :: int
  ds_nonce :: string
  ds_seq :: int
  ds_sig :: string

definition no_sig :: device_sig where
  "no_sig = \<lparr>ds_pub = [], ds_ts = 0, ds_nonce = [], ds_seq = 0, ds_sig = []\<rparr>"

text \<open>One \<open>key=value\<close> field; \<open>None\<close> is the malformed header.\<close>

definition ds_field :: "string \<Rightarrow> device_sig \<Rightarrow> device_sig option" where
  "ds_field p ds = (case str_cut (CHR ''='') p of None \<Rightarrow> None | Some (k, v) \<Rightarrow>
     if k = ''pub'' then Some (ds\<lparr>ds_pub := v\<rparr>)
     else if k = ''ts'' then (case parse_int v of Inl _ \<Rightarrow> None | Inr n \<Rightarrow> Some (ds\<lparr>ds_ts := n\<rparr>))
     else if k = ''nonce'' then Some (ds\<lparr>ds_nonce := v\<rparr>)
     else if k = ''seq'' then (case parse_int v of Inl _ \<Rightarrow> None
       | Inr n \<Rightarrow> if n < 0 then None else Some (ds\<lparr>ds_seq := n\<rparr>))
     else if k = ''sig'' then (case b64_decode v of None \<Rightarrow> None
       | Some b \<Rightarrow> if length b < 8 then None else Some (ds\<lparr>ds_sig := b\<rparr>))
     else None)"

fun ds_loop :: "string list \<Rightarrow> device_sig \<Rightarrow> device_sig option" where
  "ds_loop [] ds = Some ds"
| "ds_loop (p # ps) ds = (case ds_field p ds of None \<Rightarrow> None | Some d \<Rightarrow> ds_loop ps d)"

definition parse_device_signature :: "string \<Rightarrow> error + device_sig" where
  "parse_device_signature header =
    (case str_fields (trim_space header) of
       [] \<Rightarrow> Inl (Service ErrDeviceAuthHeader)
     | v # ps \<Rightarrow> if v \<noteq> ''v1'' then Inl (Service ErrDeviceAuthHeader)
         else (case ds_loop ps no_sig of None \<Rightarrow> Inl (Service ErrDeviceAuthHeader)
           | Some ds \<Rightarrow> if ds_pub ds = [] \<or> ds_ts ds = 0 \<or> ds_nonce ds = [] \<or> ds_sig ds = []
               then Inl (Service ErrDeviceAuthHeader) else Inr ds))"

definition device_auth_message ::
  "prims \<Rightarrow> string \<Rightarrow> string \<Rightarrow> int \<Rightarrow> string \<Rightarrow> int \<Rightarrow> string \<Rightarrow> string" where
  "device_auth_message P method path ts nonce sq body =
     ''v1|'' @ to_upper method @ ''|'' @ path @ ''|'' @ show_int ts @ ''|'' @ nonce @ ''|'' @
     show_int sq @ ''|'' @ p_sha256 P body"

definition ds_message :: "prims \<Rightarrow> device_sig \<Rightarrow> string \<Rightarrow> string \<Rightarrow> string \<Rightarrow> string" where
  "ds_message P ds method path body =
     device_auth_message P method path (ds_ts ds) (ds_nonce ds) (ds_seq ds) body"

definition verify_pub :: "prims \<Rightarrow> device_sig \<Rightarrow> string \<Rightarrow> string \<Rightarrow> string \<Rightarrow> bool" where
  "verify_pub P ds pub64 kty msg =
    (case b64_decode pub64 of None \<Rightarrow> False | Some raw \<Rightarrow>
      if kty = ''p256'' then
        (if length raw \<noteq> 65 \<or> byte (hd raw) \<noteq> 4 then False
         else if \<not> p_p256_point P raw then False
         else if length (ds_sig ds) = 64 then p_p256_raw P raw (p_sha256 P msg) (ds_sig ds)
         else p_p256_der P raw (p_sha256 P msg) (ds_sig ds))
      else if length raw \<noteq> 32 then False else p_ed_verify P raw msg (ds_sig ds))"

definition ds_header :: "device_sig \<Rightarrow> string" where
  "ds_header ds = ''v1 pub='' @ ds_pub ds @ '' ts='' @ show_int (ds_ts ds) @ '' nonce='' @ ds_nonce ds @
     '' seq='' @ show_int (ds_seq ds) @ '' sig='' @ b64_encode (ds_sig ds)"

subsection \<open>The header read back\<close>

definition token_text :: "string \<Rightarrow> bool" where
  "token_text s \<longleftrightarrow> (\<forall>c \<in> set s. 33 \<le> byte c \<and> byte c < 127)"

definition ds_valid :: "device_sig \<Rightarrow> bool" where
  "ds_valid ds \<longleftrightarrow> ds_pub ds \<noteq> [] \<and> token_text (ds_pub ds) \<and> ds_nonce ds \<noteq> [] \<and>
     token_text (ds_nonce ds) \<and> ds_ts ds \<noteq> 0 \<and> int64_min \<le> ds_ts ds \<and> ds_ts ds \<le> int64_max \<and>
     0 \<le> ds_seq ds \<and> ds_seq ds \<le> int64_max \<and> 8 \<le> length (ds_sig ds)"

lemma not_space_token: "33 \<le> r \<Longrightarrow> r < 127 \<Longrightarrow> \<not> is_space r"
  by (auto simp: is_space_def)

lemma fields_aux_token:
  "token_text w \<Longrightarrow> fields_aux (segs w @ xs) acc = fields_aux xs (acc @ w)"
proof (induction w arbitrary: acc)
  case (Cons c w)
  then have c: "33 \<le> byte c" "byte c < 127" "token_text w" by (simp_all add: token_text_def)
  then show ?case
    using Cons.IH [of "acc @ [c]"] by (simp add: segs_ascii_Cons not_space_token)
qed (simp add: segs.simps)

lemma segs_append_ascii: "ascii a \<Longrightarrow> segs (a @ b) = segs a @ segs b"
  by (induction a) (simp_all add: segs_ascii_Cons)

lemma token_ascii: "token_text w \<Longrightarrow> ascii w"
  by (auto simp: token_text_def ascii_def list_all_iff)

text \<open>Words of printable bytes joined by single blanks split back into the words.\<close>

fun joined :: "string list \<Rightarrow> string" where
  "joined [] = []"
| "joined [w] = w"
| "joined (w # ws) = w @ CHR '' '' # joined ws"

lemma segs_blank: "segs (CHR '' '' # s) = (32, '' '') # segs s"
  by (simp add: segs_ascii_Cons byte_def)

lemma str_fields_joined:
  "\<forall>w \<in> set ws. w \<noteq> [] \<and> token_text w \<Longrightarrow> str_fields (joined ws) = ws"
proof (induction ws rule: joined.induct)
  case (2 w)
  then show ?case using fields_aux_token [of w "[]" "[]"] by (simp add: str_fields_def)
next
  case (3 w v ws)
  have "str_fields (joined (w # v # ws)) = fields_aux (segs w @ segs (CHR '' '' # joined (v # ws))) []"
    using 3 by (simp add: str_fields_def segs_append_ascii token_ascii)
  also have "\<dots> = w # str_fields (joined (v # ws))"
    using 3 by (simp add: fields_aux_token segs_blank str_fields_def is_space_def)
  finally show ?case using 3 by simp
qed (simp add: str_fields_def segs.simps)

lemma last_not_space:
  assumes "ascii s" "s \<noteq> []" "\<not> is_space (byte (hd s))" "\<not> is_space (byte (last s))"
  shows "trim_space s = s"
proof -
  have seg: "segs s = map (\<lambda>c. (byte c, [c])) s" using assms(1) by (rule segs_ascii)
  have hd: "dropWhile (is_space \<circ> fst) (segs s) = segs s"
    unfolding seg using assms(2,3) by (cases s) simp_all
  have "dropWhile (is_space \<circ> fst) (rev (segs s)) = rev (segs s)"
    unfolding seg using assms(2,4) by (cases s rule: rev_cases) simp_all
  with hd show ?thesis by (simp add: trim_space_def seg_bytes_def segs_bytes)
qed

lemma show_int_token: "token_text (show_int i)"
  unfolding token_text_def
proof
  fix c assume "c \<in> set (show_int i)"
  then consider "is_digit c" | "c = CHR ''-''" using show_int_chars by blast
  then show "33 \<le> byte c \<and> byte c < 127" by cases (simp_all add: is_digit_def, simp add: byte_def)
qed

lemma b64_token: "token_text (b64_encode b)"
proof -
  have "byte c < 127" if "c \<in> set (b64_encode b)" for c
  proof -
    from that obtain v where v: "v < 64" "c = b64_char v"
      using b64_encode_sextets [of b] by (auto simp: b64_encode_def)
    then show ?thesis by (auto simp: b64_char_def)
  qed
  then show ?thesis using b64_encode_chars by (auto simp: token_text_def)
qed

lemma b64_encode_ne: "b \<noteq> [] \<Longrightarrow> b64_encode b \<noteq> []"
  using b64_decode_encode [of b] by (auto simp: b64_decode_def)

lemma token_text_append: "token_text (a @ b) \<longleftrightarrow> token_text a \<and> token_text b"
  by (auto simp: token_text_def)

lemma token_text_simps:
  "token_text []" "token_text (c # s) \<longleftrightarrow> 33 \<le> byte c \<and> byte c < 127 \<and> token_text s"
  by (auto simp: token_text_def)

text \<open>C36. A well-formed device signature survives its header: \<open>ParseDeviceSignature\<close> of \<open>Header()\<close> is the signature itself,
  field by field. Well-formed means: the public key and the nonce are not empty and of visible ASCII characters, the time
  stamp is not zero, it and the sequence number fit in 64 bits, the sequence number is not negative, and the signature has
  at least eight bytes.\<close>
lemma parse_header_roundtrip:
  assumes "ds_valid ds"
  shows "parse_device_signature (ds_header ds) = Inr ds"
proof -
  let ?ws = "[''v1'', ''pub='' @ ds_pub ds, ''ts='' @ show_int (ds_ts ds), ''nonce='' @ ds_nonce ds,
    ''seq='' @ show_int (ds_seq ds), ''sig='' @ b64_encode (ds_sig ds)]"
  have hdr: "ds_header ds = joined ?ws" by (simp add: ds_header_def)
  have tok: "\<forall>w \<in> set ?ws. w \<noteq> [] \<and> token_text w"
    using assms by (simp add: ds_valid_def token_text_append show_int_token b64_token token_text_simps)
      (simp add: byte_def)
  have "ascii (joined ws)" if "\<forall>w \<in> set ws. w \<noteq> [] \<and> token_text w" for ws
    using that by (induction ws rule: joined.induct) (auto simp: token_ascii byte_def)
  then have asc: "ascii (joined ?ws)" using tok by blast
  have sig: "ds_sig ds \<noteq> []" using assms by (auto simp: ds_valid_def)
  have "last (joined ?ws) = last (b64_encode (ds_sig ds))"
    using b64_encode_ne [OF sig] by simp
  moreover have "last (b64_encode (ds_sig ds)) \<in> set (b64_encode (ds_sig ds))"
    using b64_encode_ne [OF sig] by simp
  ultimately have "\<not> is_space (byte (last (joined ?ws)))"
    using b64_token [of "ds_sig ds"] by (simp add: token_text_def not_space_token)
  then have "trim_space (joined ?ws) = joined ?ws"
    by (intro last_not_space asc) (simp_all add: is_space_def byte_def)
  then have "str_fields (trim_space (ds_header ds)) = ?ws"
    by (simp only: hdr str_fields_joined [OF tok])
  moreover have "ds_loop (tl ?ws) no_sig = Some ds"
    using assms by (simp add: ds_field_def ds_valid_def parse_show_int b64_decode_encode
        int64_defs no_sig_def)
  ultimately show ?thesis
    using assms sig by (simp add: parse_device_signature_def ds_valid_def)
qed

lemma parse_header_roundtrip_witness:
  "parse_device_signature (ds_header \<lparr>ds_pub = ''abc'', ds_ts = 1700000000, ds_nonce = ''n1'',
     ds_seq = 7, ds_sig = ''12345678''\<rparr>) =
   Inr \<lparr>ds_pub = ''abc'', ds_ts = 1700000000, ds_nonce = ''n1'', ds_seq = 7, ds_sig = ''12345678''\<rparr>"
  by (rule parse_header_roundtrip) (simp add: ds_valid_def token_text_def int64_defs byte_def)

subsection \<open>What a signature covers\<close>

lemma split_at_bar:
  "a @ CHR ''|'' # x = b @ CHR ''|'' # y \<Longrightarrow> CHR ''|'' \<notin> set a \<Longrightarrow> CHR ''|'' \<notin> set b \<Longrightarrow> a = b \<and> x = y"
  by (metis str_cut_sep option.inject prod.inject)

lemma show_int_no_bar: "CHR ''|'' \<notin> set (show_int i)"
proof
  assume "CHR ''|'' \<in> set (show_int i)"
  from show_int_chars [OF this] have "is_digit (CHR ''|'')" by simp
  then show False by (simp add: is_digit_def) (simp add: byte_def)
qed

lemma show_int_inj: "show_int i = show_int j \<Longrightarrow> i = j"
proof -
  have nd: "k < 0" if "show_int k = CHR ''-'' # t" for k t
  proof (rule ccontr)
    assume "\<not> k < 0"
    with that have "is_digit (CHR ''-'')"
      using show_nat_digits [of "nat k"] by (simp add: show_int_def)
    then show False by (simp add: is_digit_def) (simp add: byte_def)
  qed
  assume eq: "show_int i = show_int j"
  show "i = j"
  proof (cases "i < 0"; cases "j < 0")
    assume "i < 0" "\<not> j < 0"
    moreover from this eq have "show_int j = CHR ''-'' # show_nat (nat (- i))"
      by (simp add: show_int_def)
    ultimately show ?thesis using nd by blast
  next
    assume "\<not> i < 0" "j < 0"
    moreover from this eq have "show_int i = CHR ''-'' # show_nat (nat (- j))"
      by (simp add: show_int_def)
    ultimately show ?thesis using nd by blast
  qed (use eq in \<open>auto simp: show_int_def dest: show_nat_inj\<close>)
qed

text \<open>C37. The text a device signs determines the method (in upper case), the path, the time
  stamp, the nonce, the sequence number and the digest of the body: two requests whose method,
  path and nonce have no separator in them and whose signed texts agree differ in none of them.\<close>
lemma signed_text_binds:
  assumes "device_auth_message P m p t n q b = device_auth_message P m' p' t' n' q' b'"
    and "CHR ''|'' \<notin> set (to_upper m)" "CHR ''|'' \<notin> set (to_upper m')"
    and "CHR ''|'' \<notin> set p" "CHR ''|'' \<notin> set p'" "CHR ''|'' \<notin> set n" "CHR ''|'' \<notin> set n'"
  shows "to_upper m = to_upper m' \<and> p = p' \<and> t = t' \<and> n = n' \<and> q = q' \<and> p_sha256 P b = p_sha256 P b'"
proof -
  note cut = split_at_bar
  from assms(1) have "to_upper m @ CHR ''|'' # (p @ CHR ''|'' # (show_int t @ CHR ''|'' # (n @ CHR ''|'' #
      (show_int q @ CHR ''|'' # p_sha256 P b)))) = to_upper m' @ CHR ''|'' # (p' @ CHR ''|'' #
      (show_int t' @ CHR ''|'' # (n' @ CHR ''|'' # (show_int q' @ CHR ''|'' # p_sha256 P b'))))"
    by (simp add: device_auth_message_def)
  from cut [OF this assms(2,3)] have m: "to_upper m = to_upper m'" and
    r: "p @ CHR ''|'' # (show_int t @ CHR ''|'' # (n @ CHR ''|'' #
      (show_int q @ CHR ''|'' # p_sha256 P b))) = p' @ CHR ''|'' #
      (show_int t' @ CHR ''|'' # (n' @ CHR ''|'' # (show_int q' @ CHR ''|'' # p_sha256 P b')))" by blast+
  from cut [OF r assms(4,5)] have p: "p = p'" and
    r: "show_int t @ CHR ''|'' # (n @ CHR ''|'' # (show_int q @ CHR ''|'' # p_sha256 P b)) =
      show_int t' @ CHR ''|'' # (n' @ CHR ''|'' # (show_int q' @ CHR ''|'' # p_sha256 P b'))" by blast+
  from cut [OF r show_int_no_bar show_int_no_bar] have t: "show_int t = show_int t'" and
    r: "n @ CHR ''|'' # (show_int q @ CHR ''|'' # p_sha256 P b) =
      n' @ CHR ''|'' # (show_int q' @ CHR ''|'' # p_sha256 P b')" by blast+
  from cut [OF r assms(6,7)] have n: "n = n'" and
    r: "show_int q @ CHR ''|'' # p_sha256 P b = show_int q' @ CHR ''|'' # p_sha256 P b'" by blast+
  from cut [OF r show_int_no_bar show_int_no_bar] m p t n show ?thesis
    by (auto dest: show_int_inj)
qed

lemma signed_text_binds_witness:
  "to_upper ''post'' = to_upper ''POST'' \<and> ''/v1/redeem'' = ''/v1/redeem'' \<and> (5::int) = 5 \<and>
    ''n'' = ''n'' \<and> (1::int) = 1 \<and> p_sha256 plain_prims ''x'' = p_sha256 plain_prims ''x''"
proof -
  have up: "to_upper ''post'' = ''POST''" "to_upper ''POST'' = ''POST''"
    by (simp_all add: to_upper_ascii ascii_def byte_def upper_rune_def mk_byte_eq_iff)
  show ?thesis
    by (rule signed_text_binds) (simp_all add: device_auth_message_def up)
qed

end
