(* ===== verification/Envelope.thy ===== *)
theory Envelope
  imports SigToken
begin

section \<open>Envelope: the encrypted request bodies\<close>

text \<open>
  \<open>internal/crypto/envelope.go\<close>: an envelope names the server key it was made for, carries the
  client's ephemeral key, and is opened with every known key of that name in turn. The
  associated data binds the key name, the algorithm and the purpose of the request. Both
  ciphers take a 12 byte nonce.
\<close>

record envelope =
  en_kid :: string
  en_alg :: string
  en_epk :: string
  en_nonce :: string
  en_ct :: string

record kex_key =
  kk_kid :: string
  kk_priv :: string
  kk_active :: bool

definition alg_gcm :: string where "alg_gcm = ''A256GCM''"
definition alg_xc20p :: string where "alg_xc20p = ''XC20P''"
definition envelope_info :: string where "envelope_info = ''vertify-envelope-v1''"

definition kex_pub :: "prims \<Rightarrow> kex_key \<Rightarrow> string" where
  "kex_pub P k = p_x_pub P (kk_priv k)"

definition envelope_fields :: "envelope js_field list" where
  "envelope_fields = [js_string ''kid'' (\<lambda>x. en_kid_update (\<lambda>_. x)),
     js_string ''alg'' (\<lambda>x. en_alg_update (\<lambda>_. x)), js_string ''epk'' (\<lambda>x. en_epk_update (\<lambda>_. x)),
     js_string ''nonce'' (\<lambda>x. en_nonce_update (\<lambda>_. x)), js_string ''ct'' (\<lambda>x. en_ct_update (\<lambda>_. x))]"

definition no_envelope :: envelope where
  "no_envelope = \<lparr>en_kid = [], en_alg = [], en_epk = [], en_nonce = [], en_ct = []\<rparr>"

definition envelope_json :: "envelope \<Rightarrow> string" where
  "envelope_json e = show_object (concat [mem_str ''kid'' (en_kid e), mem_str ''alg'' (en_alg e),
     mem_str ''epk'' (en_epk e), mem_str ''nonce'' (en_nonce e), mem_str ''ct'' (en_ct e)])"

definition derive_envelope_key :: "prims \<Rightarrow> string \<Rightarrow> string \<Rightarrow> string \<Rightarrow> string" where
  "derive_envelope_key P shared epk spk = p_hkdf P shared (epk @ spk) envelope_info"

definition envelope_aad :: "string \<Rightarrow> string \<Rightarrow> string \<Rightarrow> string" where
  "envelope_aad kid alg ctx = envelope_info @ ''|'' @ kid @ ''|'' @ alg @
     (if ctx \<noteq> [] then ''|'' @ ctx else [])"

definition aad_context :: "string \<Rightarrow> string" where
  "aad_context purpose = ''purpose='' @ purpose"

text \<open>\<open>sealEnvelopeWithEphemeral\<close> with the ephemeral private key and the nonce it draws.\<close>

definition seal_envelope ::
  "prims \<Rightarrow> string \<Rightarrow> string \<Rightarrow> string \<Rightarrow> string \<Rightarrow> string \<Rightarrow> string \<Rightarrow> string \<Rightarrow> error + string" where
  "seal_envelope P kid eph spk alg plaintext ctx nonce =
    (if alg \<noteq> alg_gcm \<and> alg \<noteq> alg_xc20p then Inl (Crypto ErrEnvelopeAlg)
     else (case p_ecdh P eph spk of None \<Rightarrow> Inl (Crypto ErrEnvelopeBadPoint) | Some shared \<Rightarrow>
       let epk = p_x_pub P eph; key = derive_envelope_key P shared epk spk;
           ct = p_seal P alg key nonce plaintext (envelope_aad kid alg ctx) in
       Inr (envelope_json \<lparr>en_kid = kid, en_alg = alg, en_epk = b64_encode epk,
         en_nonce = b64_encode nonce, en_ct = b64_encode ct\<rparr>)))"

text \<open>The keys tried: those with the wanted name, or all of them when neither side names one.\<close>

definition kex_candidates :: "string \<Rightarrow> string \<Rightarrow> kex_key list \<Rightarrow> kex_key list option" where
  "kex_candidates kid env_kid keys =
    (if kid \<noteq> [] \<or> env_kid \<noteq> [] then
       (let want = (if kid \<noteq> [] then kid else env_kid); cs = filter (\<lambda>k. kk_kid k = want) keys in
        if cs = [] then None else Some cs)
     else Some keys)"

text \<open>The loop over the candidates; the argument \<open>last_err\<close> is what it returns when none opens.\<close>

fun open_with :: "prims \<Rightarrow> string \<Rightarrow> string \<Rightarrow> string \<Rightarrow> string \<Rightarrow> string \<Rightarrow> crypto_error \<Rightarrow> kex_key list \<Rightarrow>
    error + string" where
  "open_with P alg epk nonce ct ctx last_err [] = Inl (Crypto last_err)"
| "open_with P alg epk nonce ct ctx last_err (k # ks) =
    (case p_ecdh P (kk_priv k) epk of None \<Rightarrow> open_with P alg epk nonce ct ctx last_err ks
     | Some shared \<Rightarrow>
       if length nonce \<noteq> 12 then open_with P alg epk nonce ct ctx ErrEnvelopeFormat ks
       else (case p_open P alg (derive_envelope_key P shared epk (kex_pub P k)) nonce ct
               (envelope_aad (kk_kid k) alg ctx) of
           None \<Rightarrow> open_with P alg epk nonce ct ctx ErrEnvelopeDecrypt ks
         | Some pt \<Rightarrow> Inr pt))"

definition open_envelope :: "prims \<Rightarrow> string \<Rightarrow> string \<Rightarrow> kex_key list \<Rightarrow> string \<Rightarrow> error + string" where
  "open_envelope P text kid keys ctx =
    (case unmarshal envelope_fields text no_envelope of (ok, env) \<Rightarrow>
      if \<not> ok then Inl (Crypto ErrEnvelopeFormat)
      else if en_alg env \<noteq> alg_gcm \<and> en_alg env \<noteq> alg_xc20p then Inl (Crypto ErrEnvelopeAlg)
      else (case kex_candidates kid (en_kid env) keys of None \<Rightarrow> Inl (Crypto ErrEnvelopeKID)
       | Some cs \<Rightarrow>
         (case b64_decode (en_epk env) of None \<Rightarrow> Inl (Crypto ErrEnvelopeFormat) | Some epk \<Rightarrow>
           if length epk \<noteq> 32 then Inl (Crypto ErrEnvelopeFormat)
           else (case b64_decode (en_nonce env) of None \<Rightarrow> Inl (Crypto ErrEnvelopeFormat) | Some nonce \<Rightarrow>
             (case b64_decode (en_ct env) of None \<Rightarrow> Inl (Crypto ErrEnvelopeFormat) | Some ct \<Rightarrow>
               open_with P (en_alg env) epk nonce ct ctx ErrEnvelopeDecrypt cs)))))"

text \<open>Whatever is returned was accepted by the cipher under the purpose's associated data.\<close>

lemma open_with_authentic:
  assumes "open_with P alg epk nonce ct ctx e ks = Inr pt"
  shows "\<exists>k \<in> set ks. \<exists>shared. p_ecdh P (kk_priv k) epk = Some shared \<and>
    p_open P alg (derive_envelope_key P shared epk (kex_pub P k)) nonce ct
      (envelope_aad (kk_kid k) alg ctx) = Some pt"
  using assms
proof (induction ks arbitrary: e)
  case (Cons k ks)
  then show ?case by (auto split: option.splits if_splits)
qed simp

lemma open_envelope_authentic:
  assumes "open_envelope P text [] keys ctx = Inr pt"
  shows "\<exists>k \<in> set keys. \<exists>alg shared epk nonce ct. (alg = alg_gcm \<or> alg = alg_xc20p) \<and>
    p_ecdh P (kk_priv k) epk = Some shared \<and>
    p_open P alg (derive_envelope_key P shared epk (kex_pub P k)) nonce ct
      (envelope_aad (kk_kid k) alg ctx) = Some pt"
proof -
  obtain ok env where env: "unmarshal envelope_fields text no_envelope = (ok, env)" by fastforce
  from assms obtain cs epk nonce ct where
    alg: "en_alg env = alg_gcm \<or> en_alg env = alg_xc20p" and
    cs: "kex_candidates [] (en_kid env) keys = Some cs" and
    run: "open_with P (en_alg env) epk nonce ct ctx ErrEnvelopeDecrypt cs = Inr pt"
    by (auto simp: open_envelope_def env split: option.splits if_splits)
  have "set cs \<subseteq> set keys" using cs by (auto simp: kex_candidates_def Let_def split: if_splits)
  with open_with_authentic [OF run] alg show ?thesis by blast
qed

text \<open>The purpose is authenticated: the associated data under which an envelope opened for
  one purpose is never that of another, for the same key name and algorithm.\<close>
lemma purpose_bound:
  "envelope_aad kid alg (aad_context p) = envelope_aad kid alg (aad_context q) \<longleftrightarrow> p = q"
  by (simp add: envelope_aad_def aad_context_def)

end
