(* ===== verification/Argon2id.thy ===== *)
theory Argon2id
  imports SigToken
begin

section \<open>Argon2id: password hashes\<close>

text \<open>
  \<open>internal/argon2id/argon2id.go\<close>: the PHC string \<open>$argon2id$v=19$m=..,t=..,p=..$salt$key\<close>,
  written and read back. The key derivation \<open>argon2.IDKey\<close> is the parameter \<open>p_argon2\<close> (password, salt,
  time, memory, threads, length), none when the library panics. \<open>argon_ok\<close> says what the library and
  RFC 9106 promise: a panic for no passes or no threads, and otherwise a key of the length asked for, from
  four bytes on.
\<close>

record argon_params =
  ap_memory :: nat
  ap_time :: nat
  ap_threads :: nat
  ap_key_len :: nat
  ap_salt_len :: nat

definition default_params :: argon_params where
  "default_params = \<lparr>ap_memory = 19456, ap_time = 2, ap_threads = 1, ap_key_len = 32, ap_salt_len = 16\<rparr>"

definition argon_ok :: "prims \<Rightarrow> bool" where
  "argon_ok P \<longleftrightarrow> (\<forall>pw s t m l n. (t = 0 \<or> l = 0 \<longrightarrow> p_argon2 P pw s t m l n = None) \<and>
     (0 < t \<and> 0 < l \<and> 4 \<le> n \<longrightarrow> (\<exists>k. p_argon2 P pw s t m l n = Some k \<and> length k = n)))"

text \<open>A panic of the library is an error of the caller.\<close>

definition id_key :: "prims \<Rightarrow> string \<Rightarrow> string \<Rightarrow> nat \<Rightarrow> nat \<Rightarrow> nat \<Rightarrow> nat \<Rightarrow> error + string" where
  "id_key P pw salt t m l n = (case p_argon2 P pw salt t m l n of
     None \<Rightarrow> Inl (Text ''panic: argon2'') | Some k \<Rightarrow> Inr k)"

text \<open>The standard alphabet without padding.\<close>

definition std_encode :: "string \<Rightarrow> string" where
  "std_encode b = map (\<lambda>c. if byte c = 45 then mk_byte 43 else if byte c = 95 then mk_byte 47 else c)
     (b64_encode b)"

definition std_decode :: "string \<Rightarrow> string option" where
  "std_decode s = (if list_ex (\<lambda>c. byte c = 45 \<or> byte c = 95) s then None
     else b64_decode (map (\<lambda>c. if byte c = 43 then mk_byte 45 else if byte c = 47 then mk_byte 95 else c) s))"

text \<open>The PHC string, and \<open>Hash\<close> with the salt it draws.\<close>

definition phc_text :: "nat \<Rightarrow> nat \<Rightarrow> nat \<Rightarrow> string \<Rightarrow> string \<Rightarrow> string" where
  "phc_text m t p salt key =
     ''$argon2id$v='' @ show_nat 19 @ ''$m='' @ show_nat m @ '',t='' @ show_nat t @
     '',p='' @ show_nat p @ ''$'' @ std_encode salt @ ''$'' @ std_encode key"

definition hash_password :: "prims \<Rightarrow> string \<Rightarrow> string \<Rightarrow> argon_params \<Rightarrow> error + string" where
  "hash_password P salt pw ap =
    (case id_key P pw salt (ap_time ap) (ap_memory ap) (ap_threads ap) (ap_key_len ap) of
       Inl e \<Rightarrow> Inl e
     | Inr key \<Rightarrow> Inr (phc_text (ap_memory ap) (ap_time ap) (ap_threads ap) salt key))"

text \<open>\<open>%d\<close> of \<open>Sscanf\<close>: blanks, then digits (a sign only for a signed variable).\<close>

definition scan_uint :: "nat \<Rightarrow> string \<Rightarrow> (nat \<times> string) option" where
  "scan_uint bound s =
    (let t = dropWhile (\<lambda>c. byte c = 32 \<or> byte c = 9) s; ds = takeWhile is_digit t in
     if ds = [] \<or> bound \<le> digits_val ds then None else Some (digits_val ds, dropWhile is_digit t))"

definition scan_int :: "string \<Rightarrow> (int \<times> string) option" where
  "scan_int s =
    (let t = dropWhile (\<lambda>c. byte c = 32 \<or> byte c = 9) s in
     case strip_sign t of (neg, u) \<Rightarrow>
       (let ds = takeWhile is_digit u; n = (if neg then - int (digits_val ds) else int (digits_val ds)) in
        if ds = [] \<or> n < int64_min \<or> int64_max < n then None else Some (n, dropWhile is_digit u)))"

definition scan_lit :: "string \<Rightarrow> string \<Rightarrow> string option" where
  "scan_lit w s = (if take (length w) s = w then Some (drop (length w) s) else None)"

definition scan_mtp :: "string \<Rightarrow> (nat \<times> nat \<times> nat) option" where
  "scan_mtp s =
    (case scan_lit ''m='' s of None \<Rightarrow> None | Some s1 \<Rightarrow>
     (case scan_uint (2 ^ 32) s1 of None \<Rightarrow> None | Some (m, s2) \<Rightarrow>
     (case scan_lit '',t='' s2 of None \<Rightarrow> None | Some s3 \<Rightarrow>
     (case scan_uint (2 ^ 32) s3 of None \<Rightarrow> None | Some (t, s4) \<Rightarrow>
     (case scan_lit '',p='' s4 of None \<Rightarrow> None | Some s5 \<Rightarrow>
     (case scan_uint 256 s5 of None \<Rightarrow> None | Some (p, _) \<Rightarrow> Some (m, t, p)))))))"

definition verify_password :: "prims \<Rightarrow> string \<Rightarrow> string \<Rightarrow> error + bool" where
  "verify_password P pw phc =
    (case split_on (CHR ''$'') phc of
       [a, b, v, mtp, salt64, key64] \<Rightarrow>
        (if b \<noteq> ''argon2id'' then Inl (Text ''argon2id: malformed hash string'')
         else (case Option.bind (scan_lit ''v='' v) scan_int of
             None \<Rightarrow> Inl (Text ''argon2id: malformed hash string'')
           | Some _ \<Rightarrow> (case (scan_mtp mtp, std_decode salt64, std_decode key64) of
               (Some (m, t, p), Some salt, Some want) \<Rightarrow>
                 (case id_key P pw salt t m p (length want) of Inl e \<Rightarrow> Inl e | Inr got \<Rightarrow> Inr (got = want))
             | _ \<Rightarrow> Inl (Text ''argon2id: malformed hash string''))))
     | _ \<Rightarrow> Inl (Text ''argon2id: malformed hash string''))"

subsection \<open>A hash verifies\<close>

lemma std_encode_bytes:
  assumes "c \<in> set (std_encode b)"
  shows "byte c \<noteq> 45 \<and> byte c \<noteq> 95 \<and> byte c \<noteq> 36"
proof -
  from assms obtain d where d: "d \<in> set (b64_encode b)"
    "c = (if byte d = 45 then mk_byte 43 else if byte d = 95 then mk_byte 47 else d)"
    by (auto simp: std_encode_def)
  from d(1) obtain v where "v < 64" "d = b64_char v"
    using b64_encode_sextets [of b] by (auto simp: b64_encode_def)
  with d(2) show ?thesis by (auto simp: b64_char_def split: if_splits)
qed

lemma std_decode_encode: "std_decode (std_encode b) = Some b"
proof -
  have ne: "byte d \<noteq> 43 \<and> byte d \<noteq> 47" if "d \<in> set (b64_encode b)" for d
  proof -
    from that obtain v where "v < 64" "d = b64_char v"
      using b64_encode_sextets [of b] by (auto simp: b64_encode_def)
    then show ?thesis by (auto simp: b64_char_def split: if_splits)
  qed
  have "map (\<lambda>c. if byte c = 43 then mk_byte 45 else if byte c = 47 then mk_byte 95 else c)
      (std_encode b) = b64_encode b"
    unfolding std_encode_def map_map
    by (rule map_idI) (use ne in \<open>auto simp: mk_byte_eq_iff\<close>)
  moreover have "\<not> list_ex (\<lambda>c. byte c = 45 \<or> byte c = 95) (std_encode b)"
    using std_encode_bytes by (auto simp: list_ex_iff)
  ultimately show ?thesis by (simp add: std_decode_def b64_decode_encode)
qed

lemma scan_uint_show:
  assumes "n < b" "rest = [] \<or> \<not> is_digit (hd rest)"
  shows "scan_uint b (show_nat n @ rest) = Some (n, rest)"
proof -
  have dig: "\<forall>c \<in> set (show_nat n). is_digit c"
    using show_nat_digits [of n] by (simp add: list_all_iff)
  obtain c t where ct: "show_nat n = c # t" using show_nat_ne [of n] by (cases "show_nat n") auto
  with dig have "\<not> (byte c = 32 \<or> byte c = 9)" by (auto simp: is_digit_def)
  then have "dropWhile (\<lambda>c. byte c = 32 \<or> byte c = 9) (show_nat n @ rest) = show_nat n @ rest"
    by (simp add: ct)
  moreover have "takeWhile is_digit (show_nat n @ rest) = show_nat n"
    "dropWhile is_digit (show_nat n @ rest) = rest"
    using dig assms(2) by (cases rest; simp add: takeWhile_append2 dropWhile_append2)+
  ultimately show ?thesis
    using assms(1) by (simp add: scan_uint_def Let_def digits_val_show)
qed

lemma not_digits: "\<not> is_digit (CHR '','')"
  by (simp add: is_digit_def) (simp add: byte_def)

lemma scan_mtp_show:
  assumes "m < 2 ^ 32" "t < 2 ^ 32" "p < 256"
  shows "scan_mtp (''m='' @ show_nat m @ '',t='' @ show_nat t @ '',p='' @ show_nat p) = Some (m, t, p)"
  using assms scan_uint_show [of m "2 ^ 32" "'',t='' @ show_nat t @ '',p='' @ show_nat p"]
    scan_uint_show [of t "2 ^ 32" "'',p='' @ show_nat p"] scan_uint_show [of p 256 "[]"]
  by (simp add: scan_mtp_def scan_lit_def not_digits)

lemma scan_int_19: "Option.bind (scan_lit ''v='' (''v='' @ show_nat 19)) scan_int \<noteq> None"
proof -
  have "\<forall>c \<in> set (show_nat 19). is_digit c"
    using show_nat_digits [of 19] by (simp add: list_all_iff)
  then have tw: "takeWhile is_digit (show_nat 19) = show_nat 19" by (simp add: takeWhile_eq_all_conv)
  obtain c t where ct: "show_nat 19 = c # t" using show_nat_ne [of 19] by (cases "show_nat 19") auto
  have "is_digit c" using show_nat_digits [of 19] by (simp add: ct)
  then have dw: "dropWhile (\<lambda>c. byte c = 32 \<or> byte c = 9) (show_nat 19) = show_nat 19"
    by (auto simp: ct is_digit_def)
  show ?thesis
    by (simp add: scan_lit_def scan_int_def Let_def dw tw strip_sign_digits show_nat_digits digits_val_show
        int64_defs)
qed

text \<open>A stored string is judged by the parameters, the salt and the length it names.\<close>

lemma verify_phc:
  assumes "m < 2 ^ 32" "t < 2 ^ 32" "l < 256"
  shows "verify_password P pw (phc_text m t l salt key) = (case id_key P pw salt t m l (length key) of
    Inl e \<Rightarrow> Inl e | Inr got \<Rightarrow> Inr (got = key))"
proof -
  let ?v = "''v='' @ show_nat 19"
  let ?mtp = "''m='' @ show_nat m @ '',t='' @ show_nat t @ '',p='' @ show_nat l"
  have no36: "CHR ''$'' \<notin> set (show_nat n)" "CHR ''$'' \<notin> set (std_encode b)" for n b
  proof -
    have b36: "byte (CHR ''$'') = 36" by (simp add: byte_def)
    show "CHR ''$'' \<notin> set (show_nat n)"
      using show_nat_digits [of n] by (auto simp: list_all_iff is_digit_def b36)
    show "CHR ''$'' \<notin> set (std_encode b)" using std_encode_bytes b36 by blast
  qed
  have hash: "phc_text m t l salt key = [] @ CHR ''$'' # ''argon2id'' @ CHR ''$'' # ?v @ CHR ''$'' # ?mtp @
      CHR ''$'' # std_encode salt @ CHR ''$'' # std_encode key"
    by (simp add: phc_text_def)
  have parts: "split_on (CHR ''$'') (phc_text m t l salt key) = [[], ''argon2id'', ?v, ?mtp, std_encode salt, std_encode key]"
    unfolding hash
    by (subst split_on_sep, simp, subst split_on_sep, simp, subst split_on_sep, simp add: no36,
        subst split_on_sep, simp add: no36, subst split_on_sep, simp add: no36,
        subst split_on_no_sep, simp add: no36, rule refl)
  obtain n where v: "Option.bind (scan_lit ''v='' ?v) scan_int = Some n" using scan_int_19 by blast
  show ?thesis
    using assms v
    by (simp only: verify_password_def parts list.case scan_mtp_show std_decode_encode)
      (simp add: scan_mtp_show [simplified])
qed

text \<open>Parameters a hash is made with: they fit their fields, and the library derives a key for them.\<close>

definition params_ok :: "argon_params \<Rightarrow> bool" where
  "params_ok ap \<longleftrightarrow> 0 < ap_time ap \<and> ap_time ap < 2 ^ 32 \<and> 0 < ap_threads ap \<and> ap_threads ap < 256 \<and>
     ap_memory ap < 2 ^ 32 \<and> 4 \<le> ap_key_len ap"

definition derives :: "prims \<Rightarrow> string \<Rightarrow> string \<Rightarrow> argon_params \<Rightarrow> string option" where
  "derives P salt pw ap = p_argon2 P pw salt (ap_time ap) (ap_memory ap) (ap_threads ap) (ap_key_len ap)"

lemma password_judged:
  assumes "argon_ok P" "params_ok ap"
  shows "\<exists>h. hash_password P salt pw ap = Inr h \<and>
    verify_password P pw' h = Inr (derives P salt pw' ap = derives P salt pw ap)"
proof -
  have "\<exists>k. derives P salt x ap = Some k \<and> length k = ap_key_len ap" for x
    using assms unfolding argon_ok_def params_ok_def derives_def by blast
  then obtain k k' where "derives P salt pw ap = Some k" "length k = ap_key_len ap" "derives P salt pw' ap = Some k'" by metis
  then show ?thesis using assms(2) by (simp add: derives_def hash_password_def id_key_def verify_phc params_ok_def)
qed

text \<open>C38. A password verifies against its own hash. With at least one pass, one thread and four bytes of key, and parameters
  within the width of their fields, \<open>Hash\<close> returns a string for any salt, it parses back, and \<open>Verify\<close> accepts a second password
  against it exactly when that password derives the same key with the salt and the parameters of the hash. Without a pass or
  a thread the library panics: \<open>Hash\<close> returns nothing, and a string that names such parameters makes \<open>Verify\<close> panic instead of
  refusing it.\<close>
lemma password_verifies:
  assumes "argon_ok P"
  shows "(params_ok ap \<longrightarrow> (\<exists>h. hash_password P salt pw ap = Inr h \<and>
      verify_password P pw' h = Inr (derives P salt pw' ap = derives P salt pw ap))) \<and>
    (ap_time ap = 0 \<or> ap_threads ap = 0 \<longrightarrow> hash_password P salt pw ap = Inl (Text ''panic: argon2'')) \<and>
    ((t = 0 \<or> l = 0) \<and> t < 2 ^ 32 \<and> l < 256 \<and> m < 2 ^ 32 \<longrightarrow>
      verify_password P pw' (phc_text m t l salt key) = Inl (Text ''panic: argon2''))"
  using password_judged [OF assms] assms by (auto simp: argon_ok_def hash_password_def id_key_def verify_phc)

definition toy_argon :: "prims" where
  "toy_argon = plain_prims\<lparr>p_argon2 := (\<lambda>pw s t m l n. if t = 0 \<or> l = 0 then None else Some (take n (pw @ replicate n (mk_byte 0))))\<rparr>"

lemma toy_argon_ok: "argon_ok toy_argon"
  by (auto simp: argon_ok_def toy_argon_def min_def)

lemma toy_hash_judged:
  obtains h where "hash_password toy_argon salt pw default_params = Inr h"
    "verify_password toy_argon pw' h = Inr (derives toy_argon salt pw' default_params = derives toy_argon salt pw default_params)"
proof -
  have "params_ok default_params" by (simp add: params_ok_def default_params_def)
  from password_judged [OF toy_argon_ok this, of salt pw pw'] show thesis using that by blast
qed

lemma password_verifies_witness:
  "(\<exists>h. hash_password toy_argon ''salt'' ''a'' default_params = Inr h \<and> verify_password toy_argon ''a'' h = Inr True) \<and>
   verify_password toy_argon ''b'' (phc_text 19456 0 1 ''salt'' ''key'') = Inl (Text ''panic: argon2'')"
proof -
  have "params_ok default_params" by (simp add: params_ok_def default_params_def)
  with password_verifies [OF toy_argon_ok, of default_params "''salt''" "''a''" "''a''" 1 1 1 "[]"]
    password_verifies [OF toy_argon_ok, of default_params "''salt''" "''a''" "''b''" 0 1 19456 "''key''"] show ?thesis by simp
qed

end
