(* ===== verification/Totp.thy ===== *)
theory Totp
  imports SigToken "HOL-Library.Word"
begin

section \<open>Totp: the second factor\<close>

text \<open>
  \<open>internal/crypto/totp.go\<close> (RFC 6238, SHA-1, 6 digits, 30 s). The counter is a 64 bit word,
  so the step before zero wraps as in the code. HMAC-SHA1 is \<open>p_hmac1\<close>, with 20 bytes of
  output (\<open>hmac1_ok\<close>).
\<close>

definition hmac1_ok :: "prims \<Rightarrow> bool" where
  "hmac1_ok P \<longleftrightarrow> (\<forall>k m. length (p_hmac1 P k m) = 20)"

subsection \<open>Base32 without padding\<close>

definition b32_val :: "char \<Rightarrow> nat option" where
  "b32_val c = (let b = byte c in if 65 \<le> b \<and> b \<le> 90 then Some (b - 65)
     else if 50 \<le> b \<and> b \<le> 55 then Some (b - 24) else None)"

definition b32_char :: "nat \<Rightarrow> char" where
  "b32_char v = mk_byte (if v < 26 then 65 + v else 24 + v)"

fun be_bytes :: "nat \<Rightarrow> nat \<Rightarrow> nat list" where
  "be_bytes 0 v = []"
| "be_bytes (Suc n) v = be_bytes n (v div 256) @ [v mod 256]"

text \<open>A group of up to eight letters; a last group of 1, 3 or 6 letters yields nothing.\<close>

definition b32_group :: "nat list \<Rightarrow> nat list" where
  "b32_group vs = (let l = length vs; n = l * 5 div 8 in
     if l \<in> {2, 4, 5, 7, 8} then be_bytes n (foldl (\<lambda>a v. a * 32 + v) 0 vs div 2 ^ (l * 5 - 8 * n)) else [])"

function b32_groups :: "nat list \<Rightarrow> nat list" where
  "b32_groups vs = (if vs = [] then [] else b32_group (take 8 vs) @ b32_groups (drop 8 vs))"
  by pat_completeness auto
termination by (relation "measure length") auto

declare b32_groups.simps [simp del]

fun b32_vals :: "string \<Rightarrow> nat list option" where
  "b32_vals [] = Some []"
| "b32_vals (c # s) = (case b32_val c of None \<Rightarrow> None | Some v \<Rightarrow> map_option ((#) v) (b32_vals s))"

definition b32_decode :: "string \<Rightarrow> string option" where
  "b32_decode s = map_option (\<lambda>vs. map mk_byte (b32_groups vs))
     (b32_vals (filter (\<lambda>c. byte c \<noteq> 10 \<and> byte c \<noteq> 13) s))"

subsection \<open>Codes\<close>

definition normalize_totp_secret :: "string \<Rightarrow> error + string" where
  "normalize_totp_secret s0 =
    (let s = to_upper (remove_char (CHR ''-'') (remove_char (CHR '' '') s0)) in
     if length s < 16 \<or> length s > 128 then Inl (Text ''totp: secret length out of range'')
     else if b32_decode s = None then Inl (Text ''totp: not valid base32'') else Inr s)"

definition counter_bytes :: "64 word \<Rightarrow> string" where
  "counter_bytes c = map mk_byte (be_bytes 8 (unat c))"

definition pad6 :: "nat \<Rightarrow> string" where
  "pad6 n = replicate (6 - length (show_nat n)) (CHR ''0'') @ show_nat n"

definition truncate_mac :: "string \<Rightarrow> nat" where
  "truncate_mac mac = (let off = byte (last mac) mod 16 in
     (byte (mac ! off) mod 128) * 2 ^ 24 + byte (mac ! (off + 1)) * 2 ^ 16 +
       byte (mac ! (off + 2)) * 2 ^ 8 + byte (mac ! (off + 3)))"

definition totp_at :: "prims \<Rightarrow> string \<Rightarrow> 64 word \<Rightarrow> string option" where
  "totp_at P secret counter = (case b32_decode secret of None \<Rightarrow> None
     | Some key \<Rightarrow> Some (pad6 (truncate_mac (p_hmac1 P key (counter_bytes counter)) mod 1000000)))"

definition totp_counter :: "int \<Rightarrow> 64 word" where
  "totp_counter now = (of_int now :: 64 word) div 30"

text \<open>The loop over the steps \<open>-1, 0, 1\<close>.\<close>

fun totp_loop :: "prims \<Rightarrow> string \<Rightarrow> string \<Rightarrow> 64 word \<Rightarrow> int list \<Rightarrow> bool" where
  "totp_loop P secret code c [] = False"
| "totp_loop P secret code c (d # ds) = (case totp_at P secret (c + of_int d) of
     None \<Rightarrow> False | Some want \<Rightarrow> if want = code then True else totp_loop P secret code c ds)"

definition verify_totp :: "prims \<Rightarrow> string \<Rightarrow> string \<Rightarrow> int \<Rightarrow> bool" where
  "verify_totp P secret code now \<longleftrightarrow>
     length code = 6 \<and> totp_loop P secret code (totp_counter now) [-1, 0, 1]"

definition totp_uri :: "string \<Rightarrow> string \<Rightarrow> string \<Rightarrow> string" where
  "totp_uri secret account issuer = ''otpauth://totp/'' @ issuer @ '':'' @ account @ ''?secret='' @ secret @
     ''&issuer='' @ issuer @ ''&algorithm=SHA1&digits=6&period=30''"

text \<open>\<open>GenerateTOTPSecret\<close> from the 20 bytes it draws: 8 letters for each 5 bytes.\<close>

fun b32_letters :: "nat \<Rightarrow> nat \<Rightarrow> nat list" where
  "b32_letters 0 v = []"
| "b32_letters (Suc n) v = b32_letters n (v div 32) @ [v mod 32]"

definition generate_totp_secret :: "string \<Rightarrow> string" where
  "generate_totp_secret raw = map b32_char (concat (map
     (\<lambda>i. b32_letters 8 (foldl (\<lambda>a b. a * 256 + b) 0 (map byte (take 5 (drop (5 * i) raw))))) [0..<4]))"

subsection \<open>What is accepted\<close>

lemma show_nat_length: "n < 10 ^ k \<Longrightarrow> 0 < k \<Longrightarrow> length (show_nat n) \<le> k"
proof (induction k arbitrary: n)
  case (Suc k)
  show ?case
  proof (cases "n < 10")
    case True
    then show ?thesis by (simp add: show_nat.simps)
  next
    case False
    then have "0 < k" "n div 10 < 10 ^ k" using Suc.prems(1) by (cases k; simp)+
    from Suc.IH [OF this(2,1)] False show ?thesis by (simp add: show_nat.simps [of n])
  qed
qed simp

lemma length_pad6: "n < 1000000 \<Longrightarrow> length (pad6 n) = 6"
  using show_nat_length [of n 6] by (simp add: pad6_def)

lemma totp_at_length: "totp_at P secret c = Some code \<Longrightarrow> length code = 6"
  by (auto simp: totp_at_def length_pad6 split: option.splits)

text \<open>A code is accepted exactly when it is the code of the step before, of or after the
  current one, for a secret that is valid base32; every generated code has six digits, so the
  length check rejects nothing that could match.\<close>
lemma verify_totp_iff:
  "verify_totp P secret code now \<longleftrightarrow>
    Some code \<in> {totp_at P secret (totp_counter now - 1), totp_at P secret (totp_counter now),
      totp_at P secret (totp_counter now + 1)}"
proof (cases "b32_decode secret")
  case None
  then show ?thesis by (simp add: verify_totp_def totp_at_def)
next
  case (Some key)
  obtain a b c where abc: "totp_at P secret (totp_counter now - 1) = Some a"
    "totp_at P secret (totp_counter now) = Some b" "totp_at P secret (totp_counter now + 1) = Some c"
    using Some by (simp add: totp_at_def)
  then have "length a = 6" "length b = 6" "length c = 6" by (auto intro: totp_at_length)
  then show ?thesis by (auto simp: verify_totp_def abc)
qed

end
