(* ===== verification/Config.thy ===== *)
theory Config
  imports GoConv "HOL-Library.AList"
begin

section \<open>Config: the environment read at start-up\<close>

text \<open>
  \<open>internal/config/config.go\<close>. The environment is a function from names to values, the empty
  string for an unset name. \<open>time.ParseDuration\<close> and \<open>net.ParseCIDR\<close> are the arguments
  \<open>parse_dur\<close> (nanoseconds) and \<open>parse_cidr\<close>. \<open>load\<close> refuses to start without complete
  keys; the lemmas say what a configuration that does load guarantees.
\<close>

type_synonym env = "string \<Rightarrow> string"

record kex_conf =
  kc_kid :: string
  kc_seed :: string
  kc_active :: bool

record 'n config =
  c_env :: string
  c_client_addr :: string
  c_admin_addr :: string
  c_metrics_addr :: string
  c_database :: string
  c_redis :: string
  c_sign_keys :: "(string \<times> string) list"
  c_sign_active :: string
  c_kex_keys :: "kex_conf list"
  c_hmac_key :: string
  c_enc_keys :: "(string \<times> string) list"
  c_enc_active :: string
  c_session_ttl :: int
  c_cookie_secure :: bool
  c_init_user :: string
  c_init_password :: string
  c_init_totp :: string
  c_activate_rpm :: int
  c_login_rpm :: int
  c_heartbeat_rpm :: int
  c_bootstrap_rpm :: int
  c_replay_window :: int
  c_skew :: int
  c_proxies :: "'n list"
  c_log_level :: string
  c_tls_cert :: string
  c_tls_key :: string

definition from_env :: "env \<Rightarrow> string \<Rightarrow> string \<Rightarrow> string" where
  "from_env e k dflt = (if e k \<noteq> [] then e k else dflt)"

definition must_env :: "env \<Rightarrow> string \<Rightarrow> string + string" where
  "must_env e k = (if e k = [] then Inl ''config: required env is not set'' else Inr (e k))"

definition dur_env :: "(string \<Rightarrow> int option) \<Rightarrow> env \<Rightarrow> string \<Rightarrow> int \<Rightarrow> int" where
  "dur_env parse_dur e k dflt = (if e k \<noteq> [] then
     (case parse_dur (e k) of Some d \<Rightarrow> d | None \<Rightarrow> dflt) else dflt)"

definition int_env :: "env \<Rightarrow> string \<Rightarrow> int \<Rightarrow> int" where
  "int_env e k dflt = (if e k \<noteq> [] then
     (case parse_int (e k) of Inr n \<Rightarrow> n | Inl _ \<Rightarrow> dflt) else dflt)"

subsection \<open>Key lists\<close>

definition key32 :: "string \<Rightarrow> string option" where
  "key32 s = (case b64_decode s of None \<Rightarrow> None | Some b \<Rightarrow> if length b \<noteq> 32 then None else Some b)"

text \<open>The loop of \<open>parseCardEncKeys\<close>; the state is the map so far and the active kid.\<close>

fun enc_loop :: "string list \<Rightarrow> (string \<times> string) list \<Rightarrow> string \<Rightarrow>
    string + (string \<times> string) list \<times> string" where
  "enc_loop [] out active = Inr (out, active)"
| "enc_loop (item0 # items) out active =
    (let item = trim_space item0 in
     if item = [] then enc_loop items out active
     else (case str_cut (CHR '':'') item of
         None \<Rightarrow> Inl ''config: bad VFT_CARD_ENC_KEYS''
       | Some (kid, rest) \<Rightarrow> (case key32 (trim_suffix1 (CHR ''*'') rest) of
           None \<Rightarrow> Inl ''config: card encryption keys must be 32 bytes base64url''
         | Some b \<Rightarrow> enc_loop items (AList.update kid b out)
             (if has_suffix1 (CHR ''*'') rest \<and> active = [] then kid else active))))"

definition parse_card_enc_keys :: "string \<Rightarrow> string \<Rightarrow> string + (string \<times> string) list \<times> string" where
  "parse_card_enc_keys spec active =
    (case enc_loop (split_on (CHR '','') spec) [] active of Inl e \<Rightarrow> Inl e | Inr (out, act) \<Rightarrow>
       if out = [] then Inl ''config: VFT_CARD_ENC_KEYS is required''
       else if map_of out act = None then Inl ''config: active card encryption key not found''
       else Inr (out, act))"

fun sign_loop :: "string list \<Rightarrow> string + (string \<times> string) list" where
  "sign_loop [] = Inr []"
| "sign_loop (part # parts) =
    (case str_cut (CHR '':'') (trim_space part) of
       None \<Rightarrow> Inl ''config: bad VFT_SIGN_KEYS segment''
     | Some (kid, seed) \<Rightarrow> if kid = [] \<or> seed = [] then Inl ''config: bad VFT_SIGN_KEYS segment''
         else (case key32 seed of None \<Rightarrow> Inl ''config: seed must be 32B base64url''
           | Some raw \<Rightarrow> (case sign_loop parts of Inl e \<Rightarrow> Inl e | Inr ks \<Rightarrow> Inr ((kid, raw) # ks))))"

definition parse_signing_keys :: "string \<Rightarrow> string \<Rightarrow> string + (string \<times> string) list" where
  "parse_signing_keys spec active =
    (if spec = [] then Inl ''config: VFT_SIGN_KEYS required''
     else if active = [] then Inl ''config: VFT_SIGN_ACTIVE_KID required''
     else (case sign_loop (split_on (CHR '','') spec) of Inl e \<Rightarrow> Inl e | Inr keys \<Rightarrow>
       if list_ex (\<lambda>k. fst k = active) keys then Inr keys
       else Inl ''config: active kid not in VFT_SIGN_KEYS''))"

fun kex_loop :: "string list \<Rightarrow> string + kex_conf list" where
  "kex_loop [] = Inr []"
| "kex_loop (part0 # parts) =
    (let part = trim_space part0; active = has_suffix1 (CHR ''*'') part in
     case str_cut (CHR '':'') (trim_suffix1 (CHR ''*'') part) of
       None \<Rightarrow> Inl ''config: bad VFT_KEX_KEYS segment''
     | Some (kid, seed) \<Rightarrow> if kid = [] \<or> seed = [] then Inl ''config: bad VFT_KEX_KEYS segment''
         else (case key32 seed of None \<Rightarrow> Inl ''config: kex seed must be 32B base64url''
           | Some raw \<Rightarrow> (case kex_loop parts of Inl e \<Rightarrow> Inl e
               | Inr ks \<Rightarrow> Inr (\<lparr>kc_kid = kid, kc_seed = raw, kc_active = active\<rparr> # ks))))"

definition parse_kex_keys :: "string \<Rightarrow> string + kex_conf list" where
  "parse_kex_keys spec = (if spec = [] then Inl ''config: VFT_KEX_KEYS required''
     else kex_loop (split_on (CHR '','') spec))"

fun any_active :: "kex_conf list \<Rightarrow> bool" where
  "any_active [] = False"
| "any_active (k # ks) = (if kc_active k then True else any_active ks)"

subsection \<open>Load\<close>

text \<open>The production guards, in the order of the code; \<open>None\<close> passes.\<close>

definition prod_error :: "env \<Rightarrow> string option" where
  "prod_error e =
    (if e ''VFT_SIGNER_PROVIDER'' \<noteq> ''kms'' then Some ''config: prod requires VFT_SIGNER_PROVIDER=kms''
     else if e ''VFT_TRUSTED_PROXIES'' = [] then Some ''config: prod requires VFT_TRUSTED_PROXIES''
     else if (e ''VFT_TLS_CERT'' = [] \<or> e ''VFT_TLS_KEY'' = []) \<and> e ''VFT_TRUSTED_TLS_PROXY'' \<noteq> ''true''
     then Some ''config: prod requires VFT_TLS_CERT/VFT_TLS_KEY or VFT_TRUSTED_TLS_PROXY=true''
     else None)"

definition with_mask :: "string \<Rightarrow> string" where
  "with_mask c = (if CHR ''/'' \<in> set c then c else c @ ''/32'')"

fun proxies :: "(string \<Rightarrow> 'n option) \<Rightarrow> string list \<Rightarrow> string + 'n list" where
  "proxies parse_cidr [] = Inr []"
| "proxies parse_cidr (c # cs) =
    (case parse_cidr (with_mask (trim_space c)) of None \<Rightarrow> Inl ''config: bad VFT_TRUSTED_PROXIES''
     | Some n \<Rightarrow> (case proxies parse_cidr cs of Inl e \<Rightarrow> Inl e | Inr ns \<Rightarrow> Inr (n # ns)))"

definition seconds :: "int \<Rightarrow> int" where "seconds n = n * 1000000000"

definition load :: "(string \<Rightarrow> int option) \<Rightarrow> (string \<Rightarrow> 'n option) \<Rightarrow> env \<Rightarrow> string + 'n config" where
  "load parse_dur parse_cidr e =
    (let envname = from_env e ''VFT_ENV'' ''dev''; is_prod = (envname = ''prod'') in
     if e ''VFT_DATABASE_URL'' = [] \<or> e ''VFT_REDIS_URL'' = [] then
       Inl ''config: VFT_DATABASE_URL and VFT_REDIS_URL are required''
     else case (if is_prod then prod_error e else None) of Some err \<Rightarrow> Inl err | None \<Rightarrow>
     (case parse_signing_keys (e ''VFT_SIGN_KEYS'') (e ''VFT_SIGN_ACTIVE_KID'') of Inl err \<Rightarrow> Inl err
      | Inr sks \<Rightarrow>
     (case parse_kex_keys (e ''VFT_KEX_KEYS'') of Inl err \<Rightarrow> Inl err | Inr kks \<Rightarrow>
       if kks = [] \<or> \<not> any_active kks then Inl ''config: VFT_KEX_KEYS must contain at least one active key''
       else (case must_env e ''VFT_CARD_HMAC_KEY'' of Inl err \<Rightarrow> Inl err | Inr h64 \<Rightarrow>
       (case b64_decode h64 of None \<Rightarrow> Inl ''config: VFT_CARD_HMAC_KEY must be >=32 bytes base64url''
        | Some hk \<Rightarrow>
          if length hk < 32 then Inl ''config: VFT_CARD_HMAC_KEY must be >=32 bytes base64url''
          else (case parse_card_enc_keys (e ''VFT_CARD_ENC_KEYS'') (e ''VFT_CARD_ENC_ACTIVE_KID'') of
              Inl err \<Rightarrow> Inl err
            | Inr (eks, eact) \<Rightarrow>
              (case (if e ''VFT_TRUSTED_PROXIES'' = [] then Inr []
                     else proxies parse_cidr (split_on (CHR '','') (e ''VFT_TRUSTED_PROXIES''))) of
                 Inl err \<Rightarrow> Inl err
               | Inr ns \<Rightarrow> Inr \<lparr>c_env = envname,
                   c_client_addr = from_env e ''VFT_CLIENT_ADDR'' '':8080'',
                   c_admin_addr = from_env e ''VFT_ADMIN_ADDR'' '':8081'',
                   c_metrics_addr = from_env e ''VFT_METRICS_ADDR'' '':9090'',
                   c_database = e ''VFT_DATABASE_URL'', c_redis = e ''VFT_REDIS_URL'',
                   c_sign_keys = sks, c_sign_active = e ''VFT_SIGN_ACTIVE_KID'', c_kex_keys = kks,
                   c_hmac_key = hk, c_enc_keys = eks, c_enc_active = eact,
                   c_session_ttl = dur_env parse_dur e ''VFT_ADMIN_SESSION_TTL'' (seconds 28800),
                   c_cookie_secure = (is_prod \<or> e ''VFT_COOKIE_SECURE'' = ''true''),
                   c_init_user = e ''VFT_INITIAL_ADMIN_USER'',
                   c_init_password = e ''VFT_INITIAL_ADMIN_PASSWORD'',
                   c_init_totp = e ''VFT_INITIAL_ADMIN_TOTP'',
                   c_activate_rpm = int_env e ''VFT_ACTIVATE_RPM'' 10,
                   c_login_rpm = int_env e ''VFT_ADMIN_LOGIN_RPM'' 10,
                   c_heartbeat_rpm = int_env e ''VFT_HEARTBEAT_RPM'' 30,
                   c_bootstrap_rpm = int_env e ''VFT_BOOTSTRAP_RPM'' 60,
                   c_replay_window = dur_env parse_dur e ''VFT_REPLAY_WINDOW'' (seconds 300),
                   c_skew = dur_env parse_dur e ''VFT_MAX_CLOCK_SKEW'' (seconds 120),
                   c_proxies = ns, c_log_level = from_env e ''VFT_LOG_LEVEL'' ''info'',
                   c_tls_cert = e ''VFT_TLS_CERT'', c_tls_key = e ''VFT_TLS_KEY''\<rparr>)))))))"

subsection \<open>What a loaded configuration guarantees\<close>

lemma key32_length: "key32 s = Some b \<Longrightarrow> length b = 32"
  by (auto simp: key32_def split: option.splits if_splits)

lemma set_alist_update: "set (AList.update k v al) \<subseteq> insert (k, v) (set al)"
  by (induction al) auto

lemma enc_loop_keys:
  "enc_loop items out act = Inr (out', act') \<Longrightarrow> \<forall>(k, b) \<in> set out. length b = 32 \<Longrightarrow>
    \<forall>(k, b) \<in> set out'. length b = 32"
proof (induction items arbitrary: out act)
  case (Cons i items)
  have upd: "\<forall>(k, b) \<in> set (AList.update kid b out). length b = 32" if "length b = 32" for kid b
    using Cons.prems(2) that set_alist_update [of kid b out] by fastforce
  show ?case
  proof (cases "trim_space i = []")
    case True
    with Cons show ?thesis by (simp add: Let_def)
  next
    case False
    with Cons.prems(1) obtain kid rest b act1 where
      b: "key32 (trim_suffix1 (CHR ''*'') rest) = Some b" and
      run: "enc_loop items (AList.update kid b out) act1 = Inr (out', act')"
      by (auto simp: Let_def split: option.splits)
    from Cons.IH [OF run upd [OF key32_length [OF b]]] show ?thesis .
  qed
qed simp

lemma sign_loop_keys: "sign_loop parts = Inr ks \<Longrightarrow> \<forall>(k, b) \<in> set ks. k \<noteq> [] \<and> length b = 32"
  by (induction parts arbitrary: ks)
    (fastforce split: option.splits if_splits sum.splits dest!: key32_length)+

lemma kex_loop_keys: "kex_loop parts = Inr ks \<Longrightarrow> \<forall>k \<in> set ks. length (kc_seed k) = 32"
  by (induction parts arbitrary: ks)
    (auto simp: Let_def split: option.splits if_splits sum.splits dest!: key32_length)

lemma any_active_iff: "any_active ks \<longleftrightarrow> (\<exists>k \<in> set ks. kc_active k)"
  by (induction ks) auto

definition keys_complete :: "'n config \<Rightarrow> bool" where
  "keys_complete c \<longleftrightarrow> (\<forall>(k, b) \<in> set (c_sign_keys c). length b = 32) \<and>
     c_sign_active c \<in> fst ` set (c_sign_keys c) \<and>
     (\<forall>k \<in> set (c_kex_keys c). length (kc_seed k) = 32) \<and> (\<exists>k \<in> set (c_kex_keys c). kc_active k) \<and>
     32 \<le> length (c_hmac_key c) \<and> (\<forall>(k, b) \<in> set (c_enc_keys c). length b = 32) \<and>
     c_enc_active c \<in> fst ` set (c_enc_keys c)"

lemma parse_signing_keys_ok:
  "parse_signing_keys spec act = Inr ks \<Longrightarrow> (\<forall>(k, b) \<in> set ks. length b = 32) \<and> act \<in> fst ` set ks"
proof -
  assume "parse_signing_keys spec act = Inr ks"
  then have loop: "sign_loop (split_on (CHR '','') spec) = Inr ks"
    and act: "list_ex (\<lambda>k. fst k = act) ks"
    by (auto simp: parse_signing_keys_def split: if_splits sum.splits)
  from sign_loop_keys [OF loop] act show ?thesis by (auto simp: list_ex_iff)
qed

lemma parse_kex_keys_ok: "parse_kex_keys spec = Inr ks \<Longrightarrow> \<forall>k \<in> set ks. length (kc_seed k) = 32"
  by (auto simp: parse_kex_keys_def dest: kex_loop_keys split: if_splits)

lemma parse_card_enc_keys_ok:
  "parse_card_enc_keys spec act = Inr (out, act') \<Longrightarrow>
    (\<forall>(k, b) \<in> set out. length b = 32) \<and> act' \<in> fst ` set out"
proof -
  assume "parse_card_enc_keys spec act = Inr (out, act')"
  then have loop: "enc_loop (split_on (CHR '','') spec) [] act = Inr (out, act')"
    and act: "map_of out act' \<noteq> None"
    by (auto simp: parse_card_enc_keys_def split: if_splits sum.splits)
  from act have "act' \<in> fst ` set out" by (simp add: map_of_eq_None_iff)
  with enc_loop_keys [OF loop] show ?thesis by simp
qed

lemma proxies_list: "proxies parse_cidr cs = Inr ns \<Longrightarrow> map Some ns = map (\<lambda>p. parse_cidr (with_mask (trim_space p))) cs"
  by (induction cs arbitrary: ns) (auto split: option.splits sum.splits)

text \<open>C39. The server never starts with missing or short keys: every configuration \<open>Load\<close>
  returns has 32 byte signing, exchange and card keys, an active one of each that is in its
  list, and a card HMAC key of at least 32 bytes. Where \<open>VFT_ENV\<close> is \<open>prod\<close> its cookies are secure, the
  signer provider is set to \<open>kms\<close>, there is at least one trusted network, and the server has a certificate and its key or the
  operator has declared that a trusted proxy ends TLS. The trusted networks are in either case those of the list,
  one per entry, in order.\<close>
lemma load_keys_complete:
  assumes "load parse_dur parse_cidr e = Inr c"
  shows "keys_complete c \<and>
    (e ''VFT_ENV'' = ''prod'' \<longrightarrow> c_env c = ''prod'' \<and> c_cookie_secure c \<and> e ''VFT_SIGNER_PROVIDER'' = ''kms'' \<and> c_proxies c \<noteq> [] \<and>
       (c_tls_cert c \<noteq> [] \<and> c_tls_key c \<noteq> [] \<or> e ''VFT_TRUSTED_TLS_PROXY'' = ''true'')) \<and>
    map Some (c_proxies c) = (if e ''VFT_TRUSTED_PROXIES'' = [] then []
      else map (\<lambda>p. parse_cidr (with_mask (trim_space p))) (split_on (CHR '','') (e ''VFT_TRUSTED_PROXIES'')))"
proof -
  let ?n = "from_env e ''VFT_ENV'' ''dev''"
  from assms obtain sks kks h64 hk eks eact ns where
    pe: "?n = ''prod'' \<longrightarrow> prod_error e = None" and
    sk: "parse_signing_keys (e ''VFT_SIGN_KEYS'') (e ''VFT_SIGN_ACTIVE_KID'') = Inr sks" and
    kk: "parse_kex_keys (e ''VFT_KEX_KEYS'') = Inr kks" "any_active kks" and
    hk: "\<not> length hk < 32" and
    ek: "parse_card_enc_keys (e ''VFT_CARD_ENC_KEYS'') (e ''VFT_CARD_ENC_ACTIVE_KID'') = Inr (eks, eact)" and
    ps: "(if e ''VFT_TRUSTED_PROXIES'' = [] then Inr []
       else proxies parse_cidr (split_on (CHR '','') (e ''VFT_TRUSTED_PROXIES''))) = Inr ns" and
    c: "c_sign_keys c = sks" "c_sign_active c = e ''VFT_SIGN_ACTIVE_KID''" "c_kex_keys c = kks"
      "c_hmac_key c = hk" "c_enc_keys c = eks" "c_enc_active c = eact" "c_env c = ?n"
      "c_proxies c = ns" "c_tls_cert c = e ''VFT_TLS_CERT''" "c_tls_key c = e ''VFT_TLS_KEY''"
      "c_cookie_secure c = (?n = ''prod'' \<or> e ''VFT_COOKIE_SECURE'' = ''true'')"
    unfolding load_def Let_def
    by (auto split: if_splits option.splits sum.splits prod.splits)
  have nets: "map Some ns = (if e ''VFT_TRUSTED_PROXIES'' = [] then []
      else map (\<lambda>p. parse_cidr (with_mask (trim_space p))) (split_on (CHR '','') (e ''VFT_TRUSTED_PROXIES'')))"
    using ps by (auto dest: proxies_list split: if_splits)
  from pe have "e ''VFT_ENV'' = ''prod'' \<longrightarrow> e ''VFT_SIGNER_PROVIDER'' = ''kms'' \<and> e ''VFT_TRUSTED_PROXIES'' \<noteq> [] \<and>
      (e ''VFT_TLS_CERT'' \<noteq> [] \<and> e ''VFT_TLS_KEY'' \<noteq> [] \<or> e ''VFT_TRUSTED_TLS_PROXY'' = ''true'')"
    by (auto simp: from_env_def prod_error_def split: if_splits)
  with parse_signing_keys_ok [OF sk] parse_kex_keys_ok [OF kk(1)] kk(2) hk parse_card_enc_keys_ok [OF ek] nets
  show ?thesis unfolding keys_complete_def c any_active_iff by (auto simp: from_env_def)
qed

subsection \<open>A configuration that loads\<close>

lemma b64_alnum:
  assumes "c \<in> set (b64_encode b)"
  shows "48 \<le> byte c \<and> byte c \<le> 57 \<or> 65 \<le> byte c \<and> byte c \<le> 90 \<or> 97 \<le> byte c \<and> byte c \<le> 122 \<or>
    byte c = 45 \<or> byte c = 95"
proof -
  from assms obtain v where "v < 64" "c = b64_char v"
    using b64_encode_sextets [of b] by (auto simp: b64_encode_def)
  then show ?thesis by (auto simp: b64_char_def)
qed

definition zero_key :: string where "zero_key = b64_encode (replicate 32 (mk_byte 0))"

lemma zero_key_decode: "key32 zero_key = Some (replicate 32 (mk_byte 0))"
  by (simp add: key32_def zero_key_def b64_decode_encode)

lemma zero_key_ne: "zero_key \<noteq> []"
  using zero_key_decode by (auto simp: key32_def b64_decode_def)

lemma zero_key_chars: "c \<in> set zero_key \<Longrightarrow> 45 \<le> byte c \<and> byte c \<le> 122 \<and> byte c \<noteq> 58"
  using b64_alnum [of c "replicate 32 (mk_byte 0)"] by (auto simp: zero_key_def)

lemma zero_key_not_in: "CHR '','' \<notin> set zero_key" "CHR '':'' \<notin> set zero_key" "CHR ''*'' \<notin> set zero_key"
proof -
  have "byte (CHR '','') = 44" "byte (CHR '':'') = 58" "byte (CHR ''*'') = 42" by (simp_all add: byte_def)
  then show "CHR '','' \<notin> set zero_key" "CHR '':'' \<notin> set zero_key" "CHR ''*'' \<notin> set zero_key"
    using zero_key_chars by force+
qed

lemma zero_key_word: "trim_space (''k:'' @ zero_key) = ''k:'' @ zero_key"
  "trim_space (''k:'' @ zero_key @ ''*'') = ''k:'' @ zero_key @ ''*''"
proof -
  have "ascii zero_key" "\<forall>c \<in> set zero_key. \<not> is_space (byte c)"
    using zero_key_chars by (force simp: ascii_def list_all_iff is_space_def)+
  moreover have "byte CHR ''k'' = 107" "byte CHR '':'' = 58" "byte CHR ''*'' = 42" by (simp_all add: byte_def)
  ultimately show "trim_space (''k:'' @ zero_key) = ''k:'' @ zero_key"
    "trim_space (''k:'' @ zero_key @ ''*'') = ''k:'' @ zero_key @ ''*''"
    by (intro trim_space_id; auto simp: is_space_def)+
qed

definition demo_env :: env where
  "demo_env k = (if k = ''VFT_DATABASE_URL'' then ''pg'' else if k = ''VFT_REDIS_URL'' then ''redis''
     else if k = ''VFT_SIGN_KEYS'' then ''k:'' @ zero_key else if k = ''VFT_SIGN_ACTIVE_KID'' then ''k''
     else if k = ''VFT_KEX_KEYS'' then ''k:'' @ zero_key @ ''*'' else if k = ''VFT_CARD_HMAC_KEY'' then zero_key
     else if k = ''VFT_CARD_ENC_KEYS'' then ''k:'' @ zero_key @ ''*'' else [])"

lemma last_zero_key: "last zero_key \<noteq> CHR ''*''"
  using zero_key_not_in(3) zero_key_ne last_in_set by metis

lemma demo_parses:
  "parse_signing_keys (''k:'' @ zero_key) ''k'' = Inr [(''k'', replicate 32 (mk_byte 0))]"
  "parse_kex_keys (''k:'' @ zero_key @ ''*'') =
     Inr [\<lparr>kc_kid = ''k'', kc_seed = replicate 32 (mk_byte 0), kc_active = True\<rparr>]"
  "parse_card_enc_keys (''k:'' @ zero_key @ ''*'') [] = Inr ([(''k'', replicate 32 (mk_byte 0))], ''k'')"
proof -
  have sp: "split_on (CHR '','') (''k:'' @ zero_key) = [''k:'' @ zero_key]"
    "split_on (CHR '','') (''k:'' @ zero_key @ ''*'') = [''k:'' @ zero_key @ ''*'']"
    by (rule split_on_no_sep, simp add: zero_key_not_in)+
  have suf: "has_suffix1 (CHR ''*'') (x @ ''*'')" "trim_suffix1 (CHR ''*'') (x @ ''*'') = x" for x
    by (simp_all add: has_suffix1_def trim_suffix1_def butlast_append)
  have cut: "str_cut (CHR '':'') (''k:'' @ x) = Some (''k'', x)" for x by simp
  show "parse_signing_keys (''k:'' @ zero_key) ''k'' = Inr [(''k'', replicate 32 (mk_byte 0))]"
    unfolding parse_signing_keys_def sp
    by (simp only: sign_loop.simps zero_key_word cut option.case prod.case zero_key_decode sum.case) (simp add: zero_key_ne)
  show "parse_kex_keys (''k:'' @ zero_key @ ''*'') =
      Inr [\<lparr>kc_kid = ''k'', kc_seed = replicate 32 (mk_byte 0), kc_active = True\<rparr>]"
    unfolding parse_kex_keys_def sp
    using suf [of "''k:'' @ zero_key"]
    by (simp only: kex_loop.simps zero_key_word Let_def append_assoc cut option.case prod.case zero_key_decode sum.case)
      (simp add: zero_key_ne)
  show "parse_card_enc_keys (''k:'' @ zero_key @ ''*'') [] = Inr ([(''k'', replicate 32 (mk_byte 0))], ''k'')"
    unfolding parse_card_enc_keys_def sp
    by (simp only: enc_loop.simps zero_key_word Let_def cut option.case prod.case suf zero_key_decode sum.case) simp
qed

text \<open>The same in production, behind a proxy that ends TLS.\<close>

definition prod_env :: env where
  "prod_env k = (if k = ''VFT_ENV'' then ''prod'' else if k = ''VFT_SIGNER_PROVIDER'' then ''kms''
     else if k = ''VFT_TRUSTED_PROXIES'' then ''10.0.0.0/8'' else if k = ''VFT_TRUSTED_TLS_PROXY'' then ''true'' else demo_env k)"

lemma load_keys_complete_witness:
  "\<exists>c. load (\<lambda>_. None) Some prod_env = Inr c \<and> keys_complete c \<and> c_cookie_secure c \<and> c_proxies c = [''10.0.0.0/8'']"
proof -
  have dec: "b64_decode zero_key = Some (replicate 32 (mk_byte 0))"
    by (simp add: zero_key_def b64_decode_encode)
  have env: "prod_env ''VFT_DATABASE_URL'' = ''pg''" "prod_env ''VFT_REDIS_URL'' = ''redis''"
    "prod_env ''VFT_SIGN_KEYS'' = ''k:'' @ zero_key" "prod_env ''VFT_SIGN_ACTIVE_KID'' = ''k''"
    "prod_env ''VFT_KEX_KEYS'' = ''k:'' @ zero_key @ ''*''" "prod_env ''VFT_CARD_HMAC_KEY'' = zero_key"
    "prod_env ''VFT_CARD_ENC_KEYS'' = ''k:'' @ zero_key @ ''*''" "prod_env ''VFT_CARD_ENC_ACTIVE_KID'' = []"
    "prod_env ''VFT_ENV'' = ''prod''" "prod_env ''VFT_TRUSTED_PROXIES'' = ''10.0.0.0/8''"
    by (simp_all add: prod_env_def demo_env_def)
  have guards: "prod_error prod_env = None" by (simp add: prod_error_def prod_env_def demo_env_def)
  have trim: "trim_space ''10.0.0.0/8'' = ''10.0.0.0/8''"
    by (rule trim_space_id) (auto simp: ascii_def is_space_def byte_def)
  have nets: "proxies Some (split_on (CHR '','') ''10.0.0.0/8'') = Inr [''10.0.0.0/8'']"
    by (simp add: trim with_mask_def)
  have "\<exists>c. load (\<lambda>_. None) Some prod_env = Inr c"
    unfolding load_def Let_def env demo_parses must_env_def from_env_def nets guards
    by (simp add: dec zero_key_ne)
  then obtain c where c: "load (\<lambda>_. None) Some prod_env = Inr c" ..
  moreover have "map Some (c_proxies c) = map Some [''10.0.0.0/8'']"
    using load_keys_complete [OF c] by (simp add: env trim with_mask_def)
  then have "c_proxies c = [''10.0.0.0/8'']" by (simp only: inj_map_eq_map [OF inj_Some])
  ultimately show ?thesis using load_keys_complete [OF c] by (simp add: env)
qed

end
