(* ===== verification/Services.thy ===== *)
theory Services
  imports CardCode StoreAdmin DeviceSig Envelope Argon2id Totp Config
begin

section \<open>Services: dependencies, card secrets, fingerprints, validation\<close>

text \<open>
  The first part of \<open>internal/service/service.go\<close>: what the services hold, how card texts
  become lookup keys and ciphertexts, how a machine's component digests become one
  fingerprint, and the validation of the activation payload and of version numbers.
\<close>

record svc =
  sv_prims :: prims
  sv_signer :: signer
  sv_kex :: "kex_key list"
  sv_hmac_key :: string
  sv_enc_keys :: "(string \<times> string) list"
  sv_enc_active :: string
  sv_fp_salt :: string
  sv_replay_window :: int
  sv_skew :: int
  sv_session_ttl :: int

definition new_services :: "prims \<Rightarrow> 'n config \<Rightarrow> signer \<Rightarrow> kex_key list \<Rightarrow> svc" where
  "new_services P c sg kex = \<lparr>sv_prims = P, sv_signer = sg, sv_kex = kex,
     sv_hmac_key = c_hmac_key c, sv_enc_keys = c_enc_keys c, sv_enc_active = c_enc_active c,
     sv_fp_salt = p_hkdf P (c_hmac_key c) ''vertify'' ''fingerprint-salt-v1'',
     sv_replay_window = c_replay_window c, sv_skew = c_skew c, sv_session_ttl = c_session_ttl c\<rparr>"

subsection \<open>Card secrets\<close>

definition card_aad :: "string \<Rightarrow> string" where
  "card_aad product_id = ''vertify-card-secret-v1|'' @ product_id"

text \<open>\<open>EncryptCardSecret\<close> with the nonce it draws: ciphertext, nonce, key id.\<close>

definition encrypt_card_secret :: "svc \<Rightarrow> string \<Rightarrow> string \<Rightarrow> string \<Rightarrow> error + string \<times> string \<times> string" where
  "encrypt_card_secret S product_id normalized nonce =
    (case map_of (sv_enc_keys S) (sv_enc_active S) of
       None \<Rightarrow> Inl (Text ''crypto/aes: invalid key size'')
     | Some key \<Rightarrow> if length key \<noteq> 32 then Inl (Text ''crypto/aes: invalid key size'')
         else Inr (p_seal (sv_prims S) alg_gcm key nonce normalized (card_aad product_id), nonce,
           sv_enc_active S))"

definition decrypt_card_secret :: "svc \<Rightarrow> string \<Rightarrow> string \<Rightarrow> string \<Rightarrow> string \<Rightarrow> error + string" where
  "decrypt_card_secret S product_id ct nonce kid =
    (case map_of (sv_enc_keys S) kid of
       None \<Rightarrow> Inl (Text ''unknown card key'')
     | Some key \<Rightarrow> if length key \<noteq> 32 then Inl (Text ''crypto/aes: invalid key size'')
         else (case p_open (sv_prims S) alg_gcm key nonce ct (card_aad product_id) of
             None \<Rightarrow> Inl (Text ''cipher: message authentication failed'')
           | Some pt \<Rightarrow> Inr pt))"

definition aead_ok :: "prims \<Rightarrow> bool" where
  "aead_ok P \<longleftrightarrow> (\<forall>alg key nonce pt aad. p_open P alg key nonce (p_seal P alg key nonce pt aad) aad = Some pt)"

text \<open>A card's ciphertext gives back the card: what is stored under the active key decrypts,
  for the same product, to the normalised card text it was made from.\<close>
lemma card_secret_roundtrip:
  assumes "aead_ok (sv_prims S)" "encrypt_card_secret S product_id norm nonce = Inr (ct, n, kid)"
  shows "decrypt_card_secret S product_id ct n kid = Inr norm"
  using assms
  by (auto simp: encrypt_card_secret_def decrypt_card_secret_def aead_ok_def
      split: option.splits if_splits)

definition demo_svc :: svc where
  "demo_svc = \<lparr>sv_prims = plain_prims,
     sv_signer = local_signer plain_prims [(''k'', ''seed'')] ''k'', sv_kex = [],
     sv_hmac_key = ''hmac'', sv_enc_keys = [(''k'', replicate 32 (mk_byte 0))], sv_enc_active = ''k'',
     sv_fp_salt = ''salt'', sv_replay_window = 300 * second, sv_skew = 120 * second,
     sv_session_ttl = 28800 * second\<rparr>"

definition demo_world :: "db \<Rightarrow> world" where
  "demo_world d = \<lparr>w_db = d, w_cache = empty_redis, w_now = 1700000000 * second,
     w_ids = (\<lambda>n. ''id'' @ show_nat n), w_next_id = 0, w_rand = (\<lambda>n. ''r'' @ show_nat n), w_next_rand = 0,
     w_serial = 1, w_db_faults = [], w_redis_faults = []\<rparr>"

lemma card_secret_roundtrip_witness:
  "decrypt_card_secret demo_svc ''p'' ''CARD'' ''n'' ''k'' = Inr ''CARD''"
  by (rule card_secret_roundtrip [where nonce = "''n''"])
    (simp_all add: demo_svc_def plain_prims_def aead_ok_def encrypt_card_secret_def)

definition card_lookup :: "svc \<Rightarrow> string \<Rightarrow> string" where
  "card_lookup S normalized = card_hmac (p_hmac256 (sv_prims S)) (sv_hmac_key S) normalized"

subsection \<open>Fingerprints\<close>

definition fingerprint_hash :: "svc \<Rightarrow> string list \<Rightarrow> string" where
  "fingerprint_hash S components =
    (let mac = p_sha256 (sv_prims S) (concat (map (\<lambda>d. d @ [mk_byte 0]) components)) in
     b64_encode (p_sha256 (sv_prims S) (''vertify-fp-v1'' @ mac @ sv_fp_salt S)))"

definition is_b64_text :: "string \<Rightarrow> bool" where
  "is_b64_text s \<longleftrightarrow> list_all is_b64 s"

definition valid_device_pub :: "string \<Rightarrow> bool" where
  "valid_device_pub pub \<longleftrightarrow> (length pub = 43 \<or> length pub = 87) \<and> is_b64_text pub"

definition is_hex :: "char \<Rightarrow> bool" where
  "is_hex c \<longleftrightarrow> hex_val c \<noteq> None"

fun components_loop :: "string list \<Rightarrow> string list \<Rightarrow> bool" where
  "components_loop [] seen = True"
| "components_loop (d0 # ds) seen =
    (let d = trim_space d0; key = to_lower_ascii d in
     if \<not> (length d = 64 \<and> list_all is_hex d) then False
     else if key \<in> set seen then False else components_loop ds (key # seen))"

definition valid_components :: "string list \<Rightarrow> bool" where
  "valid_components cs \<longleftrightarrow> \<not> (cs = [] \<or> length cs > 16) \<and> components_loop cs []"

lemma components_loop_iff: "components_loop cs seen \<longleftrightarrow>
    (\<forall>c \<in> set cs. length (trim_space c) = 64 \<and> list_all is_hex (trim_space c)) \<and>
    distinct (map (\<lambda>c. to_lower_ascii (trim_space c)) cs) \<and>
    (\<forall>c \<in> set cs. to_lower_ascii (trim_space c) \<notin> set seen)"
  by (induction cs arbitrary: seen) (auto simp: Let_def, metis image_eqI)

text \<open>The activation payload's components are accepted exactly when there are 1 to 16 of
  them, each is 64 hexadecimal digits once trimmed, and no two are equal up to letter case.\<close>
lemma valid_components_iff:
  "valid_components cs \<longleftrightarrow> 1 \<le> length cs \<and> length cs \<le> 16 \<and>
    list_all (\<lambda>c. length (trim_space c) = 64 \<and> list_all is_hex (trim_space c)) cs \<and>
    distinct (map (\<lambda>c. to_lower_ascii (trim_space c)) cs)"
  by (cases cs) (auto simp: valid_components_def components_loop_iff list_all_iff)

subsection \<open>Versions\<close>

definition version_ok :: "string \<Rightarrow> bool" where
  "version_ok s \<longleftrightarrow> list_all digits1 (split_on (CHR ''.'') s)"

text \<open>The loop of \<open>CompareVersion\<close>: a missing component is 0.\<close>

fun cmp_parts :: "int list \<Rightarrow> int list \<Rightarrow> int" where
  "cmp_parts [] [] = 0"
| "cmp_parts (a # as) [] = (if a < 0 then -1 else if a > 0 then 1 else cmp_parts as [])"
| "cmp_parts [] (b # bs) = (if 0 < b then -1 else if 0 > b then 1 else cmp_parts [] bs)"
| "cmp_parts (a # as) (b # bs) = (if a < b then -1 else if a > b then 1 else cmp_parts as bs)"

definition version_parts :: "string \<Rightarrow> int list" where
  "version_parts s = map atoi_or_zero (split_on (CHR ''.'') s)"

definition compare_version :: "string \<Rightarrow> string \<Rightarrow> int" where
  "compare_version a b =
    (if \<not> version_ok a \<or> \<not> version_ok b then
       (if \<not> version_ok a \<and> version_ok b then -1 else if version_ok a \<and> \<not> version_ok b then 1 else 0)
     else cmp_parts (version_parts a) (version_parts b))"

lemma cmp_parts_range: "cmp_parts xs ys \<in> {-1, 0, 1}"
  by (induction xs ys rule: cmp_parts.induct) auto

lemma cmp_parts_sym: "cmp_parts ys xs = - cmp_parts xs ys"
  by (induction xs ys rule: cmp_parts.induct) auto

text \<open>Reference: the first position where the two sequences, padded with zeros, differ.\<close>

definition part :: "int list \<Rightarrow> nat \<Rightarrow> int" where
  "part xs i = (if i < length xs then xs ! i else 0)"

lemma part_simps: "part (x # xs) 0 = x" "part (x # xs) (Suc i) = part xs i" "part [] i = 0"
  by (simp_all add: part_def)

lemma cmp_parts_eq_0: "cmp_parts xs ys = 0 \<longleftrightarrow> (\<forall>i. part xs i = part ys i)"
proof (induction xs ys rule: cmp_parts.induct)
  case (2 a as)
  have "(\<forall>i. part (a # as) i = part [] i) \<longleftrightarrow> a = 0 \<and> (\<forall>i. part as i = part [] i)"
    by (metis part_simps not0_implies_Suc)
  with 2 show ?case by auto
next
  case (3 b bs)
  have "(\<forall>i. part [] i = part (b # bs) i) \<longleftrightarrow> b = 0 \<and> (\<forall>i. part [] i = part bs i)"
    by (metis part_simps not0_implies_Suc)
  with 3 show ?case by auto
next
  case (4 a as b bs)
  have "(\<forall>i. part (a # as) i = part (b # bs) i) \<longleftrightarrow> a = b \<and> (\<forall>i. part as i = part bs i)"
    by (metis part_simps not0_implies_Suc)
  with 4 show ?case by auto
qed simp

definition parts_less :: "int list \<Rightarrow> int list \<Rightarrow> bool" where
  "parts_less xs ys \<longleftrightarrow> (\<exists>i. part xs i < part ys i \<and> (\<forall>j < i. part xs j = part ys j))"

lemma part_tl: "part (tl xs) i = part xs (Suc i)"
  by (cases xs) (simp_all add: part_def)

lemma parts_less_rec: "parts_less xs ys \<longleftrightarrow>
    part xs 0 < part ys 0 \<or> part xs 0 = part ys 0 \<and> parts_less (tl xs) (tl ys)"
proof -
  have ex: "(\<exists>i. P i) \<longleftrightarrow> P 0 \<or> (\<exists>i. P (Suc i))" for P :: "nat \<Rightarrow> bool"
    by (metis not0_implies_Suc)
  show ?thesis
    unfolding parts_less_def part_tl by (subst ex) (auto simp: All_less_Suc2)
qed

lemma cmp_parts_less: "cmp_parts xs ys = -1 \<longleftrightarrow> parts_less xs ys"
proof (induction xs ys rule: cmp_parts.induct)
  case 1
  then show ?case by (simp add: parts_less_def part_simps)
qed (auto simp: parts_less_rec [of "_ # _"] parts_less_rec [of "[]" "_ # _"] part_simps)

lemma parts_less_trans: "parts_less xs ys \<Longrightarrow> parts_less ys zs \<Longrightarrow> parts_less xs zs"
proof -
  assume "parts_less xs ys" "parts_less ys zs"
  then obtain i j where i: "part xs i < part ys i" "\<forall>k<i. part xs k = part ys k"
    and j: "part ys j < part zs j" "\<forall>k<j. part ys k = part zs k"
    by (auto simp: parts_less_def)
  have "part xs (min i j) < part zs (min i j)"
    using i j by (cases i j rule: linorder_cases) auto
  moreover have "\<forall>k < min i j. part xs k = part zs k" using i(2) j(2) by simp
  ultimately show ?thesis unfolding parts_less_def by blast
qed



end
