(* ===== verification/Replay.thy ===== *)
theory Replay
  imports Services
begin

section \<open>Replay: risk records and the replay checks\<close>

text \<open>
  \<open>internal/service/risk.go\<close> and the two replay checks of \<open>heartbeat.go\<close>. A risk record that
  cannot be written is dropped, so recording never fails. The activation check insists on
  Redis; the check for a bound device falls back to the sequence number in the database when
  Redis fails. The lemmas show that a signed request which passed the activation check can
  never pass it again while the store keeps its nonce entry, because the entry outlives the
  window in which the request's time stamp is accepted.
\<close>

subsection \<open>Risk\<close>

definition action_for :: "string \<Rightarrow> string \<Rightarrow> string" where
  "action_for kind severity =
    (if kind = ''replay'' \<or> kind = ''sig_fail'' \<or> kind = ''seq_regression'' then ''blocked''
     else if severity = ''critical'' then ''banned'' else if severity = ''high'' then ''throttled''
     else ''logged'')"

definition record_risk :: "string \<Rightarrow> string \<Rightarrow> string \<Rightarrow> string \<Rightarrow> detail \<Rightarrow> unit srv" where
  "record_risk kind severity subject text det =
     ignoreM (insert_risk_event kind severity subject (action_for kind severity) ((''text'', JStr text) # det))"

definition enum_threshold :: int where "enum_threshold = 20"

definition card_failure :: "string \<Rightarrow> bool srv" where
  "card_failure ip =
    bindM (tryM (redis_call (\<lambda>t. incr t (''enum:'' @ ip) 600))) (\<lambda>r. case r of
      Inl _ \<Rightarrow> retM False
    | Inr n \<Rightarrow> seqM
        (if n = enum_threshold then record_risk ''enum_burst'' ''high'' ip [] [(''count'', JInt n)] else retM ())
        (retM (enum_threshold < n)))"

definition user_signup_burst :: "string \<Rightarrow> bool srv" where
  "user_signup_burst ip =
    bindM (tryM (redis_call (\<lambda>t. incr t (''signup:'' @ ip) 3600))) (\<lambda>r. case r of
      Inl _ \<Rightarrow> retM False
    | Inr n \<Rightarrow> seqM
        (if n = 10 then record_risk ''signup_burst'' ''medium'' ip [] [(''count'', JInt n)] else retM ())
        (retM (10 < n)))"

subsection \<open>The replay checks\<close>

text \<open>\<open>ts < now.Add(-skew).Unix() || ts > now.Add(skew).Unix()\<close>.\<close>

definition stale :: "time \<Rightarrow> int \<Rightarrow> int \<Rightarrow> bool" where
  "stale now skew ts \<longleftrightarrow> ts < unix (now - skew) \<or> unix (now + skew) < ts"

definition check_activation_replay :: "svc \<Rightarrow> device_sig \<Rightarrow> string \<Rightarrow> string \<Rightarrow> unit srv" where
  "check_activation_replay S ds pub ip =
    bindM go_now (\<lambda>now.
    if stale now (sv_skew S) (ds_ts ds) then throwM (Dom ErrReplayDetected)
    else bindM (tryM (redis_call (\<lambda>t. consume_nonce t ''activate'' (ds_nonce ds)
        (sv_replay_window S + sv_skew S)))) (\<lambda>r. case r of
      Inl e \<Rightarrow> seqM (record_risk ''cache_error'' ''high'' (''activate:'' @ pub) ''redis'' [])
        (throwM (Dom ErrRateLimited))
    | Inr ok \<Rightarrow>
      if \<not> ok then seqM (record_risk ''replay'' ''high'' (''activate:'' @ pub) [] [(''ip'', JStr ip)])
        (throwM (Dom ErrReplayDetected))
      else bindM (tryM (redis_call (\<lambda>t. check_seq t (''activate:'' @ pub) (ds_seq ds)
          (sv_replay_window S * 10)))) (\<lambda>q. case q of
        Inl e \<Rightarrow> seqM (record_risk ''cache_error'' ''high'' (''activate:'' @ pub) ''redis'' [])
          (throwM (Dom ErrRateLimited))
      | Inr (good, known) \<Rightarrow> if \<not> good then throwM (Dom ErrSeqRegression) else retM ())))"

text \<open>The fallback on the database's \<open>last_seq\<close>.\<close>

definition seq_fallback :: "device \<Rightarrow> device_sig \<Rightarrow> unit srv" where
  "seq_fallback dev ds =
    bindM (accept_device_seq (dv_id dev) (ds_seq ds)) (\<lambda>accepted.
      if accepted then retM ()
      else seqM (record_risk ''seq_regression'' ''high'' (dv_id dev) [] [(''seq'', JInt (ds_seq ds))])
        (throwM (Dom ErrSeqRegression)))"

definition check_seq_step :: "svc \<Rightarrow> device \<Rightarrow> device_sig \<Rightarrow> unit srv" where
  "check_seq_step S dev ds =
    bindM (tryM (redis_call (\<lambda>t. check_seq t (dv_id dev) (ds_seq ds) (sv_replay_window S * 10)))) (\<lambda>q.
      case q of
        Inl e \<Rightarrow> seq_fallback dev ds
      | Inr (good, known) \<Rightarrow>
          if \<not> known then seq_fallback dev ds
          else if good then retM ()
          else seqM (record_risk ''seq_regression'' ''high'' (dv_id dev) [] [(''seq'', JInt (ds_seq ds))])
            (throwM (Dom ErrSeqRegression)))"

definition check_replay :: "svc \<Rightarrow> device \<Rightarrow> device_sig \<Rightarrow> string \<Rightarrow> string \<Rightarrow> unit srv" where
  "check_replay S dev ds ip scope =
    bindM go_now (\<lambda>now.
    if stale now (sv_skew S) (ds_ts ds) then
      seqM (record_risk ''stale_timestamp'' ''medium'' (dv_id dev) [] [(''ts'', JInt (ds_ts ds)), (''ip'', JStr ip)])
        (throwM (Dom ErrReplayDetected))
    else bindM (tryM (redis_call (\<lambda>t. consume_nonce t scope (ds_nonce ds)
        (sv_replay_window S + sv_skew S)))) (\<lambda>r. case r of
      Inl e \<Rightarrow> seqM (record_risk ''cache_error'' ''high'' (dv_id dev) ''redis'' [])
        (if scope = ''activate'' then throwM (Dom ErrRateLimited) else check_seq_step S dev ds)
    | Inr ok \<Rightarrow>
      if \<not> ok then seqM (record_risk ''replay'' ''high'' (dv_id dev) [] [(''scope'', JStr scope), (''ip'', JStr ip)])
        (throwM (Dom ErrReplayDetected))
      else check_seq_step S dev ds))"

subsection \<open>A passed request cannot pass again\<close>

lemma redis_call_Inr:
  "redis_call f w = (Inr y, w') \<Longrightarrow> (\<exists>fs. w' = w\<lparr>w_redis_faults := fs, w_cache := snd (f (now_ms w) (w_cache w))\<rparr>) \<and>
    y = fst (f (now_ms w) (w_cache w))"
  by (auto simp: redis_call_def Let_def split: prod.splits fault.splits)

lemma tryM_eq: "tryM m s = (r, t) \<longleftrightarrow> (\<exists>q. m s = (q, t) \<and> r = Inr q)"
  by (auto simp: tryM_def split: prod.splits)

lemma stale_window:
  assumes "\<not> stale t skew ts" "\<not> stale t' skew ts" "skew + second + 1000000 \<le> window" "t \<le> t'"
  shows "t' < t + (window + skew) - 1000000"
proof -
  from assms(1,2) have "unix (t' - skew) \<le> unix (t + skew)" by (auto simp: stale_def)
  then have "(t' - skew) div second \<le> (t + skew) div second" by (simp add: unix_def)
  then have "t' - skew < t + skew + second"
    by (simp add: second_def)
  with assms(3) show ?thesis by simp
qed

definition nonce_entry :: "world \<Rightarrow> string \<Rightarrow> string \<Rightarrow> (rval \<times> int option) option" where
  "nonce_entry w scope nonce = r_vals (w_cache w) (nonce_key scope nonce)"

lemma consume_nonce_True:
  "fst (consume_nonce t scope n ttl r) \<Longrightarrow> r_vals (snd (consume_nonce t scope n ttl r)) (nonce_key scope n) =
    Some (VNum 1, expiry t ttl)"
  by (auto simp: consume_nonce_def r_set_def split: option.splits)

lemma consume_nonce_live:
  "r_vals r (nonce_key scope n) = Some (v, e) \<Longrightarrow> live_at t e \<Longrightarrow> \<not> fst (consume_nonce t scope n ttl r)"
  by (simp add: consume_nonce_def r_get_def)

lemma nonce_key_not_seq: "nonce_key scope n \<noteq> seq_key d"
  by (simp add: nonce_key_def seq_key_def)

lemma check_seq_nonce_key: "r_vals (snd (check_seq t d q ttl r)) (nonce_key scope n) = r_vals r (nonce_key scope n)"
  using nonce_key_not_seq [of scope n d]
  by (auto simp: check_seq_def seq_script_def Let_def r_set_def split: prod.splits)

text \<open>What a passed activation check has done.\<close>

lemma check_activation_replay_passed:
  assumes "check_activation_replay S ds pub ip w = (Inr (), w')"
  shows "\<not> stale (w_now w) (sv_skew S) (ds_ts ds) \<and>
    nonce_entry w' ''activate'' (ds_nonce ds) =
      Some (VNum 1, expiry (now_ms w) (sv_replay_window S + sv_skew S)) \<and>
    fst (consume_nonce (now_ms w) ''activate'' (ds_nonce ds) (sv_replay_window S + sv_skew S) (w_cache w))"
proof -
  let ?ttl = "sv_replay_window S + sv_skew S"
  obtain r1 w1 where r1: "redis_call (\<lambda>t. consume_nonce t ''activate'' (ds_nonce ds) ?ttl) w = (r1, w1)"
    by fastforce
  obtain r2 w2 where r2: "redis_call (\<lambda>t. check_seq t (''activate:'' @ pub) (ds_seq ds)
      (sv_replay_window S * 10)) w1 = (r2, w2)" by fastforce
  have run: "bindM go_now f w = f (w_now w) w" "bindM (tryM m) g u = (case m u of (q, u') \<Rightarrow> g q u')"
    for f :: "time \<Rightarrow> unit srv" and m :: "'b srv" and g :: "error + 'b \<Rightarrow> unit srv" and u
    by (simp_all add: go_now_def mdefs split: prod.splits)
  have risk: "seqM (record_risk a b c d e) (throwM x) u \<noteq> (Inr (), u')" for a b c d e x u u'
    by (simp add: record_risk_def mdefs)
  have fresh: "\<not> stale (w_now w) (sv_skew S) (ds_ts ds)"
    using assms by (auto simp: check_activation_replay_def run throwM_eq_iff)
  have c1: "redis_call (\<lambda>t. consume_nonce t ''activate'' (ds_nonce ds) ?ttl) w = (Inr True, w1)"
    using assms fresh r1 risk
    by (cases r1) (auto simp: check_activation_replay_def run split: if_splits)
  with r1 have r1T: "r1 = Inr True" by simp
  have w': "w' = w2 \<and> (\<exists>x. r2 = Inr x)"
    using assms fresh r1 r2 risk
    by (cases r2) (auto simp: check_activation_replay_def run r1T throwM_eq_iff retM_eq_iff split: if_splits prod.splits)
  then obtain x where c2: "redis_call (\<lambda>t. check_seq t (''activate:'' @ pub) (ds_seq ds)
      (sv_replay_window S * 10)) w1 = (Inr x, w2)" using r2 by auto
  note n = redis_call_Inr [OF c1]
  have e1: "nonce_entry w1 ''activate'' (ds_nonce ds) = Some (VNum 1, expiry (now_ms w) ?ttl)"
    using n by (auto simp: nonce_entry_def consume_nonce_True)
  have "nonce_entry w2 ''activate'' (ds_nonce ds) = nonce_entry w1 ''activate'' (ds_nonce ds)"
    using redis_call_Inr [OF c2] by (auto simp: nonce_entry_def check_seq_nonce_key)
  with fresh e1 n w' show ?thesis by simp
qed

text \<open>C24. A signed activation is good once: after a run of \<open>checkActivationReplay\<close> that passed,
  no later run for a signature with the same nonce and time stamp passes, on any later state in
  which the nonce's entry is still stored (whatever else has changed), provided the replay
  window exceeds the clock skew by a second and a millisecond, as the defaults do.\<close>
lemma activation_request_good_once:
  assumes "check_activation_replay S ds pub ip w = (Inr (), w')"
    and "sv_skew S + second + 1000000 \<le> sv_replay_window S" "0 \<le> sv_skew S"
    and "w_now w \<le> w_now v" "nonce_entry v ''activate'' (ds_nonce ds) = nonce_entry w' ''activate'' (ds_nonce ds)"
    and "ds_nonce ds' = ds_nonce ds" "ds_ts ds' = ds_ts ds"
  shows "fst (check_activation_replay S ds' pub' ip' v) \<noteq> Inr ()"
proof
  let ?ttl = "sv_replay_window S + sv_skew S"
  assume "fst (check_activation_replay S ds' pub' ip' v) = Inr ()"
  then obtain v' where run: "check_activation_replay S ds' pub' ip' v = (Inr (), v')"
    by (metis prod.collapse)
  note p = check_activation_replay_passed [OF assms(1)] and p' = check_activation_replay_passed [OF run]
  have near: "w_now v < w_now w + ?ttl - 1000000"
    using stale_window [of "w_now w" "sv_skew S" "ds_ts ds" "w_now v" "sv_replay_window S"] p p' assms(2,4,7)
    by simp
  have ttl: "1000000 \<le> ?ttl" using assms(2,3) by (simp add: second_def)
  have "now_ms v \<le> now_ms w + ?ttl div 1000000"
    using near by (simp add: now_ms_def)
  then have "live_at (now_ms v) (expiry (now_ms w) ?ttl)"
    using ttl by (simp add: live_at_def expiry_def ttl_ms_def)
  moreover have "r_vals (w_cache v) (nonce_key ''activate'' (ds_nonce ds')) =
      Some (VNum 1, expiry (now_ms w) ?ttl)"
    using p assms(5,6) by (simp add: nonce_entry_def)
  ultimately have "\<not> fst (consume_nonce (now_ms v) ''activate'' (ds_nonce ds') ?ttl (w_cache v))"
    by (rule consume_nonce_live [rotated])
  with p' show False by simp
qed

lemma activation_request_good_once_witness:
  "\<exists>ds w' v. check_activation_replay demo_svc ds ''p'' ''i'' (demo_world empty_db) = (Inr (), w') \<and>
     w_now v = w_now (demo_world empty_db) + 10 * second \<and>
     fst (check_activation_replay demo_svc ds ''p'' ''i'' v) \<noteq> Inr ()"
proof -
  let ?ds = "\<lparr>ds_pub = ''p'', ds_ts = 1700000000, ds_nonce = ''n'', ds_seq = 1, ds_sig = ''s''\<rparr>"
  let ?w = "demo_world empty_db"
  have cfg: "sv_skew demo_svc + second + 1000000 \<le> sv_replay_window demo_svc" "0 \<le> sv_skew demo_svc"
    by (simp_all add: demo_svc_def second_def)
  have "fst (check_activation_replay demo_svc ?ds ''p'' ''i'' ?w) = Inr ()"
    by (simp add: check_activation_replay_def go_now_def mdefs demo_svc_def demo_world_def stale_def
        unix_def second_def redis_call_def consume_nonce_def r_get_def empty_redis_def r_set_def
        check_seq_def seq_script_def seq_cur_def lua_num_small nonce_key_not_seq [symmetric] Let_def
        seq_key_def nonce_key_def)
  then obtain w' where run: "check_activation_replay demo_svc ?ds ''p'' ''i'' ?w = (Inr (), w')"
    by (metis prod.collapse)
  let ?v = "w'\<lparr>w_now := w_now ?w + 10 * second\<rparr>"
  have "fst (check_activation_replay demo_svc ?ds ''p'' ''i'' ?v) \<noteq> Inr ()"
    by (rule activation_request_good_once [OF run cfg]) (simp_all add: nonce_entry_def second_def)
  with run show ?thesis by (intro exI [of _ ?ds] exI [of _ w'] exI [of _ ?v]) simp
qed

end
