(* ===== verification/Activation.thy ===== *)
theory Activation
  imports Replay
begin

section \<open>Activation\<close>

text \<open>
  \<open>Activate\<close> of \<open>internal/service/service.go\<close>, split where the code branches: \<open>open_request\<close>
  (envelope, payload, signature), \<open>activate_tx\<close> (the transaction: \<open>activate_fresh\<close> for an unused
  card, \<open>activate_again\<close> for a machine already bound, \<open>activate_device\<close> for a further machine),
  and the seat the device takes afterwards.
\<close>

subsection \<open>The payload\<close>

record activate_payload =
  ap_card :: string
  ap_components :: "string list"
  ap_device_pub :: string
  ap_kty :: string
  ap_trust :: string
  ap_version :: string
  ap_extra :: "(string \<times> string) list"

definition no_payload :: activate_payload where
  "no_payload = \<lparr>ap_card = [], ap_components = [], ap_device_pub = [], ap_kty = [], ap_trust = [],
     ap_version = [], ap_extra = []\<rparr>"

definition payload_fields :: "activate_payload js_field list" where
  "payload_fields = [js_string ''card'' (\<lambda>x. ap_card_update (\<lambda>_. x)),
     js_strings ''components'' (\<lambda>x. ap_components_update (\<lambda>_. x)),
     js_string ''device_pub'' (\<lambda>x. ap_device_pub_update (\<lambda>_. x)),
     js_string ''pub_kty'' (\<lambda>x. ap_kty_update (\<lambda>_. x)),
     js_string ''trust_level'' (\<lambda>x. ap_trust_update (\<lambda>_. x)),
     js_string ''client_version'' (\<lambda>x. ap_version_update (\<lambda>_. x)),
     js_map ''extra'' (\<lambda>x. ap_extra_update (\<lambda>_. x))]"

definition normalize_payload :: "activate_payload \<Rightarrow> activate_payload" where
  "normalize_payload p = p\<lparr>
     ap_trust := (if ap_trust p \<noteq> ''tpm'' \<and> ap_trust p \<noteq> ''software'' then ''software'' else ap_trust p),
     ap_kty := (if ap_kty p \<noteq> ''p256'' then ''ed25519'' else ap_kty p)\<rparr>"

record activation_result =
  ar_license :: string
  ar_product_code :: string
  ar_device :: string
  ar_claims :: claims
  ar_plan_code :: string
  ar_features :: "string list"
  ar_heartbeat :: int
  ar_lease_ttl :: int
  ar_grace :: int
  ar_concurrent :: int
  ar_expiry :: "time option"
  ar_reactivated :: bool

fun map_card_err :: "card_status \<Rightarrow> error" where
  "map_card_err CardFrozen = Dom ErrCardFrozen"
| "map_card_err CardRevoked = Dom ErrCardRevoked"
| "map_card_err CardVoided = Dom ErrCardVoided"
| "map_card_err CardDepleted = Dom ErrCardDepleted"
| "map_card_err _ = Dom ErrCardNotUsable"

fun map_license_err :: "license_status \<Rightarrow> error" where
  "map_license_err LicenseFrozen = Dom ErrLicenseFrozen"
| "map_license_err LicenseRevoked = Dom ErrLicenseRevoked"
| "map_license_err LicenseVoided = Dom ErrLicenseVoided"
| "map_license_err _ = Dom ErrLicenseRevoked"

definition component_map :: "string list \<Rightarrow> detail" where
  "component_map cs = map (\<lambda>(i, c). (show_int (int i), JStr c)) (List.enumerate 0 cs)"

definition expired_at :: "time \<Rightarrow> time option \<Rightarrow> bool" where
  "expired_at now e = (case e of None \<Rightarrow> False | Some t \<Rightarrow> t < now)"

subsection \<open>Before the transaction\<close>

definition liftE :: "error + 'a \<Rightarrow> 'a srv" where
  "liftE r = (case r of Inl e \<Rightarrow> throwM e | Inr x \<Rightarrow> retM x)"

text \<open>\<open>if err == store.ErrNoRows { return e }\<close>.\<close>

definition or_no_rows :: "error \<Rightarrow> 'a srv \<Rightarrow> 'a srv" where
  "or_no_rows e m = mapErrM (\<lambda>x. if x = Store ErrNoRows then e else x) m"

text \<open>\<open>if banned, _ := IsBanned(..); banned { return ErrBanned }\<close>: a failed query is not a ban.\<close>

definition refuse_banned :: "string \<Rightarrow> string \<Rightarrow> unit srv" where
  "refuse_banned kind val = bindM (tryM (is_banned kind val))
     (\<lambda>r. guardM (r \<noteq> Inr True) (Dom ErrBanned))"

definition open_request :: "svc \<Rightarrow> string \<Rightarrow> device_sig option \<Rightarrow> error + activate_payload \<times> device_sig" where
  "open_request S body sig =
    (case open_envelope (sv_prims S) body [] (sv_kex S) (aad_context ''activate'') of
       Inl e \<Rightarrow> Inl e
     | Inr pt \<Rightarrow> (case unmarshal_strict payload_fields pt no_payload of (ok, p0) \<Rightarrow>
        if \<not> ok then Inl (Dom ErrCardInvalidFormat)
        else if ap_card p0 = [] \<or> \<not> valid_device_pub (ap_device_pub p0) \<or>
            \<not> valid_components (ap_components p0) then Inl (Dom ErrCardInvalidFormat)
        else let p = normalize_payload p0 in
          (case sig of None \<Rightarrow> Inl (Dom ErrBadSignature)
           | Some ds \<Rightarrow>
             if \<not> verify_pub (sv_prims S) ds (ap_device_pub p) (ap_kty p)
                 (ds_message (sv_prims S) ds ''POST'' ''/v1/activate'' body)
             then Inl (Dom ErrBadSignature) else Inr (p, ds))))"

subsection \<open>The transaction\<close>

definition build_result :: "license \<Rightarrow> device \<Rightarrow> plan \<Rightarrow> product \<Rightarrow> bool \<Rightarrow> activation_result srv" where
  "build_result lic dev pl pr again =
    bindM random_token (\<lambda>jti. bindM go_now (\<lambda>now.
      retM \<lparr>ar_license = li_id lic, ar_product_code = pr_code pr, ar_device = dv_id dev,
        ar_claims = \<lparr>lc_typ = ''lease'', lc_kid = [], lc_jti = jti, lc_lic = li_id lic, lc_prod = pr_code pr,
          lc_dev = dv_id dev, lc_feat = pl_features pl, lc_iat = unix now,
          lc_exp = unix now + pl_lease_ttl pl,
          lc_lex = (case li_expires lic of None \<Rightarrow> 0 | Some e \<Rightarrow> unix e),
          lc_pol = li_policy lic, lc_hbi = pl_heartbeat pl, lc_grace = pl_grace pl,
          lc_status = ''active'', lc_min_version = pl_min_version pl, lc_nonce = []\<rparr>,
        ar_plan_code = pl_code pl, ar_features = pl_features pl, ar_heartbeat = pl_heartbeat pl,
        ar_lease_ttl = pl_lease_ttl pl, ar_grace = pl_grace pl, ar_concurrent = pl_concurrent pl,
        ar_expiry = li_expires lic, ar_reactivated = again\<rparr>))"

text \<open>The term of a fresh licence: its uses and its expiry, by the kind of plan.\<close>

definition fresh_term :: "time \<Rightarrow> card \<Rightarrow> plan \<Rightarrow> error + int option \<times> time option" where
  "fresh_term now c pl =
    (if pl_kind pl = ''duration'' then Inr (None, Some (now + pl_days pl * day))
     else if pl_kind pl = ''fixed'' then
       (let t = cd_created c + pl_fixed_days pl * day in
        if t < now then Inl (Dom ErrCardNotUsable) else Inr (None, Some t))
     else if pl_kind pl = ''uses'' then Inr (Some (pl_uses pl), None) else Inr (None, None))"

definition new_license :: "card \<Rightarrow> int option \<Rightarrow> time option \<Rightarrow> license" where
  "new_license c uses exp = \<lparr>li_id = [], li_product = cd_product c, li_plan = cd_plan c,
     li_agent = cd_agent c, li_card = cd_id c, li_status = LicenseActive, li_uses = uses,
     li_activated = 0, li_expires = exp, li_policy = 0, li_note = None, li_created = 0, li_updated = 0\<rparr>"

definition new_device :: "string \<Rightarrow> string \<Rightarrow> activate_payload \<Rightarrow> string \<Rightarrow> device" where
  "new_device lic fp p ip = \<lparr>dv_id = [], dv_license = lic, dv_fp = fp, dv_pub = ap_device_pub p,
     dv_kty = ap_kty p, dv_trust = ap_trust p, dv_hw = component_map (ap_components p),
     dv_status = DeviceActive, dv_bound = 0, dv_unbound = None, dv_unbound_by = None,
     dv_heartbeat = None, dv_ip = str_opt ip, dv_version = str_opt (ap_version p), dv_seq = 0\<rparr>"

text \<open>A plan of uses spends one on the first device, and depletes its card with the last one.\<close>

definition first_use :: "card \<Rightarrow> plan \<Rightarrow> license \<Rightarrow> license srv" where
  "first_use c pl lic =
    (if pl_kind pl = ''uses'' then
       bindM (consume_license_use (li_id lic)) (\<lambda>left.
         seqM (if left = 0 then set_card_status (cd_id c) CardDepleted else retM ())
           (retM (lic\<lparr>li_uses := Some left\<rparr>)))
     else retM lic)"

definition activate_fresh :: "time \<Rightarrow> card \<Rightarrow> plan \<Rightarrow> product \<Rightarrow> activate_payload \<Rightarrow> string \<Rightarrow> string \<Rightarrow> string \<Rightarrow>
    activation_result srv" where
  "activate_fresh now c pl pr p fp ip req =
    (if cd_kind c \<noteq> ''license'' then throwM (Dom ErrCardNotUsable)
     else bindM (liftE (fresh_term now c pl)) (\<lambda>(uses, exp).
      bindM (create_license (new_license c uses exp)) (\<lambda>lic0.
      bindM (first_use c pl lic0) (\<lambda>lic.
      bindM (create_device (new_device (li_id lic) fp p ip)) (\<lambda>dev.
      seqM (set_card_activated (cd_id c) (li_id lic) now)
      (seqM (insert_license_event (li_id lic) ''activated'' ''system'' req
        [(''card_prefix'', JStr (cd_prefix c)), (''device_id'', JStr (dv_id dev)), (''trust'', JStr (ap_trust p))])
      (build_result lic dev pl pr False)))))))"

definition activate_again :: "card \<Rightarrow> license \<Rightarrow> device \<Rightarrow> plan \<Rightarrow> product \<Rightarrow> activate_payload \<Rightarrow> string \<Rightarrow>
    activation_result srv" where
  "activate_again c lic dev pl pr p ip =
    bindM (if dv_pub dev \<noteq> ap_device_pub p \<or> dv_kty dev \<noteq> ap_kty p then
        seqM (rotate_device_pub (dv_id dev) (ap_device_pub p) (ap_kty p) (ap_trust p))
          (retM (dev\<lparr>dv_pub := ap_device_pub p, dv_kty := ap_kty p\<rparr>))
      else retM dev) (\<lambda>dev'.
    seqM (insert_activation (li_id lic) (cd_id c) (dv_id dev') ''reactivation'' ip)
      (build_result lic dev' pl pr True))"

definition activate_device :: "card \<Rightarrow> license \<Rightarrow> plan \<Rightarrow> product \<Rightarrow> activate_payload \<Rightarrow> string \<Rightarrow> string \<Rightarrow> string \<Rightarrow>
    activation_result srv" where
  "activate_device c lic pl pr p fp ip req =
    bindM (get_license (li_id lic)) (\<lambda>_.
    bindM (count_active_devices (li_id lic)) (\<lambda>n.
    if n \<ge> pl_devices pl then throwM (Dom ErrDeviceLimit)
    else seqM (if pl_kind pl = ''uses'' then
          mapErrM (\<lambda>_. Dom ErrCardDepleted) (bindM (consume_license_use (li_id lic)) (\<lambda>_. retM ()))
        else retM ())
      (bindM (create_device (new_device (li_id lic) fp p ip)) (\<lambda>dev.
      seqM (insert_activation (li_id lic) (cd_id c) (dv_id dev) ''rebind'' ip)
      (seqM (insert_license_event (li_id lic) ''device_bound'' ''system'' req
        [(''device_id'', JStr (dv_id dev)), (''active_devices'', JInt (n + 1)), (''limit'', JInt (pl_devices pl))])
      (build_result lic dev pl pr False))))))"

definition activate_bound :: "time \<Rightarrow> card \<Rightarrow> plan \<Rightarrow> product \<Rightarrow> activate_payload \<Rightarrow> string \<Rightarrow> string \<Rightarrow> string \<Rightarrow>
    activation_result srv" where
  "activate_bound now c pl pr p fp ip req =
    (case cd_license c of None \<Rightarrow> throwM (Text ''panic: nil card.LicenseID'')
     | Some lid \<Rightarrow>
      bindM (get_license lid) (\<lambda>lic.
      if li_status lic \<noteq> LicenseActive then throwM (map_license_err (li_status lic))
      else if expired_at now (li_expires lic) then throwM (Dom ErrLicenseExpired)
      else bindM (tryM (get_device_by_fingerprint (li_id lic) fp)) (\<lambda>r. case r of
          Inr dev \<Rightarrow> activate_again c lic dev pl pr p ip
        | Inl e \<Rightarrow> if e \<noteq> Store ErrNoRows then throwM e
            else activate_device c lic pl pr p fp ip req)))"

definition activate_tx :: "svc \<Rightarrow> time \<Rightarrow> activate_payload \<Rightarrow> string \<Rightarrow> string \<Rightarrow> string \<Rightarrow> string \<Rightarrow>
    activation_result srv" where
  "activate_tx S now p lookup fp ip req =
    bindM (or_no_rows (Dom ErrCardNotFound) (get_card_by_lookup lookup)) (\<lambda>c.
    bindM (get_plan (cd_plan c)) (\<lambda>pl.
    bindM (get_product (cd_product c)) (\<lambda>pr.
    if pr_status pr \<noteq> ''active'' then throwM (Dom ErrProductRetired)
    else if pl_status pl \<noteq> ''active'' then throwM (Dom ErrPlanRetired)
    else case cd_status c of
        CardUnused \<Rightarrow> activate_fresh now c pl pr p fp ip req
      | CardActive \<Rightarrow> activate_bound now c pl pr p fp ip req
      | st \<Rightarrow> throwM (map_card_err st))))"

subsection \<open>The whole request\<close>

text \<open>The seat: a full pool only leaves a risk record, a failing cache fails the request.\<close>

definition take_seat :: "activation_result \<Rightarrow> unit srv" where
  "take_seat res =
    bindM (tryM (redis_call (\<lambda>t. renew_online t (ar_license res) (ar_device res)
        (ar_lease_ttl res * second) (ar_concurrent res)))) (\<lambda>r. case r of
      Inl e \<Rightarrow> seqM (record_risk ''cache_error'' ''high'' (ar_license res) ''redis'' [])
        (throwM (Dom ErrRateLimited))
    | Inr admitted \<Rightarrow> if admitted then retM ()
        else record_risk ''activation_seat_contended'' ''low'' (ar_license res) []
          [(''device_id'', JStr (ar_device res))])"

definition activate :: "svc \<Rightarrow> string \<Rightarrow> device_sig option \<Rightarrow> string \<Rightarrow> string \<Rightarrow> activation_result srv" where
  "activate S body sig ip req =
    bindM (liftE (open_request S body sig)) (\<lambda>(p, ds).
    seqM (check_activation_replay S ds (ap_device_pub p) ip)
    (bindM (liftE (case normalize_card (ap_card p) of Inl _ \<Rightarrow> Inl (Dom ErrCardInvalidFormat) | Inr n \<Rightarrow> Inr n))
      (\<lambda>norm.
    seqM (refuse_banned ''card_prefix'' (card_prefix norm))
    (seqM (refuse_banned ''device'' (ap_device_pub p))
    (bindM go_now (\<lambda>now.
    bindM (with_tx (activate_tx S now p (card_lookup S norm) (fingerprint_hash S (ap_components p)) ip req))
      (\<lambda>res. seqM (take_seat res) (retM res))))))))"

end
