(* ===== verification/Heartbeat.thy ===== *)
theory Heartbeat
  imports Activation
begin

section \<open>Heartbeat, redemption and deactivation\<close>

text \<open>
  The requests of a bound device in \<open>internal/service/heartbeat.go\<close>. Each one first finds the
  device by its public key, verifies the signature over the request and passes the replay
  check; only then does it read or change anything.
\<close>

record heartbeat_request =
  hr_device :: string
  hr_version :: string

definition no_heartbeat :: heartbeat_request where
  "no_heartbeat = \<lparr>hr_device = [], hr_version = []\<rparr>"

definition heartbeat_fields :: "heartbeat_request js_field list" where
  "heartbeat_fields = [js_string ''device_id'' (\<lambda>x. hr_device_update (\<lambda>_. x)),
     js_string ''client_version'' (\<lambda>x. hr_version_update (\<lambda>_. x))]"

text \<open>\<open>_ = json.Unmarshal(body, &req)\<close>: whatever was filled before an error stays.\<close>

definition read_heartbeat :: "string \<Rightarrow> heartbeat_request" where
  "read_heartbeat body = snd (unmarshal heartbeat_fields body no_heartbeat)"

definition extract_device_id :: "string \<Rightarrow> string" where
  "extract_device_id body = hr_device (read_heartbeat body)"

record heartbeat_response =
  hb_lease :: string
  hb_server_time :: int
  hb_next :: int
  hb_status :: string
  hb_features :: "string list"
  hb_license_exp :: "int option"
  hb_policy :: int
  hb_min_version :: string
  hb_grace :: int
  hb_exp :: int

definition product_code_of :: "string \<Rightarrow> string srv" where
  "product_code_of pid = bindM (tryM (get_product pid))
     (\<lambda>r. retM (case r of Inl _ \<Rightarrow> [] | Inr p \<Rightarrow> pr_code p))"

text \<open>The device behind a signed request: found by its key, active, and the signer.\<close>

definition signed_device :: "svc \<Rightarrow> device_sig \<Rightarrow> (device \<Rightarrow> bool) \<Rightarrow> string \<Rightarrow> string \<Rightarrow> device srv" where
  "signed_device S ds named path body =
    bindM (or_no_rows (Dom ErrDeviceNotFound) (get_device_by_pub (ds_pub ds))) (\<lambda>dev.
    if dv_status dev \<noteq> DeviceActive then throwM (Dom ErrDeviceUnbound)
    else if \<not> named dev then throwM (Dom ErrBadSignature)
    else if \<not> verify_pub (sv_prims S) ds (dv_pub dev) (dv_kty dev)
        (ds_message (sv_prims S) ds ''POST'' path body) then throwM (Dom ErrBadSignature)
    else retM dev)"

subsection \<open>Heartbeat\<close>

definition check_version :: "string \<Rightarrow> string \<Rightarrow> unit srv" where
  "check_version ver minimum =
    (if ver \<noteq> [] \<and> \<not> version_ok ver then throwM (Dom ErrVersionTooOld)
     else seqM (if ver = [] then retM ()
         else bindM (is_banned ''client_version'' ver) (\<lambda>b. guardM (\<not> b) (Dom ErrBanned)))
       (guardM (\<not> (minimum \<noteq> [] \<and> ver \<noteq> [] \<and> compare_version ver minimum < 0)) (Dom ErrVersionTooOld)))"

text \<open>A full pool refuses the heartbeat; a failing cache lets it through.\<close>

definition renew_seat :: "license \<Rightarrow> device \<Rightarrow> plan \<Rightarrow> unit srv" where
  "renew_seat lic dev pl =
    bindM (tryM (redis_call (\<lambda>t. renew_online t (li_id lic) (dv_id dev) (pl_lease_ttl pl * second)
        (pl_concurrent pl)))) (\<lambda>r. case r of
      Inl e \<Rightarrow> record_risk ''cache_error'' ''low'' (li_id lic) ''redis'' []
    | Inr ok \<Rightarrow> guardM ok (Dom ErrConcurrentLimit))"

definition heartbeat_claims :: "time \<Rightarrow> string \<Rightarrow> string \<Rightarrow> license \<Rightarrow> device \<Rightarrow> plan \<Rightarrow> claims" where
  "heartbeat_claims now jti code lic dev pl =
    \<lparr>lc_typ = ''lease'', lc_kid = [], lc_jti = jti, lc_lic = li_id lic, lc_prod = code, lc_dev = dv_id dev,
     lc_feat = pl_features pl, lc_iat = unix now, lc_exp = unix now + pl_lease_ttl pl,
     lc_lex = (case li_expires lic of None \<Rightarrow> 0 | Some e \<Rightarrow> unix e), lc_pol = li_policy lic,
     lc_hbi = pl_heartbeat pl, lc_grace = pl_grace pl, lc_status = ''active'',
     lc_min_version = pl_min_version pl, lc_nonce = []\<rparr>"

definition heartbeat_reply :: "svc \<Rightarrow> time \<Rightarrow> license \<Rightarrow> device \<Rightarrow> plan \<Rightarrow> heartbeat_response srv" where
  "heartbeat_reply S now lic dev pl =
    bindM random_token (\<lambda>jti. bindM (product_code_of (li_product lic)) (\<lambda>code.
    let c = heartbeat_claims now jti code lic dev pl in
    bindM (liftE (mint_token (sv_signer S) c)) (\<lambda>lease.
      retM \<lparr>hb_lease = lease, hb_server_time = unix now, hb_next = pl_heartbeat pl, hb_status = ''active'',
        hb_features = pl_features pl, hb_license_exp = map_option unix (li_expires lic),
        hb_policy = li_policy lic, hb_min_version = pl_min_version pl, hb_grace = pl_grace pl,
        hb_exp = lc_exp c\<rparr>)))"

definition heartbeat :: "svc \<Rightarrow> device_sig \<Rightarrow> string \<Rightarrow> string \<Rightarrow> heartbeat_response srv" where
  "heartbeat S ds body ip =
    bindM (signed_device S ds (\<lambda>dev. dv_id dev = extract_device_id body) ''/v1/heartbeat'' body) (\<lambda>dev.
    seqM (check_replay S dev ds ip ''heartbeat'')
    (bindM (get_license (dv_license dev)) (\<lambda>lic.
    seqM (refuse_banned ''device'' (dv_pub dev))
    (bindM go_now (\<lambda>now.
    if li_status lic \<noteq> LicenseActive then throwM (map_license_err (li_status lic))
    else if expired_at now (li_expires lic) then throwM (Dom ErrLicenseExpired)
    else bindM (get_plan (li_plan lic)) (\<lambda>pl.
      let ver = hr_version (read_heartbeat body) in
      seqM (check_version ver (pl_min_version pl))
      (seqM (renew_seat lic dev pl)
      (seqM (bump_device_heartbeat (dv_id dev) (ds_seq ds) ip ver)
      (heartbeat_reply S now lic dev pl)))))))))"

subsection \<open>Redemption\<close>

record redeem_payload =
  rp_card :: string

definition redeem_fields :: "redeem_payload js_field list" where
  "redeem_fields = [js_string ''card'' (\<lambda>x. rp_card_update (\<lambda>_. x))]"

record redeem_result =
  rr_license :: string
  rr_expiry :: "time option"
  rr_days :: int
  rr_claims :: claims
  rr_lease :: string

definition open_redeem :: "svc \<Rightarrow> string \<Rightarrow> error + string" where
  "open_redeem S body =
    (case open_envelope (sv_prims S) body [] (sv_kex S) (aad_context ''redeem'') of
       Inl e \<Rightarrow> Inl e
     | Inr pt \<Rightarrow> (case unmarshal_strict redeem_fields pt \<lparr>rp_card = []\<rparr> of (ok, p) \<Rightarrow>
         if \<not> ok \<or> rp_card p = [] then Inl (Dom ErrCardInvalidFormat) else Inr (rp_card p)))"

text \<open>The lease of a redemption is built from the licence row as it was read.\<close>

definition redeem_claims :: "time \<Rightarrow> string \<Rightarrow> license \<Rightarrow> device \<Rightarrow> plan \<Rightarrow> claims" where
  "redeem_claims now jti lic dev pl =
    \<lparr>lc_typ = ''lease'', lc_kid = [], lc_jti = jti, lc_lic = li_id lic, lc_prod = [], lc_dev = dv_id dev,
     lc_feat = pl_features pl, lc_iat = unix now, lc_exp = unix now + pl_lease_ttl pl,
     lc_lex = (case li_expires lic of None \<Rightarrow> 0 | Some e \<Rightarrow> unix e), lc_pol = li_policy lic,
     lc_hbi = pl_heartbeat pl, lc_grace = pl_grace pl, lc_status = ''active'', lc_min_version = [],
     lc_nonce = []\<rparr>"

text \<open>What a card must be to renew a licence.\<close>

definition check_renewal_card :: "license \<Rightarrow> card \<Rightarrow> unit srv" where
  "check_renewal_card lic c =
    (if cd_kind c \<noteq> ''renewal'' then throwM (Dom ErrCardNotUsable)
     else if cd_product c \<noteq> li_product lic then throwM (Dom ErrCardNotUsable)
     else if cd_status c \<noteq> CardUnused then throwM (map_card_err (cd_status c)) else retM ())"

definition renew_with :: "time \<Rightarrow> device \<Rightarrow> license \<Rightarrow> card \<Rightarrow> plan \<Rightarrow> plan \<Rightarrow> string \<Rightarrow> redeem_result srv" where
  "renew_with now dev lic c pl lpl req =
    bindM (extend_license (li_id lic) (pl_days pl)) (\<lambda>newexp.
    seqM (set_card_status (cd_id c) CardDepleted)
    (seqM (insert_renewal (li_id lic) (cd_id c) (pl_days pl) (li_expires lic) (Some newexp))
    (seqM (insert_license_event (li_id lic) ''renewed'' ''device'' req
      [(''card_prefix'', JStr (cd_prefix c)), (''days'', JInt (pl_days pl)), (''new_expiry'', JTime newexp)])
    (bindM random_token (\<lambda>jti.
      retM \<lparr>rr_license = li_id lic, rr_expiry = Some newexp, rr_days = pl_days pl,
        rr_claims = redeem_claims now jti lic dev lpl, rr_lease = []\<rparr>)))))"

definition redeem_tx :: "time \<Rightarrow> device \<Rightarrow> string \<Rightarrow> string \<Rightarrow> redeem_result srv" where
  "redeem_tx now dev lookup req =
    bindM (get_license (dv_license dev)) (\<lambda>lic.
    if li_status lic \<noteq> LicenseActive then throwM (map_license_err (li_status lic))
    else if li_expires lic = None then throwM (Dom ErrCardNotUsable)
    else bindM (or_no_rows (Dom ErrCardNotFound) (get_card_by_lookup lookup)) (\<lambda>c.
    seqM (check_renewal_card lic c)
    (bindM (get_plan (cd_plan c)) (\<lambda>pl.
    if pl_days pl \<le> 0 then throwM (Dom ErrCardNotUsable)
    else bindM (get_plan (li_plan lic)) (\<lambda>lpl.
    if pl_status lpl \<noteq> ''active'' then throwM (Dom ErrPlanRetired)
    else renew_with now dev lic c pl lpl req)))))"

definition redeem :: "svc \<Rightarrow> string \<Rightarrow> device_sig \<Rightarrow> string \<Rightarrow> string \<Rightarrow> redeem_result srv" where
  "redeem S body ds ip req =
    bindM (liftE (open_redeem S body)) (\<lambda>text.
    bindM (signed_device S ds (\<lambda>_. True) ''/v1/redeem'' body) (\<lambda>dev.
    seqM (check_replay S dev ds ip ''redeem'')
    (bindM (liftE (case normalize_card text of Inl _ \<Rightarrow> Inl (Dom ErrCardInvalidFormat) | Inr n \<Rightarrow> Inr n)) (\<lambda>norm.
    seqM (refuse_banned ''card_prefix'' (card_prefix norm))
    (bindM go_now (\<lambda>now.
    bindM (with_tx (redeem_tx now dev (card_lookup S norm) req)) (\<lambda>res.
    bindM (liftE (mint_token (sv_signer S) (rr_claims res))) (\<lambda>lease.
      retM (res\<lparr>rr_lease := lease\<rparr>)))))))))"

subsection \<open>Deactivation\<close>

definition deactivate :: "svc \<Rightarrow> device_sig \<Rightarrow> string \<Rightarrow> string \<Rightarrow> string \<Rightarrow> unit srv" where
  "deactivate S ds body ip req =
    bindM (signed_device S ds (\<lambda>_. True) ''/v1/deactivate'' body) (\<lambda>dev.
    seqM (check_replay S dev ds ip ''deactivate'')
    (bindM (or_no_rows (Dom ErrDeviceUnbound) (store_unbind_device (dv_id dev) ''self'')) (\<lambda>v.
    bindM (tryM (redis_call (\<lambda>t r. ((), drop_online t (dv_license v) (dv_id v) r)))) (\<lambda>r.
    seqM (case r of Inl e \<Rightarrow> record_risk ''cache_error'' ''low'' (dv_license v) ''redis'' [] | Inr _ \<Rightarrow> retM ())
      (insert_license_event (dv_license v) ''device_unbound'' ''self'' req
        [(''device_id'', JStr (dv_id v)), (''ip'', JStr ip)])))))"

end
