(* ===== verification/AdminAuth.thy ===== *)
theory AdminAuth
  imports Activation
begin

section \<open>AdminAuth: logins, sessions and the second factor\<close>

text \<open>
  \<open>internal/service/adminauth.go\<close>. A session is kept by the SHA-256 of its token; the token
  itself leaves the server once. Five wrong passwords or codes in a row lock the account for
  fifteen minutes. Salts, tokens and session ids come from the world's streams.
\<close>

record admin_context =
  ac_session :: admin_session
  ac_admin :: admin

record login_result =
  lr_token :: string
  lr_csrf :: string
  lr_admin :: admin

definition fresh_id :: "string srv" where
  "fresh_id w = (Inr (w_ids w (w_next_id w)), w\<lparr>w_next_id := Suc (w_next_id w)\<rparr>)"

definition token_hash :: "svc \<Rightarrow> string \<Rightarrow> string" where
  "token_hash S tok = hex_encode (p_sha256 (sv_prims S) tok)"

definition audit_row :: "admin \<Rightarrow> string \<Rightarrow> string \<Rightarrow> string \<Rightarrow> snapshot \<Rightarrow> snapshot \<Rightarrow> snapshot \<Rightarrow>
    string \<Rightarrow> string \<Rightarrow> audit_log" where
  "audit_row a action ttype target bef aft det ip req =
    \<lparr>au_admin = Some (ad_id a), au_username = Some (ad_username a), au_action = action,
     au_target_type = Some ttype, au_target = Some target,
     au_before = Some bef, au_after = Some aft, au_detail = Some det,
     au_ip = Some ip, au_request = Some req, au_ts = 0\<rparr>"

text \<open>\<open>Audit\<close>: a row that cannot be written is only logged.\<close>

definition audit :: "admin_context \<Rightarrow> string \<Rightarrow> string \<Rightarrow> string \<Rightarrow> snapshot \<Rightarrow> snapshot \<Rightarrow> snapshot \<Rightarrow>
    string \<Rightarrow> string \<Rightarrow> unit srv" where
  "audit ac action ttype target bef aft det ip req =
     ignoreM (insert_audit (audit_row (ac_admin ac) action ttype target bef aft det ip req))"

definition hash_admin_password :: "svc \<Rightarrow> string \<Rightarrow> string srv" where
  "hash_admin_password S pw =
     bindM random_token (\<lambda>salt. liftE (hash_password (sv_prims S) salt pw default_params))"

definition password_ok :: "svc \<Rightarrow> string \<Rightarrow> string \<Rightarrow> bool" where
  "password_ok S pw phc \<longleftrightarrow> verify_password (sv_prims S) pw phc = Inr True"

text \<open>\<open>Verify\<close> as the services call it: a string that does not parse is a wrong password, a panic stays one.\<close>

definition check_password :: "svc \<Rightarrow> string \<Rightarrow> string \<Rightarrow> bool srv" where
  "check_password S pw phc = liftE (case verify_password (sv_prims S) pw phc of
     Inl e \<Rightarrow> if e = Text ''argon2id: malformed hash string'' then Inr False else Inl e
   | Inr ok \<Rightarrow> Inr ok)"

lemma check_password_True: "check_password S pw phc w = (Inr True, w') \<longleftrightarrow> password_ok S pw phc \<and> w' = w"
  by (auto simp: check_password_def password_ok_def liftE_def throwM_eq_iff retM_eq_iff split: sum.splits)

lemma check_password_ok: "password_ok S pw phc \<Longrightarrow> check_password S pw phc = retM True"
  by (simp add: check_password_def password_ok_def liftE_def)

lemma check_password_out:
  assumes "check_password S pw phc w = (r, w')"
  shows "w' = w \<and> (r = Inr (password_ok S pw phc) \<or> (\<exists>t. r = Inl (Text t)))"
proof -
  have "\<exists>t. e = Text t" if "verify_password P pw phc = Inl e" for P e
    using that by (auto simp: verify_password_def id_key_def split: list.splits option.splits if_splits sum.splits)
  then show ?thesis using assms
    by (auto simp: check_password_def password_ok_def liftE_def throwM_eq_iff retM_eq_iff split: sum.splits if_splits)
qed

subsection \<open>Login\<close>

definition locked_now :: "time \<Rightarrow> admin \<Rightarrow> bool" where
  "locked_now now a \<longleftrightarrow> (case ad_locked a of None \<Rightarrow> False | Some t \<Rightarrow> now < t)"

definition login_failed :: "admin \<Rightarrow> string \<Rightarrow> string \<Rightarrow> string \<Rightarrow> error \<Rightarrow> 'a srv" where
  "login_failed a kind severity ip e =
    bindM (tryM (on_login_failed (ad_id a))) (\<lambda>r.
    seqM (record_risk kind severity (ad_username a) []
        [(''ip'', JStr ip), (''locked'', JBool (r = Inr True))])
      (throwM e))"

text \<open>The checks of \<open>AdminLogin\<close> before a session is made.\<close>

definition authenticate :: "svc \<Rightarrow> admin \<Rightarrow> string \<Rightarrow> string \<Rightarrow> string \<Rightarrow> unit srv" where
  "authenticate S a pw totp ip =
    (if ad_status a \<noteq> ''active'' then throwM (Service ErrBadCredentials)
     else bindM go_now (\<lambda>now.
      if locked_now now a then
        seqM (record_risk ''admin_login_locked'' ''high'' (ad_username a) ip []) (throwM (Service ErrAccountLocked))
      else bindM (check_password S pw (ad_password a)) (\<lambda>ok.
      if \<not> ok then
        login_failed a ''admin_login_failed'' ''medium'' ip (Service ErrBadCredentials)
      else if ad_mfa a then
        (if totp = [] then throwM (Service ErrMFARequired)
         else (case ad_totp a of None \<Rightarrow> throwM (Text ''panic: nil TOTPSecret'')
          | Some secret \<Rightarrow>
            if \<not> verify_totp (sv_prims S) secret totp (unix now) then
              login_failed a ''admin_mfa_failed'' ''high'' ip (Service ErrMFABad)
            else retM ()))
      else retM ())))"

definition open_session :: "svc \<Rightarrow> admin \<Rightarrow> (string \<times> string) srv" where
  "open_session S a =
    bindM random_token (\<lambda>tok. bindM random_token (\<lambda>csrf. bindM fresh_id (\<lambda>sid. bindM go_now (\<lambda>now.
      seqM (create_session \<lparr>se_id = sid, se_admin = ad_id a, se_token = token_hash S tok, se_csrf = csrf,
          se_mfa = True, se_expires = now + sv_session_ttl S, se_revoked = None\<rparr>)
        (retM (tok, csrf))))))"

definition admin_login :: "svc \<Rightarrow> string \<Rightarrow> string \<Rightarrow> string \<Rightarrow> string \<Rightarrow> string \<Rightarrow> login_result srv" where
  "admin_login S username pw totp ip req =
    bindM (or_no_rows (Service ErrBadCredentials) (get_admin_by_username username)) (\<lambda>a.
    seqM (authenticate S a pw totp ip)
    (seqM (on_login_success (ad_id a))
    (bindM (open_session S a) (\<lambda>(tok, csrf).
    seqM (ignoreM (insert_audit \<lparr>au_admin = Some (ad_id a), au_username = Some (ad_username a),
        au_action = ''auth.login'', au_target_type = None, au_target = None, au_before = None, au_after = None, au_detail = None,
        au_ip = Some ip, au_request = Some req, au_ts = 0\<rparr>))
      (retM \<lparr>lr_token = tok, lr_csrf = csrf, lr_admin = a\<rparr>)))))"

subsection \<open>Sessions\<close>

text \<open>Every failure is the same error.\<close>

definition resolve_session :: "svc \<Rightarrow> string \<Rightarrow> admin_context srv" where
  "resolve_session S tok =
    mapErrM (\<lambda>_. Service ErrSessionGone)
      (bindM (get_session_by_token_hash (token_hash S tok)) (\<lambda>s.
       bindM (get_admin (se_admin s)) (\<lambda>a.
         if ad_status a \<noteq> ''active'' then throwM (Service ErrSessionGone)
         else retM \<lparr>ac_session = s, ac_admin = a\<rparr>)))"

definition check_csrf :: "admin_context \<Rightarrow> string \<Rightarrow> error + unit" where
  "check_csrf ac header =
    (if header = [] \<or> header \<noteq> se_csrf (ac_session ac) then Inl (Service ErrCSRF) else Inr ())"

definition bootstrap_admin :: "svc \<Rightarrow> string \<Rightarrow> string \<Rightarrow> string \<Rightarrow> admin srv" where
  "bootstrap_admin S username pw totp =
    (if length pw < 12 then throwM (Text ''initial admin password must be >= 12 chars'')
     else bindM (hash_admin_password S pw) (\<lambda>h.
      bindM (if totp = [] then retM None
          else liftE (case normalize_totp_secret totp of Inl e \<Rightarrow> Inl e | Inr n \<Rightarrow> Inr (Some n))) (\<lambda>secret.
      store_create_admin \<lparr>ad_id = [], ad_username = username, ad_password = h,
        ad_display = ''System Administrator'', ad_role = ''superadmin'', ad_agent = None, ad_totp = secret,
        ad_mfa = (secret \<noteq> None), ad_status = [], ad_failed = 0, ad_locked = None, ad_must_change = True,
        ad_created = 0, ad_last_login = None\<rparr>)))"

subsection \<open>The second factor\<close>

definition mfa_setup :: "svc \<Rightarrow> admin_context \<Rightarrow> string srv" where
  "mfa_setup S ac =
    bindM random_token (\<lambda>raw. let secret = generate_totp_secret raw in
      seqM (redis_call (\<lambda>t r. ((), set_pending_totp t (ad_id (ac_admin ac)) secret (600 * second) r)))
        (retM secret))"

definition mfa_uri :: "string \<Rightarrow> string \<Rightarrow> string" where
  "mfa_uri secret username = totp_uri secret username ''Vertify''"

definition mfa_enable :: "svc \<Rightarrow> admin_context \<Rightarrow> string \<Rightarrow> unit srv" where
  "mfa_enable S ac code =
    (let who = ad_id (ac_admin ac) in
     bindM (redis_call (\<lambda>t. consume_pending_totp t who)) (\<lambda>pending.
     bindM (liftE (case pending of None \<Rightarrow> Inl (Text ''pending mfa setup not found'') | Some s \<Rightarrow> Inr s)) (\<lambda>secret.
     bindM go_now (\<lambda>now.
     if \<not> verify_totp (sv_prims S) secret code (unix now) then throwM (Service ErrMFABad)
     else bindM (redis_call (\<lambda>t. consume_totp_window t who (unix now div 30) (90 * second))) (\<lambda>unused.
     seqM (guardM unused (Service ErrMFABad))
     (seqM (set_admin_mfa who (Some secret) True)
     (seqM (revoke_all_sessions who)
     (seqM (revoke_all_sessions who)
     (audit ac ''auth.mfa_enable'' ''admin'' who SNull SNull SNull [] [])))))))))"

definition mfa_disable :: "svc \<Rightarrow> admin_context \<Rightarrow> string \<Rightarrow> unit srv" where
  "mfa_disable S ac pw =
    (let who = ad_id (ac_admin ac) in
     bindM (check_password S pw (ad_password (ac_admin ac))) (\<lambda>ok.
     if \<not> ok then throwM (Service ErrBadCredentials)
     else seqM (set_admin_mfa who None False)
      (seqM (revoke_all_sessions who)
       (audit ac ''auth.mfa_disable'' ''admin'' who SNull SNull SNull [] []))))"

definition admin_change_password :: "svc \<Rightarrow> admin_context \<Rightarrow> string \<Rightarrow> string \<Rightarrow> (string \<times> string) srv" where
  "admin_change_password S ac old_pw new_pw =
    (let a = ac_admin ac; who = ad_id a in
     if length new_pw < 12 then throwM (Text ''password too short'')
     else bindM (check_password S old_pw (ad_password a)) (\<lambda>ok.
      if \<not> ok then throwM (Service ErrBadCredentials)
     else bindM (hash_admin_password S new_pw) (\<lambda>h.
      seqM (set_admin_password who h False)
      (seqM (revoke_all_sessions who)
      (bindM (open_session S a) (\<lambda>res.
       seqM (audit ac ''auth.password_change'' ''admin'' who SNull SNull SNull [] []) (retM res)))))))"

end
