(* ===== verification/Http.thy ===== *)
theory Http
  imports Heartbeat AdminAuth
begin

section \<open>Http: requests, responses, the error map and the middlewares\<close>

text \<open>
  \<open>internal/httpapi/middleware.go\<close> and the decoding helpers of \<open>admin.go\<close> and \<open>client.go\<close>. A handler
  maps a request and what the middlewares put into its context to a response; it never fails:
  an error of a service becomes a response by \<open>map_error\<close>. Responses keep the status, the stable
  error code and the request id the client sees, the value that is encoded, and the session
  cookie. The (Chinese) error texts, the access log and the fixed security headers have no
  effect on anything else and are left out.

  A network of \<open>VFT_TRUSTED_PROXIES\<close> is the predicate of the address texts that
  \<open>net.ParseIP\<close> puts into it; \<open>time.Parse(time.RFC3339, ..)\<close> is a function of the site.
\<close>

record http_request =
  hq_method :: string
  hq_path :: string
  hq_query :: "(string \<times> string) list"
  hq_remote :: string
  hq_header :: "string \<Rightarrow> string"
  hq_cookie :: "string option"
  hq_body :: string

record http_ctx =
  hc_rid :: string
  hc_ip :: string
  hc_admin :: "admin_context option"

record 'p http_response =
  hs_status :: int
  hs_error :: "(string \<times> string) option"
  hs_body :: "'p option"
  hs_cookie :: "(string \<times> int) option"

record site =
  si_cfg :: "(string \<Rightarrow> bool) config"
  si_time :: "string \<Rightarrow> time option"

type_synonym 'p handler = "http_ctx \<Rightarrow> 'p http_response srv"

definition url_query :: "http_request \<Rightarrow> string \<Rightarrow> string" where
  "url_query rq k = (case map_of (hq_query rq) k of None \<Rightarrow> [] | Some v \<Rightarrow> v)"

subsection \<open>Responses\<close>

definition write_json :: "int \<Rightarrow> 'p \<Rightarrow> 'p http_response" where
  "write_json st p = \<lparr>hs_status = st, hs_error = None, hs_body = Some p, hs_cookie = None\<rparr>"

definition error_writer :: "http_ctx \<Rightarrow> int \<Rightarrow> string \<Rightarrow> 'p http_response" where
  "error_writer cx st code = \<lparr>hs_status = st, hs_error = Some (code, hc_rid cx), hs_body = None, hs_cookie = None\<rparr>"

text \<open>\<open>MapError\<close>: the status and the code of an error.\<close>

fun domain_status :: "domain_error \<Rightarrow> int \<times> string" where
  "domain_status ErrPlanInUse = (409, ''PLAN_IN_USE'')"
| "domain_status ErrPlanNotRetired = (409, ''PLAN_NOT_RETIRED'')"
| "domain_status ErrProductNotGranted = (403, ''PRODUCT_NOT_GRANTED'')"
| "domain_status ErrCardNotFound = (404, ''CARD_NOT_FOUND'')"
| "domain_status ErrCardInvalidFormat = (400, ''CARD_INVALID'')"
| "domain_status ErrCardNotUsable = (409, ''CARD_NOT_USABLE'')"
| "domain_status ErrPlanRetired = (409, ''CARD_NOT_USABLE'')"
| "domain_status ErrProductRetired = (409, ''CARD_NOT_USABLE'')"
| "domain_status ErrCardFrozen = (403, ''CARD_FROZEN'')"
| "domain_status ErrCardRevoked = (403, ''CARD_REVOKED'')"
| "domain_status ErrCardVoided = (403, ''CARD_VOIDED'')"
| "domain_status ErrCardDepleted = (403, ''CARD_DEPLETED'')"
| "domain_status ErrLicenseFrozen = (403, ''LICENSE_FROZEN'')"
| "domain_status ErrLicenseRevoked = (403, ''LICENSE_REVOKED'')"
| "domain_status ErrLicenseVoided = (403, ''LICENSE_VOIDED'')"
| "domain_status ErrLicenseExpired = (403, ''LICENSE_EXPIRED'')"
| "domain_status ErrDeviceLimit = (409, ''DEVICE_LIMIT'')"
| "domain_status ErrConcurrentLimit = (409, ''CONCURRENT_LIMIT'')"
| "domain_status ErrDeviceNotFound = (404, ''DEVICE_NOT_FOUND'')"
| "domain_status ErrDeviceUnbound = (409, ''DEVICE_UNBOUND'')"
| "domain_status ErrBadSignature = (401, ''BAD_SIGNATURE'')"
| "domain_status ErrReplayDetected = (409, ''REPLAY_DETECTED'')"
| "domain_status ErrSeqRegression = (409, ''SEQ_REGRESSION'')"
| "domain_status ErrRateLimited = (429, ''RATE_LIMITED'')"
| "domain_status ErrBanned = (403, ''BANNED'')"
| "domain_status ErrAgentNotFound = (404, ''AGENT_NOT_FOUND'')"
| "domain_status ErrInsufficientBalance = (409, ''BALANCE_INSUFFICIENT'')"
| "domain_status ErrUserExists = (409, ''USER_EXISTS'')"
| "domain_status ErrUserDisabled = (403, ''USER_DISABLED'')"
| "domain_status ErrMachineBound = (409, ''MACHINE_BOUND'')"
| "domain_status ErrBadSecurityCode = (400, ''BAD_SECURITY_CODE'')"
| "domain_status ErrAccountExpired = (403, ''ACCOUNT_EXPIRED'')"
| "domain_status ErrBadUsername = (400, ''BAD_USERNAME'')"
| "domain_status ErrVersionTooOld = (426, ''VERSION_TOO_OLD'')"
| "domain_status ErrRebindCooldown = (500, ''INTERNAL'')"
| "domain_status ErrRebindLimit = (500, ''INTERNAL'')"

fun error_status :: "error \<Rightarrow> int \<times> string" where
  "error_status (Dom e) = domain_status e"
| "error_status (Store ErrNoRows) = (404, ''NOT_FOUND'')"
| "error_status (Store ErrUnique) = (409, ''ALREADY_EXISTS'')"
| "error_status (Store ErrForeignKey) = (400, ''BAD_REFERENCE'')"
| "error_status (Store ErrInvalidInput) = (404, ''NOT_FOUND'')"
| "error_status (Service ErrBadCredentials) = (401, ''BAD_CREDENTIALS'')"
| "error_status e = (500, ''INTERNAL'')"

definition map_error :: "http_ctx \<Rightarrow> error \<Rightarrow> 'p http_response" where
  "map_error cx e = (case error_status e of (st, code) \<Rightarrow> error_writer cx st code)"

text \<open>\<open>x, err := m; if err != nil { MapError(..); return }; k\<close>.\<close>

definition answer :: "http_ctx \<Rightarrow> 'a srv \<Rightarrow> ('a \<Rightarrow> 'p http_response srv) \<Rightarrow> 'p http_response srv" where
  "answer cx m k = bindM (tryM m) (\<lambda>r. case r of Inl e \<Rightarrow> retM (map_error cx e) | Inr x \<Rightarrow> k x)"

definition bad_request :: "http_ctx \<Rightarrow> 'p http_response srv" where
  "bad_request cx = retM (error_writer cx 400 ''BAD_REQUEST'')"

definition refuse :: "http_ctx \<Rightarrow> int \<Rightarrow> string \<Rightarrow> 'p http_response srv" where
  "refuse cx st code = retM (error_writer cx st code)"

subsection \<open>Bodies\<close>

text \<open>A body behind \<open>MaxBytesReader\<close>: reading more than the limit is an error.\<close>

definition read_all :: "nat option \<Rightarrow> http_request \<Rightarrow> string option" where
  "read_all lim rq = (case lim of None \<Rightarrow> Some (hq_body rq)
     | Some n \<Rightarrow> if length (hq_body rq) \<le> n then Some (hq_body rq) else None)"

definition utf8_valid :: "string \<Rightarrow> bool" where
  "utf8_valid s \<longleftrightarrow> list_all (\<lambda>(r, bs). \<not> (r = rune_error \<and> length bs = 1)) (segs s)"

text \<open>\<open>decodeJSON\<close>: the body is refused when it is no UTF-8 or has a U+FFFD in it.\<close>

definition decode_json :: "nat option \<Rightarrow> 'r js_field list \<Rightarrow> 'r \<Rightarrow> http_request \<Rightarrow> 'r option" where
  "decode_json lim fs r rq = (case read_all lim rq of None \<Rightarrow> None | Some body \<Rightarrow>
     if \<not> utf8_valid body \<or> rune_error \<in> set (runes body) then None
     else (case unmarshal_strict fs body r of (ok, x) \<Rightarrow> if ok then Some x else None))"

definition with_json :: "nat option \<Rightarrow> 'r js_field list \<Rightarrow> 'r \<Rightarrow> http_request \<Rightarrow> http_ctx \<Rightarrow>
    ('r \<Rightarrow> 'p http_response srv) \<Rightarrow> 'p http_response srv" where
  "with_json lim fs r rq cx k = (case decode_json lim fs r rq of None \<Rightarrow> bad_request cx | Some x \<Rightarrow> k x)"

text \<open>Further kinds of fields: a boolean, and a \<open>*string\<close>.\<close>

definition js_bool :: "string \<Rightarrow> (bool \<Rightarrow> 'r \<Rightarrow> 'r) \<Rightarrow> 'r js_field" where
  "js_bool name set_it = (name, \<lambda>v r. case v of JsBool b \<Rightarrow> (True, set_it b r)
     | JsNull \<Rightarrow> (True, r) | _ \<Rightarrow> (False, r))"

definition js_string_opt :: "string \<Rightarrow> (string option \<Rightarrow> 'r \<Rightarrow> 'r) \<Rightarrow> 'r js_field" where
  "js_string_opt name set_it = (name, \<lambda>v r. case v of JsStr s \<Rightarrow> (True, set_it (Some s) r)
     | JsNull \<Rightarrow> (True, set_it None r) | _ \<Rightarrow> (False, r))"

text \<open>\<open>readBody\<close> of the client API: an empty body is refused too.\<close>

definition read_body :: "nat option \<Rightarrow> http_request \<Rightarrow> string option" where
  "read_body lim rq = (case read_all lim rq of None \<Rightarrow> None | Some b \<Rightarrow> if b = [] then None else Some b)"

definition page_params :: "http_request \<Rightarrow> int \<times> int" where
  "page_params rq = (let lim = atoi_or_zero (url_query rq ''limit''); off = atoi_or_zero (url_query rq ''offset'') in
     (if lim \<le> 0 \<or> lim > 500 then 50 else lim, if off < 0 then 0 else off))"

definition parse_id :: "string \<Rightarrow> int option" where
  "parse_id s = (case parse_int s of Inl _ \<Rightarrow> None | Inr n \<Rightarrow> if n > 0 then Some n else None)"

subsection \<open>Request id, client address, panics\<close>

definition request_id :: "http_request \<Rightarrow> string srv" where
  "request_id rq = (let rid = hq_header rq ''X-Request-Id'' in
     if rid = [] \<or> length rid > 64 then fresh_id else retM rid)"

definition last_colon :: "string \<Rightarrow> nat option" where
  "last_colon s = (if CHR '':'' \<in> set s then Some (length s - 1 - length (takeWhile (\<lambda>c. c \<noteq> CHR '':'') (rev s)))
     else None)"

definition index_of :: "char \<Rightarrow> string \<Rightarrow> nat option" where
  "index_of c s = (if c \<in> set s then Some (length (takeWhile (\<lambda>x. x \<noteq> c) s)) else None)"

text \<open>\<open>net.SplitHostPort\<close>, the host only.\<close>

definition split_host_port :: "string \<Rightarrow> string option" where
  "split_host_port s = (case last_colon s of None \<Rightarrow> None | Some i \<Rightarrow>
     if hd s = CHR ''['' then
       (case index_of (CHR '']'') s of None \<Rightarrow> None | Some e \<Rightarrow>
         if e + 1 \<noteq> i then None
         else if CHR ''['' \<in> set (drop 1 s) \<or> CHR '']'' \<in> set (drop (e + 1) s) then None
         else Some (take (e - 1) (drop 1 s)))
     else let host = take i s in
       if CHR '':'' \<in> set host \<or> CHR ''['' \<in> set s \<or> CHR '']'' \<in> set s then None else Some host)"

definition contains_ip :: "(string \<Rightarrow> bool) list \<Rightarrow> string \<Rightarrow> bool" where
  "contains_ip nets host = list_ex (\<lambda>n. n host) nets"

text \<open>\<open>RealIP\<close>: behind a trusted proxy, the first entry of \<open>X-Forwarded-For\<close>.\<close>

definition real_ip :: "(string \<Rightarrow> bool) list \<Rightarrow> http_request \<Rightarrow> string" where
  "real_ip nets rq = (let host = (case split_host_port (hq_remote rq) of None \<Rightarrow> hq_remote rq | Some h \<Rightarrow> h);
     xff = hq_header rq ''X-Forwarded-For'' in
     if contains_ip nets host \<and> xff \<noteq> [] then trim_space (hd (split_on (CHR '','') xff)) else host)"

text \<open>\<open>Recover\<close> stands outside the request id's middleware, so its answer has none.\<close>

definition recover :: "'p http_response srv \<Rightarrow> 'p http_response srv" where
  "recover m = bindM (tryM m) (\<lambda>r. case r of Inr x \<Rightarrow> retM x
     | Inl _ \<Rightarrow> retM (error_writer \<lparr>hc_rid = [], hc_ip = [], hc_admin = None\<rparr> 500 ''INTERNAL''))"

definition with_context :: "(string \<Rightarrow> bool) list \<Rightarrow> http_request \<Rightarrow> 'p handler \<Rightarrow> 'p http_response srv" where
  "with_context nets rq next = recover
     (bindM (request_id rq) (\<lambda>rid. next \<lparr>hc_rid = rid, hc_ip = real_ip nets rq, hc_admin = None\<rparr>))"

subsection \<open>Rate limits\<close>

definition minute :: int where "minute = 60 * second"

text \<open>\<open>Cache.RateLimit\<close>, with the random member it draws.\<close>

definition cache_rate_limit :: "string \<Rightarrow> int \<Rightarrow> bool srv" where
  "cache_rate_limit key lim = bindM random_token (\<lambda>member.
     bindM (redis_call (\<lambda>t. rate_limit t key lim minute member)) (\<lambda>(ok, left). retM ok))"

record limiter =
  lm_conf :: "string \<Rightarrow> int option"
  lm_loaded :: time

definition new_limiter :: limiter where
  "new_limiter = \<lparr>lm_conf = (\<lambda>_. None), lm_loaded = -62135596800 * second\<rparr>"

text \<open>\<open>ScopeRateLimiter.limit\<close>: the table is read again when the copy is over 30 s old.\<close>

definition refresh_limits :: "limiter \<Rightarrow> limiter srv" where
  "refresh_limits l = bindM go_now (\<lambda>now.
     if now - lm_loaded l > 30 * second then
       bindM (tryM all_api_rate_limits) (\<lambda>r. case r of Inl _ \<Rightarrow> retM l
         | Inr m \<Rightarrow> bindM go_now (\<lambda>t. retM \<lparr>lm_conf = m, lm_loaded = t\<rparr>))
     else retM l)"

definition limit_of :: "limiter \<Rightarrow> string \<Rightarrow> int \<Rightarrow> int" where
  "limit_of l scope fallback = (case lm_conf l scope of None \<Rightarrow> fallback | Some v \<Rightarrow> if v > 0 then v else fallback)"

definition invalidate :: "limiter \<Rightarrow> limiter" where
  "invalidate l = l\<lparr>lm_loaded := -62135596800 * second\<rparr>"

text \<open>A failing cache lets the request through.\<close>

definition admitted :: "error + bool \<Rightarrow> bool" where
  "admitted r \<longleftrightarrow> (case r of Inl _ \<Rightarrow> True | Inr ok \<Rightarrow> ok)"

definition scope_limited :: "limiter \<Rightarrow> string \<Rightarrow> int \<Rightarrow> http_ctx \<Rightarrow> 'p http_response srv \<Rightarrow>
    'p http_response srv" where
  "scope_limited l scope fallback cx next =
    bindM (tryM (cache_rate_limit (''scope:'' @ scope @ '':'' @ hc_ip cx) (limit_of l scope fallback))) (\<lambda>r.
      if admitted r then next else refuse cx 429 ''RATE_LIMITED'')"

definition ip_limited :: "int \<Rightarrow> http_ctx \<Rightarrow> 'p http_response srv \<Rightarrow> 'p http_response srv" where
  "ip_limited lim cx next = bindM (tryM (cache_rate_limit (''ip:'' @ hc_ip cx) lim)) (\<lambda>r.
     if admitted r then next else refuse cx 429 ''RATE_LIMITED'')"

text \<open>\<open>if banned, _ := IsBanned(..); banned { 403 }\<close>.\<close>

definition unless_banned :: "http_ctx \<Rightarrow> 'p http_response srv \<Rightarrow> 'p http_response srv" where
  "unless_banned cx next = bindM (tryM (is_banned ''ip'' (hc_ip cx))) (\<lambda>r.
     if r = Inr True then refuse cx 403 ''BANNED'' else next)"

end
