(* ===== verification/AdminSvc.thy ===== *)
theory AdminSvc
  imports AdminAuth Heartbeat
begin

section \<open>AdminSvc: what the back office does\<close>

text \<open>
  \<open>internal/service/adminsvc.go\<close>: making and importing cards, charging agents, the actions on
  cards and licences, plans, agents, administrators and bans. The error texts are given in
  English. \<open>agent_denied\<close> is the ownership rule every read or change of an agent goes through;
  a denied object is reported as not found.
\<close>

definition is_agent :: "admin_context \<Rightarrow> bool" where
  "is_agent ac \<longleftrightarrow> ad_role (ac_admin ac) = ''agent''"

definition is_super :: "admin_context \<Rightarrow> bool" where
  "is_super ac \<longleftrightarrow> ad_role (ac_admin ac) = ''superadmin''"

definition agent_denied :: "admin_context \<Rightarrow> string option \<Rightarrow> bool" where
  "agent_denied ac owner \<longleftrightarrow> is_agent ac \<and>
     (ad_agent (ac_admin ac) = None \<or> owner = None \<or> owner \<noteq> ad_agent (ac_admin ac))"

definition actor :: "admin_context \<Rightarrow> string" where
  "actor ac = ''admin:'' @ ad_id (ac_admin ac)"

definition require_grant :: "admin_context \<Rightarrow> string \<Rightarrow> string \<Rightarrow> unit srv" where
  "require_grant ac agent pid =
    (if \<not> is_agent ac then retM ()
     else bindM (agent_has_product agent pid) (\<lambda>ok. guardM ok (Dom ErrProductNotGranted)))"

text \<open>An agent may only make cards for products opened to it.\<close>

definition agent_may_make :: "admin_context \<Rightarrow> string \<Rightarrow> unit srv" where
  "agent_may_make ac pid =
    (if is_agent ac then (case ad_agent (ac_admin ac) of
        None \<Rightarrow> throwM (Dom ErrProductNotGranted)
      | Some a \<Rightarrow> require_grant ac a pid)
     else retM ())"

subsection \<open>Making and importing cards\<close>

record batch_request =
  br_product :: string
  br_plan :: string
  br_agent :: string
  br_kind :: string
  br_quantity :: int
  br_prefix :: string
  br_note :: string

definition kind_or_license :: "string \<Rightarrow> string" where
  "kind_or_license k = (if k = [] then ''license'' else k)"

definition valid_kind :: "string \<Rightarrow> bool" where
  "valid_kind k \<longleftrightarrow> k = ''license'' \<or> k = ''renewal''"

text \<open>The plan and product of a batch: existing, belonging together, both active.\<close>

definition batch_plan :: "string \<Rightarrow> string \<Rightarrow> (plan \<times> product) srv" where
  "batch_plan plan_id pid =
    bindM (get_plan plan_id) (\<lambda>pl. bindM (get_product pid) (\<lambda>pr.
    if pl_product pl \<noteq> pr_id pr then throwM (Text ''plan does not belong to product'')
    else if pr_status pr \<noteq> ''active'' then throwM (Dom ErrProductRetired)
    else if pl_status pl \<noteq> ''active'' then throwM (Dom ErrPlanRetired)
    else retM (pl, pr)))"

text \<open>The seed of a card text: its lookup key, first group and ciphertext.\<close>

definition card_seed_of :: "svc \<Rightarrow> plan \<Rightarrow> string \<Rightarrow> string \<Rightarrow> string \<Rightarrow> string \<Rightarrow> error + card_seed" where
  "card_seed_of S pl pid kind norm nonce = (case encrypt_card_secret S pid norm nonce of Inl e \<Rightarrow> Inl e
   | Inr secret \<Rightarrow> Inr \<lparr>cs_lookup = card_lookup S norm, cs_prefix = card_prefix norm, cs_kind = kind,
       cs_uses_total = pl_uses pl, cs_uses_left = pl_uses pl, cs_secret = secret\<rparr>)"

text \<open>The import loop: \<open>seen\<close> are the lookup keys so far, \<open>pre\<close> the batch's first group.\<close>

fun import_seeds :: "svc \<Rightarrow> plan \<Rightarrow> string \<Rightarrow> string \<Rightarrow> string list \<Rightarrow> string \<Rightarrow> string list \<Rightarrow>
    (card_seed list \<times> string) srv" where
  "import_seeds S pl pid kind seen pre [] = retM ([], pre)"
| "import_seeds S pl pid kind seen pre (raw # raws) =
    (case normalize_card raw of Inl _ \<Rightarrow> throwM (Text ''malformed card in import'') | Inr norm \<Rightarrow>
      let l = card_lookup S norm; p = card_prefix norm in
      if l \<in> set seen then throwM (Text ''duplicate card in import'')
      else if pre \<noteq> [] \<and> p \<noteq> pre then throwM (Text ''cards of one batch must share their prefix'')
      else bindM random_token (\<lambda>nonce.
        bindM (liftE (card_seed_of S pl pid kind norm nonce)) (\<lambda>s.
        bindM (import_seeds S pl pid kind (l # seen) (if pre = [] then p else pre) raws) (\<lambda>(ss, q).
          retM (s # ss, q)))))"

definition note_opt :: "string \<Rightarrow> string option" where
  "note_opt s = str_opt (trim_space s)"

definition batch_row :: "string option \<Rightarrow> string \<Rightarrow> string \<Rightarrow> int \<Rightarrow> string \<Rightarrow> string \<Rightarrow> string \<Rightarrow> card_batch" where
  "batch_row agent pid plan_id n pre note who = \<lparr>cb_id = [], cb_agent = agent, cb_product = pid,
     cb_plan = plan_id, cb_quantity = n, cb_prefix = pre, cb_note = note_opt note, cb_by = who, cb_created = 0\<rparr>"

definition import_cards :: "svc \<Rightarrow> admin_context \<Rightarrow> string \<Rightarrow> string \<Rightarrow> string list \<Rightarrow> string \<Rightarrow> string \<Rightarrow>
    string \<Rightarrow> string \<Rightarrow> int srv" where
  "import_cards S ac pid plan_id cards kind0 note ip req =
    (if cards = [] \<or> length cards > 10000 then throwM (Text ''import 1-10000 cards'')
     else bindM (batch_plan plan_id pid) (\<lambda>(pl, pr).
      seqM (agent_may_make ac (pr_id pr))
      (let kind = kind_or_license kind0 in
       if \<not> valid_kind kind then throwM (Text ''bad card kind'')
       else bindM (import_seeds S pl (pr_id pr) kind [] [] cards) (\<lambda>(seeds, pre).
        bindM (with_tx (create_batch (batch_row None (pr_id pr) (pl_id pl) (int (length seeds)) pre note
            (ad_id (ac_admin ac))) seeds)) (\<lambda>(b, cs).
        seqM (audit ac ''batch.import'' ''card_batch'' (cb_id b) SNull (SMap [(''quantity'', JInt (int (length seeds))),
            (''product'', JStr (pr_code pr)), (''plan'', JStr (pl_code pl)), (''kind'', JStr kind)]) SNull ip req)
          (retM (int (length seeds))))))))"

fun batch_seeds :: "svc \<Rightarrow> plan \<Rightarrow> string \<Rightarrow> string \<Rightarrow> string list \<Rightarrow> card_seed list srv" where
  "batch_seeds S pl pid kind [] = retM []"
| "batch_seeds S pl pid kind (pt # pts) =
    bindM (liftE (normalize_card pt)) (\<lambda>norm. bindM random_token (\<lambda>nonce.
      bindM (liftE (card_seed_of S pl pid kind norm nonce)) (\<lambda>s.
      bindM (batch_seeds S pl pid kind pts) (\<lambda>ss. retM (s # ss)))))"

text \<open>
  The charge of a batch made for an agent: quantity times price, refused when the product
  does not fit an \<open>int64\<close>, taken from the balance and entered in the ledger.
\<close>

definition charge_agent :: "admin_context \<Rightarrow> string \<Rightarrow> plan \<Rightarrow> int \<Rightarrow> string \<Rightarrow> unit srv" where
  "charge_agent ac agent pl quantity batch_id =
    (if \<not> pl_price pl > 0 then retM ()
     else if quantity > int64_max div pl_price pl then throwM (Text ''batch cost out of range'')
     else let cost = quantity * pl_price pl in
      bindM (or_no_rows (Dom ErrInsufficientBalance) (deduct_agent_balance agent cost)) (\<lambda>after.
        insert_agent_transaction agent (- cost) after ''batch_purchase'' (Some batch_id)
          (str_opt (''cards '' @ show_int quantity @ ''x'' @ pl_code pl)) (str_opt (ad_id (ac_admin ac)))))"

definition generate_texts :: "int \<Rightarrow> string \<Rightarrow> nat list \<Rightarrow> error + string list \<times> nat list" where
  "generate_texts n pre entropy =
    (if pre = [] then generate_card_batch n entropy else generate_card_batch_with_prefix n pre entropy)"

text \<open>\<open>CreateCardBatch\<close> with the random bytes the generator reads.\<close>

definition create_card_batch :: "svc \<Rightarrow> nat list \<Rightarrow> admin_context \<Rightarrow> batch_request \<Rightarrow> string \<Rightarrow> string \<Rightarrow>
    (card_batch \<times> string list) srv" where
  "create_card_batch S entropy ac rq ip req =
    (if br_quantity rq < 1 \<or> br_quantity rq > 100000 then throwM (Text ''quantity out of range'')
     else case validate_card_prefix (br_prefix rq) of Inl _ \<Rightarrow> throwM (Text ''bad prefix'') | Inr pre \<Rightarrow>
      let kind = kind_or_license (br_kind rq) in
      if \<not> valid_kind kind then throwM (Text ''kind must be license|renewal'')
      else if br_plan rq = [] then throwM (Text ''a plan must be chosen'')
      else bindM (batch_plan (br_plan rq) (br_product rq)) (\<lambda>(pl, pr).
       seqM (agent_may_make ac (pr_id pr))
       (bindM (liftE (generate_texts (br_quantity rq) pre entropy)) (\<lambda>(texts, rest).
        bindM (batch_seeds S pl (br_product rq) kind texts) (\<lambda>seeds.
        bindM (with_tx
          (bindM (create_batch (batch_row (str_opt (br_agent rq)) (br_product rq) (br_plan rq)
              (br_quantity rq) pre (br_note rq) (ad_id (ac_admin ac))) seeds) (\<lambda>(b, cs).
            seqM (if br_agent rq = [] then retM ()
                else charge_agent ac (br_agent rq) pl (br_quantity rq) (cb_id b))
              (retM b)))) (\<lambda>b.
        seqM (audit ac ''batch.create'' ''card_batch'' (cb_id b) SNull (SMap [(''quantity'', JInt (br_quantity rq)),
            (''product'', JStr (pr_code pr)), (''plan'', JStr (pl_code pl)), (''kind'', JStr kind)]) SNull ip req)
          (retM (b, texts))))))))"

definition agent_adjust_balance :: "admin_context \<Rightarrow> string \<Rightarrow> int \<Rightarrow> string \<Rightarrow> string \<Rightarrow> string \<Rightarrow> int srv" where
  "agent_adjust_balance ac agent amt note ip req =
    (if amt = 0 then throwM (Text ''amount must be non-zero'')
     else bindM (with_tx
        (seqM (or_no_rows (Dom ErrAgentNotFound) (get_agent agent))
        (bindM (or_no_rows (Dom ErrInsufficientBalance) (top_up_agent_balance agent amt)) (\<lambda>after.
         seqM (insert_agent_transaction agent amt after (if amt < 0 then ''adjust'' else ''topup'') None
            (str_opt note) (str_opt (ad_id (ac_admin ac))))
          (retM after))))) (\<lambda>after.
      seqM (audit ac ''agent.balance'' ''agent'' agent SNull (SMap [(''amount_cents'', JInt amt),
          (''balance_after'', JInt after), (''note'', JStr note)]) SNull ip req)
        (retM after)))"

subsection \<open>Actions on cards and licences\<close>

datatype plan_step = Guarded card_status card_status | Terminal card_status

text \<open>What \<open>CardAction\<close> decides from the row it read.\<close>

definition card_plan :: "card \<Rightarrow> string \<Rightarrow> error + plan_step" where
  "card_plan c action =
    (if action = ''freeze'' then
       (if cd_status c \<noteq> CardActive \<and> cd_status c \<noteq> CardUnused then Inl (Dom ErrCardNotUsable)
        else Inr (Guarded (cd_status c) CardFrozen))
     else if action = ''unfreeze'' then
       (if cd_status c \<noteq> CardFrozen then Inl (Dom ErrCardNotUsable)
        else Inr (Guarded CardFrozen (if cd_activated c \<noteq> None then CardActive else CardUnused)))
     else if action = ''revoke'' \<or> action = ''void'' then
       (if cd_status c = CardRevoked \<or> cd_status c = CardVoided then Inl (Dom ErrCardNotUsable)
        else Inr (Terminal (if action = ''void'' then CardVoided else CardRevoked)))
     else Inl (Text ''unknown action''))"

fun step_target :: "plan_step \<Rightarrow> card_status" where
  "step_target (Guarded from to) = to"
| "step_target (Terminal to) = to"

definition status_snapshot :: "string \<Rightarrow> snapshot" where
  "status_snapshot st = SMap [(''status'', JStr st)]"

fun move_card :: "string \<Rightarrow> plan_step \<Rightarrow> unit srv" where
  "move_card cid (Guarded from to) = transition_card_status cid from to"
| "move_card cid (Terminal to) = transition_card_to_terminal cid to"

definition license_target :: "string \<Rightarrow> license_status" where
  "license_target action = (if action = ''void'' then LicenseVoided else LicenseRevoked)"

text \<open>The licence follows its card.\<close>

definition move_license :: "admin_context \<Rightarrow> string \<Rightarrow> string \<Rightarrow> string \<Rightarrow> string \<Rightarrow> unit srv" where
  "move_license ac lid action reason req =
    (if action = ''freeze'' then transition_license lid LicenseActive LicenseFrozen
     else if action = ''unfreeze'' then transition_license lid LicenseFrozen LicenseActive
     else if action = ''revoke'' \<or> action = ''void'' then
       seqM (transition_license_terminal lid (license_target action))
         (insert_license_event lid (license_status_str (license_target action)) (actor ac) req
           [(''reason'', JStr reason)])
     else retM ())"

definition card_action_tx :: "admin_context \<Rightarrow> card \<Rightarrow> plan_step \<Rightarrow> string \<Rightarrow> string \<Rightarrow> string \<Rightarrow> unit srv" where
  "card_action_tx ac c st action reason req =
    seqM (move_card (cd_id c) st)
      (case cd_license c of None \<Rightarrow> retM () | Some lid \<Rightarrow> move_license ac lid action reason req)"

definition card_action :: "admin_context \<Rightarrow> string \<Rightarrow> string \<Rightarrow> string \<Rightarrow> string \<Rightarrow> string \<Rightarrow> unit srv" where
  "card_action ac cid action reason ip req =
    bindM (get_card_by_id cid) (\<lambda>c.
    if agent_denied ac (cd_agent c) then throwM (Dom ErrCardNotFound)
    else bindM (liftE (card_plan c action)) (\<lambda>st.
      seqM (with_tx (card_action_tx ac c st action reason req))
        (audit ac (''card.'' @ action) ''card'' (cd_id c)
          (status_snapshot (card_status_str (cd_status c))) (status_snapshot (card_status_str (step_target st)))
          (SMap [(''reason'', JStr reason), (''prefix'', JStr (cd_prefix c))]) ip req)))"

text \<open>What \<open>LicenseAction\<close> decides from the row it read.\<close>

definition license_plan :: "license \<Rightarrow> string \<Rightarrow> error + license_status" where
  "license_plan l action =
    (if action \<noteq> ''freeze'' \<and> action \<noteq> ''unfreeze'' \<and> action \<noteq> ''revoke'' \<and> action \<noteq> ''void''
     then Inl (Text ''unknown action'')
     else if action = ''freeze'' then
       (if li_status l \<noteq> LicenseActive then Inl (Dom ErrLicenseRevoked) else Inr LicenseFrozen)
     else if action = ''unfreeze'' then
       (if li_status l \<noteq> LicenseFrozen then Inl (Dom ErrLicenseRevoked) else Inr LicenseActive)
     else if li_status l = LicenseRevoked \<or> li_status l = LicenseVoided then Inl (Dom ErrLicenseRevoked)
     else Inr (license_target action))"

definition card_target :: "string \<Rightarrow> card_status" where
  "card_target action = (if action = ''void'' then CardVoided else CardRevoked)"

definition license_action_tx :: "admin_context \<Rightarrow> license \<Rightarrow> license_status \<Rightarrow> string \<Rightarrow> string \<Rightarrow> string \<Rightarrow> unit srv" where
  "license_action_tx ac l target action reason req =
    (if action = ''freeze'' \<or> action = ''unfreeze'' then transition_license (li_id l) (li_status l) target
     else seqM (transition_license_terminal (li_id l) target)
      (seqM (transition_card_to_terminal (li_card l) (card_target action))
        (insert_license_event (li_id l) (license_status_str target) (actor ac) req [(''reason'', JStr reason)])))"

definition license_action :: "admin_context \<Rightarrow> string \<Rightarrow> string \<Rightarrow> string \<Rightarrow> string \<Rightarrow> string \<Rightarrow> unit srv" where
  "license_action ac lid action reason ip req =
    bindM (get_license lid) (\<lambda>l.
    if agent_denied ac (li_agent l) then throwM (Dom ErrCardNotFound)
    else bindM (liftE (license_plan l action)) (\<lambda>target.
      seqM (with_tx (license_action_tx ac l target action reason req))
        (audit ac (''license.'' @ action) ''license'' (li_id l)
          (status_snapshot (license_status_str (li_status l))) (status_snapshot (license_status_str target))
          (SMap [(''reason'', JStr reason)]) ip req)))"

definition unbind_device :: "admin_context \<Rightarrow> string \<Rightarrow> string \<Rightarrow> string \<Rightarrow> string \<Rightarrow> device srv" where
  "unbind_device ac did reason ip req =
    bindM (or_no_rows (Dom ErrDeviceNotFound) (get_device did)) (\<lambda>dev0.
    bindM (get_license (dv_license dev0)) (\<lambda>lic0.
    if agent_denied ac (li_agent lic0) then throwM (Dom ErrDeviceNotFound)
    else bindM (or_no_rows (Dom ErrDeviceNotFound) (store_unbind_device did (actor ac))) (\<lambda>dev.
      seqM (ignoreM (redis_call (\<lambda>t r. ((), drop_online t (dv_license dev) (dv_id dev) r))))
      (seqM (ignoreM (insert_license_event (dv_license dev) ''device_unbound'' (actor ac) req
          [(''device_id'', JStr (dv_id dev)), (''reason'', JStr reason)]))
      (seqM (audit ac ''device.unbind'' ''device'' (dv_id dev) SNull
          (SMap [(''status'', JStr ''unbound''), (''reason'', JStr reason)]) SNull ip req) (retM dev))))))"

definition admin_set_license_note :: "admin_context \<Rightarrow> string \<Rightarrow> string \<Rightarrow> string \<Rightarrow> string \<Rightarrow> unit srv" where
  "admin_set_license_note ac lid note ip req =
    bindM (get_license lid) (\<lambda>l.
    if agent_denied ac (li_agent l) then throwM (Dom ErrCardNotFound)
    else seqM (set_license_note lid note) (audit ac ''license.note'' ''license'' lid SNull
        (SMap [(''note'', JStr note)]) SNull ip req))"

definition admin_set_card_note :: "admin_context \<Rightarrow> string \<Rightarrow> string \<Rightarrow> string \<Rightarrow> string \<Rightarrow> unit srv" where
  "admin_set_card_note ac cid note ip req =
    bindM (get_card_by_id cid) (\<lambda>c.
    if agent_denied ac (cd_agent c) then throwM (Dom ErrCardNotFound)
    else if length note > 500 then throwM (Text ''note too long (max 500)'')
    else seqM (set_card_note cid (trim_space note)) (audit ac ''card.note'' ''card'' (cd_id c) SNull
        (SMap [(''note'', JStr note)]) SNull ip req))"

definition admin_extend_license :: "admin_context \<Rightarrow> string \<Rightarrow> int \<Rightarrow> string \<Rightarrow> string \<Rightarrow> string \<Rightarrow> time srv" where
  "admin_extend_license ac lid days reason ip req =
    (if days \<le> 0 \<or> days > 36500 then throwM (Text ''days must be 1-36500'')
     else bindM (get_license lid) (\<lambda>l.
      if agent_denied ac (li_agent l) then throwM (Dom ErrCardNotFound)
      else if li_status l = LicenseRevoked \<or> li_status l = LicenseVoided then throwM (Dom ErrLicenseRevoked)
      else bindM (with_tx
          (bindM (extend_license lid days) (\<lambda>e.
           seqM (insert_license_event lid ''renewed'' (actor ac) req
              [(''reason'', JStr reason), (''days'', JInt days)])
            (retM e)))) (\<lambda>e.
        seqM (audit ac ''license.extend'' ''license'' lid SNull
            (SMap [(''days'', JInt days), (''reason'', JStr reason), (''new_expiry'', JTime e)]) SNull ip req)
          (retM e))))"

end
