(* ===== verification/AdminOps.thy ===== *)
theory AdminOps
  imports AdminSvc
begin

section \<open>AdminOps: products, plans, agents, administrators, bans, the dashboard\<close>

text \<open>
  The rest of \<open>internal/service/adminsvc.go\<close>. Only a superadministrator changes accounts and
  grants; nobody disables their own account. A plan can be deleted when it is retired and has
  neither licences nor used cards.
\<close>

subsection \<open>Products\<close>

definition auto_suffix :: "nat list \<Rightarrow> string" where
  "auto_suffix entropy = map (\<lambda>b. ''ABCDEFGHJKLMNPQRSTUVWXYZ23456789'' ! (b mod 32)) (take 8 entropy)"

text \<open>The code is tried up to five times; the last one drawn is used in any case.\<close>

fun pick_code :: "nat list list \<Rightarrow> string \<Rightarrow> string srv" where
  "pick_code [] code = retM code"
| "pick_code (e # es) code =
    (let c = ''P'' @ auto_suffix e in
     bindM (tryM (get_product_by_code c)) (\<lambda>r.
       if r = Inl (Store ErrNoRows) then retM c else pick_code es c))"

definition svc_create_product :: "nat list list \<Rightarrow> admin_context \<Rightarrow> string \<Rightarrow> string \<Rightarrow> string \<Rightarrow> string \<Rightarrow> product srv" where
  "svc_create_product entropy ac code name ip req =
    bindM (if trim_space code = [] then pick_code (take 5 entropy) code else retM code) (\<lambda>c.
    bindM (create_product c name) (\<lambda>p.
    seqM (audit ac ''product.create'' ''product'' (pr_id p) SNull (SProduct p) SNull ip req) (retM p)))"

definition product_status :: "admin_context \<Rightarrow> string \<Rightarrow> string \<Rightarrow> string \<Rightarrow> string \<Rightarrow> unit srv" where
  "product_status ac pid st ip req =
    (if st \<noteq> ''active'' \<and> st \<noteq> ''retired'' then throwM (Text ''bad status'')
     else seqM (set_product_status pid st) (audit ac ''product.status'' ''product'' pid SNull (status_snapshot st) SNull ip req))"

subsection \<open>Plans\<close>

definition or_default :: "int \<Rightarrow> int \<Rightarrow> int" where
  "or_default dflt x = (if x = 0 then dflt else x)"

definition validate_plan :: "plan \<Rightarrow> error + unit" where
  "validate_plan p =
    (if pl_kind p = ''duration'' \<and> pl_days p \<le> 0 then Inl (Text ''duration plan needs duration_days > 0'')
     else if pl_kind p = ''fixed'' \<and> pl_fixed_days p \<le> 0 then Inl (Text ''fixed plan needs fixed_expiry_days > 0'')
     else if pl_kind p = ''uses'' \<and> pl_uses p \<le> 0 then Inl (Text ''uses plan needs uses_total > 0'')
     else if \<not> in_strs (pl_kind p) [''duration'', ''fixed'', ''permanent'', ''uses''] then
       Inl (Text ''kind must be duration|fixed|permanent|uses'')
     else if pl_devices p < 1 \<or> pl_concurrent p < 1 then Inl (Text ''device_limit / concurrent_limit must be >= 1'')
     else Inr ())"

definition plan_defaults :: "int \<Rightarrow> int \<Rightarrow> int \<Rightarrow> int \<Rightarrow> plan \<Rightarrow> plan" where
  "plan_defaults hb ttl cool reb p = p\<lparr>pl_heartbeat := or_default hb (pl_heartbeat p),
     pl_lease_ttl := or_default ttl (pl_lease_ttl p), pl_cooldown := or_default cool (pl_cooldown p),
     pl_rebinds := or_default reb (pl_rebinds p)\<rparr>"

definition svc_create_plan :: "admin_context \<Rightarrow> plan \<Rightarrow> string \<Rightarrow> string \<Rightarrow> plan srv" where
  "svc_create_plan ac p0 ip req =
    (let p = plan_defaults 60 300 24 2 p0 in
     seqM (liftE (validate_plan p))
     (bindM (create_plan p) (\<lambda>pl.
      seqM (audit ac ''plan.create'' ''plan'' (pl_id pl) SNull (SPlan pl) SNull ip req) (retM pl))))"

definition svc_update_plan :: "admin_context \<Rightarrow> string \<Rightarrow> plan \<Rightarrow> string \<Rightarrow> string \<Rightarrow> plan srv" where
  "svc_update_plan ac key in0 ip req =
    bindM (get_plan key) (\<lambda>old.
    let p = plan_defaults (pl_heartbeat old) (pl_lease_ttl old) (pl_cooldown old) (pl_rebinds old)
      (in0\<lparr>pl_id := pl_id old, pl_product := pl_product old, pl_code := pl_code old, pl_kind := pl_kind old,
        pl_status := pl_status old, pl_created := pl_created old\<rparr>) in
    seqM (liftE (validate_plan p))
    (if pl_price p < 0 then throwM (Text ''price cannot be negative'')
     else bindM (with_tx (bindM (update_plan p) (\<lambda>u. seqM (touch_licenses_policy key) (retM u)))) (\<lambda>u.
      seqM (audit ac ''plan.update'' ''plan'' key (SPlan old) (SPlan u) SNull ip req) (retM u))))"

definition svc_delete_plan :: "admin_context \<Rightarrow> string \<Rightarrow> string \<Rightarrow> string \<Rightarrow> unit srv" where
  "svc_delete_plan ac key ip req =
    bindM (get_plan key) (\<lambda>p.
    if pl_status p \<noteq> ''retired'' then throwM (Dom ErrPlanNotRetired)
    else bindM (count_plan_licenses key) (\<lambda>n.
    if n > 0 then throwM (Dom ErrPlanInUse)
    else bindM (count_plan_live_cards key) (\<lambda>m.
    if m > 0 then throwM (Dom ErrPlanInUse)
    else seqM (with_tx (seqM (void_and_delete_unused_cards key)
          (seqM (delete_batches_by_plan key) (delete_plan key))))
      (audit ac ''plan.delete'' ''plan'' key (SPlan p) SNull SNull ip req))))"

definition plan_status :: "admin_context \<Rightarrow> string \<Rightarrow> string \<Rightarrow> string \<Rightarrow> string \<Rightarrow> unit srv" where
  "plan_status ac key st ip req =
    (if st \<noteq> ''active'' \<and> st \<noteq> ''retired'' then throwM (Text ''bad status'')
     else seqM (with_tx (seqM (set_plan_status key st) (touch_licenses_policy key)))
      (audit ac ''plan.status'' ''plan'' key SNull (status_snapshot st) SNull ip req))"

subsection \<open>Agents\<close>

definition only_super :: "admin_context \<Rightarrow> string \<Rightarrow> unit srv" where
  "only_super ac msg = guardM (is_super ac) (Text msg)"

definition list_agent_product_grants :: "admin_context \<Rightarrow> string \<Rightarrow> string list srv" where
  "list_agent_product_grants ac agent =
    seqM (only_super ac ''only superadmin can view agent grants'') (list_agent_products agent)"

definition set_agent_product_grant :: "admin_context \<Rightarrow> string \<Rightarrow> string \<Rightarrow> bool \<Rightarrow> string \<Rightarrow> string \<Rightarrow> unit srv" where
  "set_agent_product_grant ac agent pid granted ip req =
    seqM (only_super ac ''only superadmin can grant products'')
    (seqM (get_agent agent)
    (seqM (get_product pid)
    (seqM (if granted then grant_agent_product agent pid else revoke_agent_product agent pid)
      (audit ac ''agent.product_grant'' ''agent'' agent SNull
        (SMap [(''product_id'', JStr pid), (''granted'', JBool granted)]) SNull ip req))))"

definition get_agent_account :: "admin_context \<Rightarrow> string \<Rightarrow> admin srv" where
  "get_agent_account ac agent =
    seqM (only_super ac ''only superadmin can view agent accounts'') (get_agent_admin agent)"

definition reset_agent_password :: "svc \<Rightarrow> string \<Rightarrow> string \<Rightarrow> unit srv" where
  "reset_agent_password S admin_id pw =
    (if pw = [] then retM ()
     else if length pw < 12 then throwM (Text ''password must be >= 12 chars'')
     else bindM (hash_admin_password S pw) (\<lambda>h.
       seqM (reset_admin_password admin_id h) (revoke_all_sessions admin_id)))"

text \<open>The user name the account ends with, and the password when one was set.\<close>

definition update_agent_account :: "svc \<Rightarrow> admin_context \<Rightarrow> string \<Rightarrow> string \<Rightarrow> string \<Rightarrow> string \<Rightarrow> string \<Rightarrow> string \<Rightarrow>
    (string \<times> string) srv" where
  "update_agent_account S ac agent admin_id name pw ip req =
    seqM (only_super ac ''only superadmin can update agent accounts'')
    (bindM (get_admin admin_id) (\<lambda>ad.
     if ad_role ad \<noteq> ''agent'' \<or> ad_agent ad \<noteq> Some agent then throwM (Dom ErrCardNotFound)
     else let rename = (name \<noteq> [] \<and> name \<noteq> ad_username ad) in
      seqM (if rename then update_admin_username admin_id name else retM ())
      (seqM (reset_agent_password S admin_id pw)
      (let username = (if rename then name else ad_username ad) in
       seqM (audit ac ''agent.account_update'' ''admin'' admin_id SNull
          (SMap [(''username'', JStr username), (''password_reset'', JBool (pw \<noteq> []))]) SNull ip req)
        (retM (username, pw))))))"

definition agent_account_row :: "string \<Rightarrow> string \<Rightarrow> string \<Rightarrow> string \<Rightarrow> string option \<Rightarrow> admin" where
  "agent_account_row username h name role agent = \<lparr>ad_id = [], ad_username = username, ad_password = h,
     ad_display = name, ad_role = role, ad_agent = agent, ad_totp = None, ad_mfa = False, ad_status = [],
     ad_failed = 0, ad_locked = None, ad_must_change = True, ad_created = 0, ad_last_login = None\<rparr>"

definition svc_create_agent :: "svc \<Rightarrow> admin_context \<Rightarrow> string \<Rightarrow> string option \<Rightarrow> string \<Rightarrow> string \<Rightarrow> string \<Rightarrow> string \<Rightarrow>
    (agent \<times> admin option) srv" where
  "svc_create_agent S ac name parent username pw ip req =
    (if is_agent ac \<and> (ad_agent (ac_admin ac) = None \<or> parent = None \<or> parent \<noteq> ad_agent (ac_admin ac))
     then throwM (Dom ErrCardNotFound)
     else if username \<noteq> [] \<and> \<not> is_super ac then throwM (Text ''only superadmin can create agent accounts'')
     else bindM (with_tx
        (bindM (create_agent name parent) (\<lambda>a.
         if username = [] then retM (a, None)
         else if length pw < 12 then throwM (Text ''password must be >= 12 chars'')
         else bindM (hash_admin_password S pw) (\<lambda>h.
          bindM (store_create_admin (agent_account_row username h name ''agent'' (Some (ag_id a)))) (\<lambda>ad.
            retM (a, Some ad)))))) (\<lambda>(a, ad).
      seqM (audit ac ''agent.create'' ''agent'' (ag_id a) SNull (SAgent a) SNull ip req)
      (seqM (case ad of None \<Rightarrow> retM () | Some x \<Rightarrow> audit ac ''admin.create'' ''admin'' (ad_id x) SNull
          (SMap [(''username'', JStr (ad_username x)), (''role'', JStr (ad_role x)), (''agent_id'', JStr (ag_id a))])
          SNull ip req)
        (retM (a, ad)))))"

definition agent_status :: "admin_context \<Rightarrow> string \<Rightarrow> string \<Rightarrow> string \<Rightarrow> string \<Rightarrow> unit srv" where
  "agent_status ac key st ip req =
    (if st \<noteq> ''active'' \<and> st \<noteq> ''suspended'' then throwM (Text ''bad status'')
     else seqM (if is_agent ac then
          bindM (tryM (get_agent key)) (\<lambda>r. case r of Inl _ \<Rightarrow> throwM (Dom ErrCardNotFound)
            | Inr ag \<Rightarrow> guardM (ad_agent (ac_admin ac) = Some (ag_id ag)) (Dom ErrCardNotFound))
        else retM ())
      (seqM (set_agent_status key st)
        (audit ac ''agent.status'' ''agent'' key SNull (status_snapshot st) SNull ip req)))"

subsection \<open>Administrators\<close>

definition create_admin :: "svc \<Rightarrow> admin_context \<Rightarrow> string \<Rightarrow> string \<Rightarrow> string \<Rightarrow> string \<Rightarrow> string option \<Rightarrow> string \<Rightarrow> string \<Rightarrow>
    admin srv" where
  "create_admin S ac username display pw role agent ip req =
    seqM (only_super ac ''only superadmin can create admins'')
    (if role_of_string role = None then throwM (Text ''bad role'')
     else if length pw < 12 then throwM (Text ''password must be >= 12 chars'')
     else bindM (hash_admin_password S pw) (\<lambda>h.
      bindM (store_create_admin (agent_account_row username h display role agent)) (\<lambda>a.
      seqM (audit ac ''admin.create'' ''admin'' (ad_id a) SNull
          (SMap [(''username'', JStr (ad_username a)), (''role'', JStr (ad_role a))]) SNull ip req) (retM a))))"

definition svc_set_admin_status :: "admin_context \<Rightarrow> string \<Rightarrow> string \<Rightarrow> string \<Rightarrow> string \<Rightarrow> unit srv" where
  "svc_set_admin_status ac key st ip req =
    seqM (only_super ac ''only superadmin can disable admins'')
    (if st \<noteq> ''active'' \<and> st \<noteq> ''disabled'' then throwM (Text ''bad status'')
     else if key = ad_id (ac_admin ac) then throwM (Text ''cannot disable self'')
     else seqM (set_admin_status key st)
      (seqM (if st = ''disabled'' then ignoreM (revoke_all_sessions key) else retM ())
        (audit ac ''admin.status'' ''admin'' key SNull (status_snapshot st) SNull ip req)))"

subsection \<open>Bans and the dashboard\<close>

definition create_ban :: "admin_context \<Rightarrow> string \<Rightarrow> string \<Rightarrow> string \<Rightarrow> time option \<Rightarrow> string \<Rightarrow> string \<Rightarrow> ban srv" where
  "create_ban ac kind val0 reason til ip req =
    (let val = (if kind = ''card_prefix'' then to_upper (trim_space val0) else val0) in
     if \<not> in_strs kind [''ip'', ''device'', ''card_prefix'', ''client_version'', ''asn''] then throwM (Text ''bad ban kind'')
     else bindM (store_create_ban kind val reason (ad_id (ac_admin ac)) til) (\<lambda>b.
      seqM (audit ac ''ban.create'' ''ban'' (bn_id b) SNull (SBan b) SNull ip req) (retM b)))"

definition delete_ban :: "admin_context \<Rightarrow> string \<Rightarrow> string \<Rightarrow> string \<Rightarrow> string \<Rightarrow> unit srv" where
  "delete_ban ac kind val ip req =
    seqM (store_delete_ban kind val) (audit ac ''ban.delete'' ''ban'' (kind @ '':'' @ val) SNull SNull SNull ip req)"

record stats =
  st_cards :: "(card_status \<times> int) list"
  st_active_licenses :: int
  st_misc :: "int \<times> int \<times> int \<times> int \<times> int"
  st_online :: int
  st_trend :: "(int \<times> int) list"

definition get_stats :: "stats srv" where
  "get_stats =
    bindM count_cards_by_status (\<lambda>cs.
    bindM (count_licenses_by_status ''active'') (\<lambda>n.
    bindM count_misc (\<lambda>m.
    bindM (count_recent_heartbeats (300 * second)) (\<lambda>o_now.
    bindM (tryM daily_activation_trend) (\<lambda>tr.
      retM \<lparr>st_cards = cs, st_active_licenses = n, st_misc = m, st_online = o_now,
        st_trend = (case tr of Inl _ \<Rightarrow> [] | Inr x \<Rightarrow> x)\<rparr>)))))"

end
