(* ===== verification/AdminApi.thy ===== *)
theory AdminApi
  imports Http AdminOps
begin

section \<open>AdminApi: the back office API\<close>

text \<open>
  \<open>internal/httpapi/admin.go\<close>: the session and permission middlewares, and the handlers of the
  accounts, the catalogue, cards, licences, devices, agents, administrators, audit and risk. A
  handler gets the session's administrator from the context as \<open>ac\<close>. Random bytes a handler
  draws for card texts and product codes are arguments.
\<close>

datatype listing = Products "product list" | Plans "plan list" | Batches "card_batch list" | Cards "card list"
  | Licenses "license list" | Devices "device list" | Agents "agent list" | Ids "string list"
  | Ledger "agent_tx list" | Admins "admin list" | Audits "audit_log list" | Risks "risk_event list"
  | Bans "ban list" | Users "end_user list" | Messages "soft_message list" | Versions "product_version list"

text \<open>\<open>{"items": .., "total": ..}\<close>, or one value.\<close>

datatype admin_payload = AdminOk | Items listing "int option"
  | MfaRequired | LoggedIn string admin "permission list" | MeBody admin "permission list" string "int option"
  | MfaSecret string string | NewCsrf string
  | OneProduct product | OnePlan plan | NewBatch card_batch "string list" | Imported int
  | CardText string | Bulk int "(string \<times> error) list"
  | LicenseDetail license "device list" "license_event list" "string list" | Expiry time
  | OneDevice device | NewAgent agent "(string \<times> string) option" | AgentLogin string string | Balance int
  | OneAdmin admin | OneBan ban | Keys "kex_row list" "string list" string | Dashboard stats
  | UserDetail end_user "end_user_log list" | OneMessage soft_message | OneVersion product_version
  | RateLimits "string list" "string \<Rightarrow> int option" "(string \<times> int) list"

type_synonym admin_response = "admin_payload http_response"

definition ok_body :: "'a \<Rightarrow> admin_response srv" where
  "ok_body x = retM (write_json 200 AdminOk)"

definition send :: "admin_payload \<Rightarrow> admin_response srv" where
  "send p = retM (write_json 200 p)"

definition created :: "admin_payload \<Rightarrow> admin_response srv" where
  "created p = retM (write_json 201 p)"

subsection \<open>Who may ask\<close>

definition read_method :: "string \<Rightarrow> bool" where
  "read_method m \<longleftrightarrow> m = ''GET'' \<or> m = ''HEAD''"

definition allowed_before_password_change :: "string list" where
  "allowed_before_password_change = [''/admin/v1/auth/me'', ''/admin/v1/auth/password'', ''/admin/v1/auth/logout'',
     ''/admin/v1/auth/mfa/setup'', ''/admin/v1/auth/mfa/enable'', ''/admin/v1/auth/mfa/disable'']"

definition require_admin_session :: "svc \<Rightarrow> http_request \<Rightarrow> (admin_context \<Rightarrow> http_ctx \<Rightarrow> admin_response srv) \<Rightarrow>
    http_ctx \<Rightarrow> admin_response srv" where
  "require_admin_session S rq next cx = (case hq_cookie rq of
     None \<Rightarrow> refuse cx 401 ''UNAUTHORIZED''
   | Some tok \<Rightarrow> if tok = [] then refuse cx 401 ''UNAUTHORIZED''
     else bindM (tryM (resolve_session S tok)) (\<lambda>r. case r of
       Inl _ \<Rightarrow> refuse cx 401 ''UNAUTHORIZED''
     | Inr ac \<Rightarrow>
       if \<not> read_method (hq_method rq) \<and> check_csrf ac (hq_header rq ''X-CSRF-Token'') \<noteq> Inr ()
       then refuse cx 403 ''CSRF''
       else if ad_must_change (ac_admin ac) \<and> hq_path rq \<notin> set allowed_before_password_change
       then refuse cx 403 ''PASSWORD_CHANGE_REQUIRED''
       else next ac (cx\<lparr>hc_admin := Some ac\<rparr>)))"

definition role_allows :: "admin \<Rightarrow> permission \<Rightarrow> bool" where
  "role_allows a p = (case role_of_string (ad_role a) of None \<Rightarrow> False | Some r \<Rightarrow> role_has r p)"

definition require_perm :: "permission \<Rightarrow> (admin_context \<Rightarrow> http_ctx \<Rightarrow> admin_response srv) \<Rightarrow> admin_context \<Rightarrow> http_ctx \<Rightarrow>
    admin_response srv" where
  "require_perm p next ac cx =
     (if \<not> role_allows (ac_admin ac) p then refuse cx 403 ''FORBIDDEN'' else next ac cx)"

definition agent_scope :: "admin_context \<Rightarrow> string" where
  "agent_scope ac = (if is_agent ac then (case ad_agent (ac_admin ac) of None \<Rightarrow> [] | Some a \<Rightarrow> a) else [])"

definition permissions_of :: "admin \<Rightarrow> permission list" where
  "permissions_of a = (case role_of_string (ad_role a) of None \<Rightarrow> [] | Some r \<Rightarrow> role_permissions r)"

subsection \<open>Accounts\<close>

record login_req =
  lq_username :: string
  lq_password :: string
  lq_totp :: string

definition login_fields :: "login_req js_field list" where
  "login_fields = [js_string ''username'' (\<lambda>x. lq_username_update (\<lambda>_. x)),
     js_string ''password'' (\<lambda>x. lq_password_update (\<lambda>_. x)), js_string ''totp'' (\<lambda>x. lq_totp_update (\<lambda>_. x))]"

definition session_cookie :: "site \<Rightarrow> string \<Rightarrow> admin_response \<Rightarrow> admin_response" where
  "session_cookie site tok r = r\<lparr>hs_cookie := Some (tok, c_session_ttl (si_cfg site) div second)\<rparr>"

definition login_refused :: "http_ctx \<Rightarrow> error \<Rightarrow> admin_response" where
  "login_refused cx e =
    (if e = Service ErrMFARequired then write_json 200 MfaRequired
     else if e = Service ErrAccountLocked then error_writer cx 423 ''LOCKED''
     else if e = Service ErrMFABad then error_writer cx 401 ''MFA_INVALID''
     else if e = Service ErrSessionGone then error_writer cx 500 ''INTERNAL''
     else if e = Service ErrBadCredentials then error_writer cx 401 ''BAD_CREDENTIALS''
     else map_error cx e)"

definition handle_admin_login :: "svc \<Rightarrow> site \<Rightarrow> nat option \<Rightarrow> http_request \<Rightarrow> http_ctx \<Rightarrow> admin_response srv" where
  "handle_admin_login S site lim rq cx =
    (let rpm = (if c_login_rpm (si_cfg site) \<le> 0 then 10 else c_login_rpm (si_cfg site)) in
     bindM (tryM (cache_rate_limit (''adminlogin:'' @ hc_ip cx) rpm)) (\<lambda>r.
     if r = Inr False then refuse cx 429 ''RATE_LIMITED''
     else with_json lim login_fields \<lparr>lq_username = [], lq_password = [], lq_totp = []\<rparr> rq cx (\<lambda>q.
       bindM (tryM (admin_login S (lq_username q) (lq_password q) (lq_totp q) (hc_ip cx) (hc_rid cx))) (\<lambda>r. case r of
         Inl e \<Rightarrow> retM (login_refused cx e)
       | Inr res \<Rightarrow> retM (session_cookie site (lr_token res)
           (write_json 200 (LoggedIn (lr_csrf res) (lr_admin res) (permissions_of (lr_admin res)))))))))"

definition handle_admin_logout :: "svc \<Rightarrow> http_request \<Rightarrow> http_ctx \<Rightarrow> admin_response srv" where
  "handle_admin_logout S rq cx =
    seqM (case hq_cookie rq of None \<Rightarrow> retM () | Some tok \<Rightarrow>
        if tok = [] then retM ()
        else bindM (tryM (resolve_session S tok)) (\<lambda>r. case r of Inl _ \<Rightarrow> retM ()
          | Inr ac \<Rightarrow> seqM (ignoreM (revoke_session (se_id (ac_session ac))))
              (audit ac ''auth.logout'' [] [] SNull SNull SNull (hc_ip cx) (hc_rid cx))))
      (retM ((write_json 200 AdminOk)\<lparr>hs_cookie := Some ([], -1)\<rparr>))"

definition handle_me :: "admin_context \<Rightarrow> http_ctx \<Rightarrow> admin_response srv" where
  "handle_me ac cx = (let a = ac_admin ac in
     bindM (case (if is_agent ac then ad_agent a else None) of None \<Rightarrow> retM None
       | Some g \<Rightarrow> bindM (tryM (get_agent g)) (\<lambda>r. retM (case r of Inl _ \<Rightarrow> None | Inr ag \<Rightarrow> Some (ag_balance ag))))
      (\<lambda>bal. send (MeBody a (permissions_of a) (se_csrf (ac_session ac)) bal)))"

definition handle_mfa_setup :: "svc \<Rightarrow> admin_context \<Rightarrow> http_ctx \<Rightarrow> admin_response srv" where
  "handle_mfa_setup S ac cx = answer cx (mfa_setup S ac) (\<lambda>secret.
     send (MfaSecret secret (mfa_uri secret (ad_username (ac_admin ac)))))"

text \<open>One field of a request, as the handlers with a single string use it.\<close>

definition with_text :: "string \<Rightarrow> http_request \<Rightarrow> http_ctx \<Rightarrow> (string \<Rightarrow> admin_response srv) \<Rightarrow> admin_response srv" where
  "with_text name rq cx k = with_json None [js_string name (\<lambda>x _. x)] [] rq cx k"

definition handle_mfa_enable :: "svc \<Rightarrow> http_request \<Rightarrow> admin_context \<Rightarrow> http_ctx \<Rightarrow> admin_response srv" where
  "handle_mfa_enable S rq ac cx = with_text ''code'' rq cx (\<lambda>code.
     bindM (tryM (mfa_enable S ac code)) (\<lambda>r. case r of
       Inl _ \<Rightarrow> refuse cx 400 ''MFA_INVALID'' | Inr _ \<Rightarrow> send AdminOk))"

definition handle_mfa_disable :: "svc \<Rightarrow> http_request \<Rightarrow> admin_context \<Rightarrow> http_ctx \<Rightarrow> admin_response srv" where
  "handle_mfa_disable S rq ac cx = with_text ''password'' rq cx (\<lambda>pw.
     bindM (tryM (mfa_disable S ac pw)) (\<lambda>r. case r of Inl _ \<Rightarrow> bad_request cx | Inr _ \<Rightarrow> send AdminOk))"

definition password_fields :: "(string \<times> string) js_field list" where
  "password_fields = [js_string ''old_password'' (\<lambda>x p. (x, snd p)), js_string ''new_password'' (\<lambda>x p. (fst p, x))]"

definition handle_password_change :: "svc \<Rightarrow> site \<Rightarrow> http_request \<Rightarrow> admin_context \<Rightarrow> http_ctx \<Rightarrow> admin_response srv" where
  "handle_password_change S site rq ac cx = with_json None password_fields ([], []) rq cx (\<lambda>(old_pw, new_pw).
     bindM (tryM (admin_change_password S ac old_pw new_pw)) (\<lambda>r. case r of Inl _ \<Rightarrow> bad_request cx
       | Inr (tok, csrf) \<Rightarrow> retM (session_cookie site tok (write_json 200 (NewCsrf csrf)))))"

subsection \<open>Products and plans\<close>

text \<open>An agent's products: those opened to it; nothing is filtered when the account has no agent.\<close>

definition handle_list_products :: "admin_context \<Rightarrow> http_ctx \<Rightarrow> admin_response srv" where
  "handle_list_products ac cx = answer cx list_products (\<lambda>ps.
     case (if is_agent ac then ad_agent (ac_admin ac) else None) of None \<Rightarrow> send (Items (Products ps) None)
     | Some g \<Rightarrow> answer cx (list_agent_products g) (\<lambda>ids. send (Items (Products (filter (\<lambda>p. pr_id p \<in> set ids) ps)) None)))"

definition handle_list_plans :: "http_request \<Rightarrow> admin_context \<Rightarrow> http_ctx \<Rightarrow> admin_response srv" where
  "handle_list_plans rq ac cx = answer cx (list_plans (url_query rq ''product_id'')) (\<lambda>ps.
     if \<not> is_agent ac then send (Items (Plans ps) None)
     else let onsale = (\<lambda>seen p. pl_status p = ''active'' \<and> seen p) in
       (case ad_agent (ac_admin ac) of None \<Rightarrow> send (Items (Plans (filter (onsale (\<lambda>_. True)) ps)) None)
        | Some g \<Rightarrow> answer cx (list_agent_products g)
            (\<lambda>ids. send (Items (Plans (filter (onsale (\<lambda>p. pl_product p \<in> set ids)) ps)) None))))"

definition handle_create_product :: "nat list list \<Rightarrow> http_request \<Rightarrow> admin_context \<Rightarrow> http_ctx \<Rightarrow> admin_response srv" where
  "handle_create_product entropy rq ac cx =
    with_json None [js_string ''code'' (\<lambda>x p. (x, snd p)), js_string ''name'' (\<lambda>x p. (fst p, x))] ([], []) rq cx
      (\<lambda>(code, name). answer cx (svc_create_product entropy ac code name (hc_ip cx) (hc_rid cx))
        (\<lambda>p. created (OneProduct p)))"

definition handle_product_status :: "string \<Rightarrow> http_request \<Rightarrow> admin_context \<Rightarrow> http_ctx \<Rightarrow> admin_response srv" where
  "handle_product_status key rq ac cx = with_text ''status'' rq cx (\<lambda>st.
     answer cx (product_status ac key st (hc_ip cx) (hc_rid cx)) ok_body)"

text \<open>\<open>store.Plan\<close> as a request body; \<open>created_at\<close> must be a time when it is given.\<close>

definition js_time :: "(string \<Rightarrow> time option) \<Rightarrow> string \<Rightarrow> (time \<Rightarrow> 'r \<Rightarrow> 'r) \<Rightarrow> 'r js_field" where
  "js_time parse name set_it = (name, \<lambda>v r. case v of JsNull \<Rightarrow> (True, r)
     | JsStr s \<Rightarrow> (case parse s of None \<Rightarrow> (False, r) | Some t \<Rightarrow> (True, set_it t r)) | _ \<Rightarrow> (False, r))"

definition no_plan :: plan where
  "no_plan = \<lparr>pl_id = [], pl_product = [], pl_code = [], pl_name = [], pl_kind = [], pl_days = 0, pl_fixed_days = 0,
     pl_uses = 0, pl_devices = 0, pl_concurrent = 0, pl_features = [], pl_grace = 0, pl_lease_ttl = 0,
     pl_heartbeat = 0, pl_cooldown = 0, pl_rebinds = 0, pl_min_version = [], pl_price = 0, pl_status = [],
     pl_created = 0\<rparr>"

definition plan_fields :: "site \<Rightarrow> plan js_field list" where
  "plan_fields site = [js_string ''id'' (\<lambda>x. pl_id_update (\<lambda>_. x)),
     js_string ''product_id'' (\<lambda>x. pl_product_update (\<lambda>_. x)), js_string ''code'' (\<lambda>x. pl_code_update (\<lambda>_. x)),
     js_string ''name'' (\<lambda>x. pl_name_update (\<lambda>_. x)), js_string ''kind'' (\<lambda>x. pl_kind_update (\<lambda>_. x)),
     js_int ''duration_days'' (\<lambda>x. pl_days_update (\<lambda>_. x)),
     js_int ''fixed_expiry_days'' (\<lambda>x. pl_fixed_days_update (\<lambda>_. x)),
     js_int ''uses_total'' (\<lambda>x. pl_uses_update (\<lambda>_. x)), js_int ''device_limit'' (\<lambda>x. pl_devices_update (\<lambda>_. x)),
     js_int ''concurrent_limit'' (\<lambda>x. pl_concurrent_update (\<lambda>_. x)),
     js_strings ''features'' (\<lambda>x. pl_features_update (\<lambda>_. x)),
     js_int ''offline_grace_seconds'' (\<lambda>x. pl_grace_update (\<lambda>_. x)),
     js_int ''lease_ttl_seconds'' (\<lambda>x. pl_lease_ttl_update (\<lambda>_. x)),
     js_int ''heartbeat_interval_seconds'' (\<lambda>x. pl_heartbeat_update (\<lambda>_. x)),
     js_int ''rebind_cooldown_hours'' (\<lambda>x. pl_cooldown_update (\<lambda>_. x)),
     js_int ''monthly_rebind_limit'' (\<lambda>x. pl_rebinds_update (\<lambda>_. x)),
     js_string ''min_client_version'' (\<lambda>x. pl_min_version_update (\<lambda>_. x)),
     js_int ''price_cents'' (\<lambda>x. pl_price_update (\<lambda>_. x)), js_string ''status'' (\<lambda>x. pl_status_update (\<lambda>_. x)),
     js_time (si_time site) ''created_at'' (\<lambda>x. pl_created_update (\<lambda>_. x))]"

definition handle_create_plan :: "site \<Rightarrow> http_request \<Rightarrow> admin_context \<Rightarrow> http_ctx \<Rightarrow> admin_response srv" where
  "handle_create_plan site rq ac cx = with_json None (plan_fields site) no_plan rq cx (\<lambda>p.
     answer cx (svc_create_plan ac p (hc_ip cx) (hc_rid cx)) (\<lambda>x. created (OnePlan x)))"

definition handle_plan_detail :: "string \<Rightarrow> http_ctx \<Rightarrow> admin_response srv" where
  "handle_plan_detail key cx = answer cx (get_plan key) (\<lambda>p. send (OnePlan p))"

definition handle_update_plan :: "site \<Rightarrow> string \<Rightarrow> http_request \<Rightarrow> admin_context \<Rightarrow> http_ctx \<Rightarrow> admin_response srv" where
  "handle_update_plan site key rq ac cx = with_json None (plan_fields site) no_plan rq cx (\<lambda>p.
     answer cx (svc_update_plan ac key p (hc_ip cx) (hc_rid cx)) (\<lambda>x. send (OnePlan x)))"

definition handle_delete_plan :: "string \<Rightarrow> admin_context \<Rightarrow> http_ctx \<Rightarrow> admin_response srv" where
  "handle_delete_plan key ac cx = answer cx (svc_delete_plan ac key (hc_ip cx) (hc_rid cx)) ok_body"

definition handle_plan_status :: "string \<Rightarrow> http_request \<Rightarrow> admin_context \<Rightarrow> http_ctx \<Rightarrow> admin_response srv" where
  "handle_plan_status key rq ac cx = with_text ''status'' rq cx (\<lambda>st.
     answer cx (plan_status ac key st (hc_ip cx) (hc_rid cx)) ok_body)"

end
