(* ===== verification/AdminCards.thy ===== *)
theory AdminCards
  imports AdminApi
begin

section \<open>AdminCards: handlers on cards, licences and devices\<close>

text \<open>
  The handlers of \<open>admin.go\<close> and \<open>adminops.go\<close> on batches, cards, licences and devices. An agent's
  lists are cut down by \<open>agent_scope\<close>, single objects by \<open>agent_denied\<close>.
\<close>

subsection \<open>Batches and cards\<close>

record import_req =
  iq_product :: string
  iq_plan :: string
  iq_cards :: "string list"
  iq_kind :: string
  iq_note :: string

definition import_fields :: "import_req js_field list" where
  "import_fields = [js_string ''product_id'' (\<lambda>x. iq_product_update (\<lambda>_. x)),
     js_string ''plan_id'' (\<lambda>x. iq_plan_update (\<lambda>_. x)), js_strings ''cards'' (\<lambda>x. iq_cards_update (\<lambda>_. x)),
     js_string ''kind'' (\<lambda>x. iq_kind_update (\<lambda>_. x)), js_string ''note'' (\<lambda>x. iq_note_update (\<lambda>_. x))]"

definition handle_import_cards :: "svc \<Rightarrow> http_request \<Rightarrow> admin_context \<Rightarrow> http_ctx \<Rightarrow> admin_response srv" where
  "handle_import_cards S rq ac cx =
    with_json None import_fields \<lparr>iq_product = [], iq_plan = [], iq_cards = [], iq_kind = [], iq_note = []\<rparr> rq cx (\<lambda>q.
      answer cx (import_cards S ac (iq_product q) (iq_plan q) (iq_cards q) (iq_kind q) (iq_note q) (hc_ip cx) (hc_rid cx))
        (\<lambda>n. created (Imported n)))"

definition batch_fields :: "batch_request js_field list" where
  "batch_fields = [js_string ''product_id'' (\<lambda>x. br_product_update (\<lambda>_. x)),
     js_string ''plan_id'' (\<lambda>x. br_plan_update (\<lambda>_. x)), js_string ''agent_id'' (\<lambda>x. br_agent_update (\<lambda>_. x)),
     js_string ''kind'' (\<lambda>x. br_kind_update (\<lambda>_. x)), js_int ''quantity'' (\<lambda>x. br_quantity_update (\<lambda>_. x)),
     js_string ''prefix'' (\<lambda>x. br_prefix_update (\<lambda>_. x)), js_string ''note'' (\<lambda>x. br_note_update (\<lambda>_. x))]"

definition send_batch :: "svc \<Rightarrow> nat list \<Rightarrow> admin_context \<Rightarrow> batch_request \<Rightarrow> http_ctx \<Rightarrow> admin_response srv" where
  "send_batch S entropy ac q cx = answer cx (create_card_batch S entropy ac q (hc_ip cx) (hc_rid cx))
     (\<lambda>(b, texts). created (NewBatch b texts))"

text \<open>An agent makes cards for itself, whatever the request says.\<close>

definition handle_create_batch :: "svc \<Rightarrow> nat list \<Rightarrow> http_request \<Rightarrow> admin_context \<Rightarrow> http_ctx \<Rightarrow> admin_response srv" where
  "handle_create_batch S entropy rq ac cx =
    with_json None batch_fields \<lparr>br_product = [], br_plan = [], br_agent = [], br_kind = [], br_quantity = 0,
        br_prefix = [], br_note = []\<rparr> rq cx (\<lambda>q.
      if is_agent ac then (case ad_agent (ac_admin ac) of None \<Rightarrow> refuse cx 403 ''FORBIDDEN''
        | Some g \<Rightarrow> send_batch S entropy ac (q\<lparr>br_agent := g\<rparr>) cx)
      else send_batch S entropy ac q cx)"

definition handle_list_batches :: "http_request \<Rightarrow> admin_context \<Rightarrow> http_ctx \<Rightarrow> admin_response srv" where
  "handle_list_batches rq ac cx = (case page_params rq of (lim, off) \<Rightarrow>
     answer cx (list_batches (agent_scope ac) lim off) (\<lambda>(bs, n). send (Items (Batches bs) (Some n))))"

definition card_query :: "http_request \<Rightarrow> admin_context \<Rightarrow> card_filter" where
  "card_query rq ac = \<lparr>cf_agent = (if is_agent ac then agent_scope ac else url_query rq ''agent_id''),
     cf_prefix = url_query rq ''prefix'', cf_batch = url_query rq ''batch_id'', cf_status = url_query rq ''status'',
     cf_kind = url_query rq ''kind'', cf_plan = url_query rq ''plan_id'', cf_product = url_query rq ''product_id'',
     cf_search = url_query rq ''q''\<rparr>"

definition handle_list_cards :: "http_request \<Rightarrow> admin_context \<Rightarrow> http_ctx \<Rightarrow> admin_response srv" where
  "handle_list_cards rq ac cx = (case page_params rq of (lim, off) \<Rightarrow>
     answer cx (list_cards (card_query rq ac) lim off) (\<lambda>(cs, n). send (Items (Cards cs) (Some n))))"

definition action_fields :: "(string \<times> string) js_field list" where
  "action_fields = [js_string ''action'' (\<lambda>x p. (x, snd p)), js_string ''reason'' (\<lambda>x p. (fst p, x))]"

definition handle_card_action :: "string \<Rightarrow> http_request \<Rightarrow> admin_context \<Rightarrow> http_ctx \<Rightarrow> admin_response srv" where
  "handle_card_action key rq ac cx = with_json None action_fields ([], []) rq cx (\<lambda>(action, reason).
     answer cx (card_action ac key action reason (hc_ip cx) (hc_rid cx)) ok_body)"

record bulk_req =
  bq_ids :: "string list"
  bq_action :: string
  bq_reason :: string

definition bulk_fields :: "bulk_req js_field list" where
  "bulk_fields = [js_strings ''ids'' (\<lambda>x. bq_ids_update (\<lambda>_. x)), js_string ''action'' (\<lambda>x. bq_action_update (\<lambda>_. x)),
     js_string ''reason'' (\<lambda>x. bq_reason_update (\<lambda>_. x))]"

text \<open>Each card for itself: a failure is noted under the card's id, the others go on.\<close>

fun bulk_loop :: "admin_context \<Rightarrow> string \<Rightarrow> string \<Rightarrow> string \<Rightarrow> string \<Rightarrow> string list \<Rightarrow> int \<Rightarrow> (string \<times> error) list \<Rightarrow>
    (int \<times> (string \<times> error) list) srv" where
  "bulk_loop ac action reason ip rid [] n failed = retM (n, failed)"
| "bulk_loop ac action reason ip rid (k # ks) n failed =
    bindM (tryM (card_action ac k action reason ip rid)) (\<lambda>r. case r of
      Inl e \<Rightarrow> bulk_loop ac action reason ip rid ks n (AList.update k e failed)
    | Inr _ \<Rightarrow> bulk_loop ac action reason ip rid ks (n + 1) failed)"

definition handle_bulk_card_action :: "http_request \<Rightarrow> admin_context \<Rightarrow> http_ctx \<Rightarrow> admin_response srv" where
  "handle_bulk_card_action rq ac cx =
    with_json None bulk_fields \<lparr>bq_ids = [], bq_action = [], bq_reason = []\<rparr> rq cx (\<lambda>q.
      if bq_ids q = [] \<or> length (bq_ids q) > 100 then bad_request cx
      else if bq_reason q = [] \<and> (bq_action q = ''freeze'' \<or> bq_action q = ''revoke'') then bad_request cx
      else bindM (bulk_loop ac (bq_action q) (bq_reason q) (hc_ip cx) (hc_rid cx) (bq_ids q) 0 [])
        (\<lambda>(n, failed). send (Bulk n failed)))"

text \<open>\<open>handleRevealCard\<close>, from the row \<open>GetCardByID\<close> reads.\<close>

definition reveal :: "svc \<Rightarrow> admin_context \<Rightarrow> card \<Rightarrow> http_ctx \<Rightarrow> admin_response srv" where
  "reveal S ac c cx = (case cd_secret c of None \<Rightarrow> refuse cx 409 ''CARD_SECRET_UNAVAILABLE''
   | Some (ct, nonce, kid) \<Rightarrow>
     if ct = [] \<or> nonce = [] \<or> kid = [] then refuse cx 409 ''CARD_SECRET_UNAVAILABLE''
     else (case decrypt_card_secret S (cd_product c) ct nonce kid of
        Inl _ \<Rightarrow> refuse cx 500 ''CARD_SECRET_ERROR''
      | Inr secret \<Rightarrow> (case normalize_card secret of Inl _ \<Rightarrow> refuse cx 500 ''CARD_SECRET_MISMATCH''
         | Inr norm \<Rightarrow> if card_lookup S norm \<noteq> cd_lookup c then refuse cx 500 ''CARD_SECRET_MISMATCH''
             else seqM (audit ac ''card.reveal'' ''card'' (cd_id c) SNull (SMap [(''prefix'', JStr (cd_prefix c))]) SNull
                 (hc_ip cx) (hc_rid cx)) (send (CardText (format_card secret))))))"

definition handle_reveal_card :: "svc \<Rightarrow> string \<Rightarrow> admin_context \<Rightarrow> http_ctx \<Rightarrow> admin_response srv" where
  "handle_reveal_card S key ac cx = answer cx (get_card_by_id key) (\<lambda>c.
     if agent_denied ac (cd_agent c) then refuse cx 404 ''CARD_NOT_FOUND'' else reveal S ac c cx)"

definition handle_set_card_note :: "string \<Rightarrow> http_request \<Rightarrow> admin_context \<Rightarrow> http_ctx \<Rightarrow> admin_response srv" where
  "handle_set_card_note key rq ac cx = with_text ''note'' rq cx (\<lambda>note.
     answer cx (admin_set_card_note ac key note (hc_ip cx) (hc_rid cx)) ok_body)"

subsection \<open>Licences and devices\<close>

definition handle_list_licenses :: "http_request \<Rightarrow> admin_context \<Rightarrow> http_ctx \<Rightarrow> admin_response srv" where
  "handle_list_licenses rq ac cx = (case page_params rq of (lim, off) \<Rightarrow>
     answer cx (list_licenses \<lparr>lf_agent = agent_scope ac, lf_status = url_query rq ''status'',
         lf_product = url_query rq ''product_id'', lf_search = url_query rq ''q''\<rparr> lim off)
       (\<lambda>(ls, n). send (Items (Licenses ls) (Some n))))"

definition or_empty :: "'a list srv \<Rightarrow> 'a list srv" where
  "or_empty m = bindM (tryM m) (\<lambda>r. retM (case r of Inl _ \<Rightarrow> [] | Inr x \<Rightarrow> x))"

definition handle_license_detail :: "string \<Rightarrow> admin_context \<Rightarrow> http_ctx \<Rightarrow> admin_response srv" where
  "handle_license_detail key ac cx = answer cx (get_license key) (\<lambda>l.
     if agent_denied ac (li_agent l) then refuse cx 404 ''LICENSE_NOT_FOUND''
     else bindM (or_empty (list_devices key True)) (\<lambda>ds.
       bindM (or_empty (list_license_events key 50)) (\<lambda>es.
       bindM (or_empty (redis_call (\<lambda>t. online_devices t key))) (\<lambda>o_devs.
         send (LicenseDetail l ds es o_devs)))))"

definition handle_license_action :: "string \<Rightarrow> http_request \<Rightarrow> admin_context \<Rightarrow> http_ctx \<Rightarrow> admin_response srv" where
  "handle_license_action key rq ac cx = with_json None action_fields ([], []) rq cx (\<lambda>(action, reason).
     answer cx (license_action ac key action reason (hc_ip cx) (hc_rid cx)) ok_body)"

definition handle_license_note :: "string \<Rightarrow> http_request \<Rightarrow> admin_context \<Rightarrow> http_ctx \<Rightarrow> admin_response srv" where
  "handle_license_note key rq ac cx = with_text ''note'' rq cx (\<lambda>note.
     answer cx (admin_set_license_note ac key note (hc_ip cx) (hc_rid cx)) ok_body)"

definition handle_extend_license :: "string \<Rightarrow> http_request \<Rightarrow> admin_context \<Rightarrow> http_ctx \<Rightarrow> admin_response srv" where
  "handle_extend_license key rq ac cx =
    with_json None [js_int ''days'' (\<lambda>x p. (x, snd p)), js_string ''reason'' (\<lambda>x p. (fst p, x))] (0, []) rq cx
      (\<lambda>(days, reason). answer cx (admin_extend_license ac key days reason (hc_ip cx) (hc_rid cx))
        (\<lambda>e. send (Expiry e)))"

definition handle_list_devices :: "http_request \<Rightarrow> admin_context \<Rightarrow> http_ctx \<Rightarrow> admin_response srv" where
  "handle_list_devices rq ac cx = (let lic = url_query rq ''license_id'' in
     if lic = [] then bad_request cx
     else answer cx (get_license lic) (\<lambda>l.
       if agent_denied ac (li_agent l) then refuse cx 404 ''LICENSE_NOT_FOUND''
       else answer cx (list_devices lic True) (\<lambda>ds. send (Items (Devices ds) None))))"

text \<open>A reason is optional: a body that does not decode is taken as far as it was read.\<close>

definition body_reason :: "http_request \<Rightarrow> string" where
  "body_reason rq = (if \<not> utf8_valid (hq_body rq) \<or> rune_error \<in> set (runes (hq_body rq)) then []
     else snd (unmarshal_strict [js_string ''reason'' (\<lambda>x _. x)] (hq_body rq) []))"

definition handle_unbind_device :: "string \<Rightarrow> http_request \<Rightarrow> admin_context \<Rightarrow> http_ctx \<Rightarrow> admin_response srv" where
  "handle_unbind_device key rq ac cx =
     answer cx (unbind_device ac key (body_reason rq) (hc_ip cx) (hc_rid cx)) (\<lambda>d. send (OneDevice d))"

end
