(* ===== verification/Float64.thy ===== *)
theory Float64
  imports Complex_Main GoConv
begin

section \<open>Float64: amounts of money that arrive as JSON numbers\<close>

text \<open>
  \<open>handleAgentBalance\<close> decodes an amount into a \<open>float64\<close> and multiplies it by 100. A finite
  \<open>float64\<close> is the rational number it stands for; a literal is read as the nearest one, ties to
  even, and so is the product of two. Below the range of the handler (9 * 10^9) neither
  overflow nor infinities arise; a literal past the largest \<open>float64\<close> does not decode.
\<close>

subsection \<open>Rounding\<close>

definition pow2 :: "int \<Rightarrow> rat" where
  "pow2 k = (if 0 \<le> k then 2 ^ nat k else 1 / 2 ^ nat (- k))"

lemma pow2_pos [simp]: "0 < pow2 k"
  by (simp add: pow2_def)

lemma pow2_add_nat: "pow2 (k + int n) = pow2 k * 2 ^ n"
proof (cases "0 \<le> k")
  case True
  then show ?thesis by (simp add: pow2_def nat_add_distrib power_add)
next
  case False
  show ?thesis
  proof (cases "0 \<le> k + int n")
    case True
    with False have n: "n = nat (k + int n) + nat (- k)" by simp
    have "(2::rat) ^ n = 2 ^ nat (k + int n) * 2 ^ nat (- k)" by (subst n) (rule power_add)
    with True False show ?thesis by (simp add: pow2_def)
  next
    case neg: False
    then have k: "nat (- k) = nat (- (k + int n)) + n" by simp
    have "(2::rat) ^ nat (- k) = 2 ^ nat (- (k + int n)) * 2 ^ n" by (subst k) (rule power_add)
    with neg False show ?thesis by (simp add: pow2_def)
  qed
qed

text \<open>The number of binary digits, and the exponent of the leading one.\<close>

fun bits :: "nat \<Rightarrow> nat" where
  "bits n = (if n = 0 then 0 else Suc (bits (n div 2)))"

declare bits.simps [simp del]

definition lead :: "rat \<Rightarrow> int" where
  "lead a = (case quotient_of a of (p, q) \<Rightarrow>
     (let k = int (bits (nat p)) - int (bits (nat q)) in if pow2 k \<le> a then k else k - 1))"

definition half_even :: "rat \<Rightarrow> int" where
  "half_even m = (let f = \<lfloor>m\<rfloor>; r = m - of_int f in
     if r < 1 / 2 then f else if 1 / 2 < r then f + 1 else if even f then f else f + 1)"

text \<open>The nearest \<open>float64\<close>: 53 binary digits, none below 2^-1074.\<close>

definition round64 :: "rat \<Rightarrow> rat" where
  "round64 x = (if x = 0 then 0 else
     (let e = max (lead \<bar>x\<bar> - 52) (-1074) in of_int (half_even (x / pow2 e)) * pow2 e))"

definition finite64 :: "rat \<Rightarrow> bool" where
  "finite64 x \<longleftrightarrow> \<bar>x\<bar> < 2 ^ 1024"

subsection \<open>Literals\<close>

text \<open>The value of a JSON number: sign, digits, fraction, exponent.\<close>

definition pow10 :: "int \<Rightarrow> rat" where
  "pow10 k = (if 0 \<le> k then 10 ^ nat k else 1 / 10 ^ nat (- k))"

definition unsigned_value :: "string \<Rightarrow> rat" where
  "unsigned_value t = (let ip = takeWhile is_digit t; r = dropWhile is_digit t;
     fp = (case r of [] \<Rightarrow> [] | c # u \<Rightarrow> if c = CHR ''.'' then takeWhile is_digit u else []);
     z = (case r of [] \<Rightarrow> [] | c # u \<Rightarrow> if c = CHR ''.'' then dropWhile is_digit u else r);
     ex = (case z of [] \<Rightarrow> 0 | c # u \<Rightarrow> (case u of [] \<Rightarrow> 0 | d # v \<Rightarrow>
       if d = CHR ''-'' then - int (digits_val v) else if d = CHR ''+'' then int (digits_val v)
       else int (digits_val u))) in
     rat_of_nat (digits_val (ip @ fp)) * pow10 (ex - int (length fp)))"

definition literal_value :: "string \<Rightarrow> rat" where
  "literal_value s = (case s of [] \<Rightarrow> 0 | c # t \<Rightarrow> if c = CHR ''-'' then - unsigned_value t else unsigned_value s)"

text \<open>\<open>strconv.ParseFloat\<close> of a valid literal.\<close>

definition parse_float :: "string \<Rightarrow> rat option" where
  "parse_float s = (let x = round64 (literal_value s) in if finite64 x then Some x else None)"

text \<open>\<open>int64(yuan * 100)\<close>: the product is rounded, the conversion cuts off.\<close>

definition trunc :: "rat \<Rightarrow> int" where
  "trunc x = (if 0 \<le> x then \<lfloor>x\<rfloor> else \<lceil>x\<rceil>)"

definition amount_cents :: "rat \<Rightarrow> int" where
  "amount_cents yuan = trunc (round64 (yuan * 100))"

subsection \<open>Exact cases\<close>

lemma bits_bounds: "0 < n \<Longrightarrow> 2 ^ (bits n - 1) \<le> n \<and> n < 2 ^ bits n \<and> 0 < bits n"
proof (induction n rule: bits.induct)
  case (1 n)
  show ?case
  proof (cases "n div 2 = 0")
    case True
    with 1(2) have "n = 1" by auto
    then show ?thesis by (simp add: bits.simps [of "Suc 0"] bits.simps [of 0])
  next
    case False
    with 1 have ih: "2 ^ (bits (n div 2) - 1) \<le> n div 2" "n div 2 < 2 ^ bits (n div 2)" "0 < bits (n div 2)" by auto
    obtain b where b: "bits (n div 2) = Suc b" using ih(3) by (cases "bits (n div 2)") auto
    have "bits n = Suc (Suc b)" using 1(2) b by (simp add: bits.simps [of n])
    moreover have "2 * 2 ^ b \<le> n" "n < 2 * (2 * 2 ^ b)" using ih(1,2) unfolding b by auto
    ultimately show ?thesis by simp
  qed
qed

lemma pow2_strict: "i < j \<Longrightarrow> pow2 i < pow2 j"
proof -
  assume "i < j"
  then obtain n where n: "j = i + int (Suc n)" by (metis zless_iff_Suc_zadd)
  have "1 < (2::rat) ^ Suc n" by (rule one_less_power) simp_all
  then show ?thesis unfolding n pow2_add_nat using mult_strict_left_mono [of 1 "2 ^ Suc n" "pow2 i"] by simp
qed

lemma pow2_mono: "i \<le> j \<Longrightarrow> pow2 i \<le> pow2 j"
  using pow2_strict [of i j] by (cases "i = j") (auto simp: less_imp_le)

lemma pow2_diff: "pow2 (int m - int n) = 2 ^ m / 2 ^ n"
  using pow2_add_nat [of "int m - int n" n] by (simp add: pow2_def field_simps)

lemma lead_bounds:
  assumes "0 < a"
  shows "pow2 (lead a) \<le> a \<and> a < pow2 (lead a + 1)"
proof -
  obtain p q where pq: "quotient_of a = (p, q)" by fastforce
  have q: "0 < q" and a: "a = of_int p / of_int q"
    using quotient_of_denom_pos [OF pq] quotient_of_div [OF pq] by auto
  with assms have p: "0 < p" by (simp add: zero_less_divide_iff)
  let ?m = "bits (nat p)" and ?n = "bits (nat q)"
  from p obtain i where i: "?m = Suc i" "2 ^ i \<le> nat p" "nat p < 2 ^ Suc i"
    using bits_bounds [of "nat p"] by (cases ?m) auto
  from q obtain j where j: "?n = Suc j" "2 ^ j \<le> nat q" "nat q < 2 ^ Suc j"
    using bits_bounds [of "nat q"] by (cases ?n) auto
  have pr: "2 ^ i \<le> rat_of_int p" "rat_of_int p < 2 ^ Suc i"
    using i p by (metis of_int_1 of_nat_le_iff of_nat_numeral of_nat_power of_int_of_nat_eq nat_0_le order.strict_implies_order,
      metis of_nat_less_iff of_nat_numeral of_nat_power of_int_of_nat_eq nat_0_le order.strict_implies_order)
  have qr: "2 ^ j \<le> rat_of_int q" "rat_of_int q < 2 ^ Suc j"
    using j q by (metis of_int_1 of_nat_le_iff of_nat_numeral of_nat_power of_int_of_nat_eq nat_0_le order.strict_implies_order,
      metis of_nat_less_iff of_nat_numeral of_nat_power of_int_of_nat_eq nat_0_le order.strict_implies_order)
  have qpos: "0 < rat_of_int q" using q by simp
  have lo: "2 ^ i / 2 ^ Suc j < a" unfolding a
    by (rule frac_less2) (use pr qr qpos in auto)
  have hi: "a < 2 ^ Suc i / 2 ^ j" unfolding a
    by (rule frac_less) (use pr qr p in auto)
  have k: "pow2 (int ?m - int ?n - 1) < a" "a < pow2 (int ?m - int ?n + 1)"
    using lo hi pow2_diff [of i "Suc j"] pow2_diff [of "Suc i" j] unfolding i(1) j(1) by (simp_all add: algebra_simps)
  show ?thesis using k by (simp add: lead_def pq Let_def not_le less_imp_le)
qed

lemma lead_eqI: "pow2 k \<le> a \<Longrightarrow> a < pow2 (k + 1) \<Longrightarrow> lead a = k"
proof -
  assume k: "pow2 k \<le> a" "a < pow2 (k + 1)"
  have pos: "0 < a" using k(1) pow2_pos [of k] by linarith
  note l = lead_bounds [OF pos]
  have "k < lead a + 1" using pow2_mono [of "lead a + 1" k] k(1) l by (meson leD leI le_less_trans)
  moreover have "lead a < k + 1" using pow2_mono [of "k + 1" "lead a"] k(2) l by (meson leD leI le_less_trans)
  ultimately show ?thesis by simp
qed

lemma half_even_of_int [simp]: "half_even (of_int n) = n"
  by (simp add: half_even_def)

text \<open>A whole number of at most 53 digits is a \<open>float64\<close>.\<close>

lemma round64_int:
  assumes "\<bar>n\<bar> < 2 ^ 53"
  shows "round64 (of_int n) = of_int n"
proof (cases "n = 0")
  case False
  let ?e = "max (lead \<bar>of_int n\<bar> - 52) (-1074)"
  have "\<bar>rat_of_int n\<bar> < pow2 53" using assms by (simp add: pow2_def flip: of_int_abs of_int_power_eq_of_int_cancel_iff)
  moreover have "pow2 (lead \<bar>rat_of_int n\<bar>) \<le> \<bar>rat_of_int n\<bar>" using lead_bounds [of "\<bar>rat_of_int n\<bar>"] False by simp
  ultimately have "lead \<bar>rat_of_int n\<bar> < 53" using pow2_mono [of 53 "lead \<bar>rat_of_int n\<bar>"] by (meson leI not_le order_trans)
  then have e: "?e \<le> 0" by simp
  then have m: "rat_of_int n / pow2 ?e = of_int (n * 2 ^ nat (- ?e))"
    by (cases "?e = 0") (simp_all add: pow2_def)
  have "round64 (of_int n) = of_int (half_even (rat_of_int n / pow2 ?e)) * pow2 ?e"
    using False by (simp add: round64_def Let_def)
  also have "\<dots> = rat_of_int n / pow2 ?e * pow2 ?e" unfolding m half_even_of_int ..
  also have "\<dots> = rat_of_int n" using pow2_pos [of ?e] by (metis less_irrefl nonzero_eq_divide_eq)
  finally show ?thesis .
qed (simp add: round64_def)

lemma trunc_of_int [simp]: "trunc (of_int n) = n"
  by (simp add: trunc_def)

text \<open>Whole yuan become exactly a hundred times as many cents.\<close>

lemma whole_yuan:
  assumes "\<bar>n\<bar> \<le> 9000000000"
  shows "amount_cents (of_int n) = 100 * n"
proof -
  have p: "rat_of_int n * 100 = of_int (100 * n)" by simp
  have "\<bar>100 * n\<bar> < 2 ^ 53" using assms by simp
  from round64_int [OF this] show ?thesis unfolding amount_cents_def p by (simp only: trunc_of_int)
qed

lemma half_even_eqI: "of_int f \<le> m \<Longrightarrow> m < of_int f + 1 / 2 \<Longrightarrow> half_even m = f"
proof -
  assume m: "of_int f \<le> m" "m < of_int f + 1 / 2"
  then have "\<lfloor>m\<rfloor> = f" by (simp add: floor_eq_iff)
  with m show ?thesis by (simp add: half_even_def)
qed

lemma round64_eqI:
  assumes "0 < x" "pow2 k \<le> x" "x < pow2 (k + 1)" "-1022 \<le> k" "of_int f \<le> x / pow2 (k - 52)"
    "x / pow2 (k - 52) < of_int f + 1 / 2"
  shows "round64 x = of_int f * pow2 (k - 52)"
proof -
  have "max (k - 52) (-1074) = k - 52" using assms(4) by simp
  with assms(1) show ?thesis by (simp add: round64_def Let_def lead_eqI [OF assms(2,3)] half_even_eqI [OF assms(5,6)])
qed

text \<open>But 1.13 yuan become 112 cents.\<close>

lemma one_thirteen: "amount_cents (round64 (113 / 100)) = 112"
proof -
  have "round64 (113 / 100) = of_int 5089067578928660 * pow2 (0 - 52)"
    by (rule round64_eqI) (simp_all add: pow2_def)
  then have r: "round64 (113 / 100) = 5089067578928660 / 4503599627370496" by (simp add: pow2_def)
  have "round64 (5089067578928660 / 4503599627370496 * 100) = of_int 7951668092076031 * pow2 (6 - 52)"
    by (rule round64_eqI) (simp_all add: pow2_def)
  then have "round64 (round64 (113 / 100) * 100) = 7951668092076031 / 70368744177664" unfolding r by (simp add: pow2_def)
  then show ?thesis by (simp add: amount_cents_def trunc_def floor_eq_iff)
qed

subsection \<open>Rounding errors\<close>

lemma half_even_near: "\<bar>of_int (half_even m) - m\<bar> \<le> 1 / 2"
  using floor_correct [of m] by (auto simp: half_even_def Let_def abs_le_iff)

text \<open>Away from the subnormal numbers, rounding is off by at most one part in 2^53.\<close>

lemma round64_near:
  assumes "1 / 128 \<le> \<bar>x\<bar>"
  shows "\<bar>round64 x - x\<bar> \<le> \<bar>x\<bar> / 2 ^ 53"
proof -
  have pos: "0 < \<bar>x\<bar>" using assms by linarith
  let ?k = "lead \<bar>x\<bar>"
  have "pow2 (-7) < pow2 (?k + 1)" using lead_bounds [OF pos] assms by (simp add: pow2_def)
  then have "\<not> ?k + 1 \<le> -7" using pow2_mono [of "?k + 1" "-7"] by linarith
  then have r: "round64 x = of_int (half_even (x / pow2 (?k - 52))) * pow2 (?k - 52)"
    using pos by (simp add: round64_def Let_def max_def)
  have "round64 x - x = (of_int (half_even (x / pow2 (?k - 52))) - x / pow2 (?k - 52)) * pow2 (?k - 52)"
    unfolding r using pow2_pos [of "?k - 52"] by (simp add: left_diff_distrib del: pow2_pos)
  then have "\<bar>round64 x - x\<bar> = \<bar>of_int (half_even (x / pow2 (?k - 52))) - x / pow2 (?k - 52)\<bar> * pow2 (?k - 52)"
    using pow2_pos [of "?k - 52"] by (simp only: abs_mult abs_of_pos)
  also have "\<dots> \<le> 1 / 2 * pow2 (?k - 52)" by (intro mult_right_mono half_even_near) (simp add: less_imp_le)
  also have "\<dots> = pow2 ?k / 2 ^ 53" using pow2_add_nat [of "?k - 52" 52] by simp
  also have "\<dots> \<le> \<bar>x\<bar> / 2 ^ 53" using lead_bounds [OF pos] by (simp add: divide_right_mono)
  finally show ?thesis .
qed

lemma round64_cents:
  assumes "n \<noteq> 0" "\<bar>n\<bar> \<le> 900000000000"
  shows "\<bar>round64 (round64 (of_int n / 100) * 100) - of_int n\<bar> < 1"
proof -
  let ?x = "rat_of_int n / 100" let ?y = "round64 ?x"
  have n: "1 \<le> \<bar>rat_of_int n\<bar>" "\<bar>rat_of_int n\<bar> \<le> 900000000000" using assms by (simp_all flip: of_int_abs)
  have y: "\<bar>?y - ?x\<bar> \<le> \<bar>?x\<bar> / 2 ^ 53" by (rule round64_near) (use n in simp)
  have "?y * 100 - of_int n = (?y - ?x) * 100" by simp
  then have "\<bar>?y * 100 - of_int n\<bar> = \<bar>?y - ?x\<bar> * 100" by (simp only: abs_mult abs_numeral)
  with y have near: "\<bar>?y * 100 - of_int n\<bar> \<le> \<bar>rat_of_int n\<bar> / 2 ^ 53" by simp
  moreover have "\<bar>rat_of_int n\<bar> / 2 ^ 53 \<le> 1 / 2" using n by simp
  ultimately have big: "1 / 128 \<le> \<bar>?y * 100\<bar>" "\<bar>?y * 100\<bar> \<le> 2 * \<bar>rat_of_int n\<bar>" using n by linarith+
  have "\<bar>round64 (?y * 100) - ?y * 100\<bar> \<le> \<bar>?y * 100\<bar> / 2 ^ 53" by (rule round64_near) (rule big)
  moreover have "\<bar>?y * 100\<bar> / 2 ^ 53 \<le> 1 / 4" "\<bar>rat_of_int n\<bar> / 2 ^ 53 \<le> 1 / 4" using n big by simp_all
  ultimately show ?thesis using near by linarith
qed

text \<open>C32. An amount of money with two decimals, below the handler's range of nine thousand million yuan, arrives as the
  amount that was typed or one cent closer to zero, never more; an amount in whole yuan arrives exactly. (One cent does get
  lost: 1.13 yuan become 112 cents.)\<close>
theorem amount_within_a_cent:
  assumes "\<bar>n\<bar> \<le> 900000000000"
  shows "amount_cents (round64 (of_int n / 100)) \<in> {n, n - sgn n} \<and>
    (n mod 100 = 0 \<longrightarrow> amount_cents (round64 (of_int n / 100)) = n)"
proof (cases "n = 0")
  case False
  let ?z = "round64 (round64 (of_int n / 100) * 100)"
  have z: "?z < of_int n + 1" "of_int n - 1 < ?z" using round64_cents [OF False assms] by linarith+
  have "trunc ?z \<in> {n, n - sgn n}"
  proof (cases "0 < n")
    case True
    then have "1 \<le> rat_of_int n" by simp
    with z have "0 \<le> ?z" by linarith
    moreover have "n - 1 \<le> \<lfloor>?z\<rfloor>" "\<lfloor>?z\<rfloor> < n + 1" using z by (simp_all add: le_floor_iff floor_le_iff)
    ultimately show ?thesis using True by (auto simp: trunc_def)
  next
    case neg: False
    with False have "rat_of_int n \<le> - 1" by simp
    with z have "?z < 0" by linarith
    moreover have "n - 1 < \<lceil>?z\<rceil>" "\<lceil>?z\<rceil> \<le> n + 1" using z by (simp_all add: ceiling_le_iff less_ceiling_iff)
    ultimately show ?thesis using neg False by (auto simp: trunc_def)
  qed
  moreover have "amount_cents (round64 (of_int n / 100)) = n" if "n mod 100 = 0"
  proof -
    from that obtain q where q: "n = 100 * q" by auto
    with assms have "\<bar>q\<bar> \<le> 9000000000" by simp
    moreover from this have "round64 (rat_of_int q) = of_int q" by (intro round64_int) simp
    ultimately show ?thesis using whole_yuan [of q] q by simp
  qed
  ultimately show ?thesis by (auto simp: amount_cents_def)
qed (simp add: round64_def amount_cents_def trunc_def)

lemma amount_within_a_cent_witness:
  "amount_cents (round64 (of_int 113 / 100)) \<in> {113, 112} \<and> amount_cents (round64 (of_int (- 900000000000) / 100)) = - 900000000000"
  using amount_within_a_cent [of 113] amount_within_a_cent [of "- 900000000000"] by simp

end
