(* ===== verification/AdminRoutes.thy ===== *)
theory AdminRoutes
  imports AdminCards Float64
begin

section \<open>AdminRoutes: the other handlers of the back office\<close>

text \<open>
  The handlers on agents, administrators, bans, audit and risk of \<open>admin.go\<close>, those of
  \<open>adminops.go\<close> on end users, announcements, versions and rate limits.
\<close>

subsection \<open>Agents and administrators\<close>

definition handle_list_agents :: "http_ctx \<Rightarrow> admin_response srv" where
  "handle_list_agents cx = answer cx list_agents (\<lambda>xs. send (Items (Agents xs) None))"

record agent_req =
  gq_name :: string
  gq_parent :: "string option"
  gq_username :: string
  gq_password :: string

definition agent_fields :: "agent_req js_field list" where
  "agent_fields = [js_string ''name'' (\<lambda>x. gq_name_update (\<lambda>_. x)),
     js_string_opt ''parent_id'' (\<lambda>x. gq_parent_update (\<lambda>_. x)),
     js_string ''account_username'' (\<lambda>x. gq_username_update (\<lambda>_. x)),
     js_string ''account_password'' (\<lambda>x. gq_password_update (\<lambda>_. x))]"

definition handle_create_agent :: "svc \<Rightarrow> http_request \<Rightarrow> admin_context \<Rightarrow> http_ctx \<Rightarrow> admin_response srv" where
  "handle_create_agent S rq ac cx =
    with_json None agent_fields \<lparr>gq_name = [], gq_parent = None, gq_username = [], gq_password = []\<rparr> rq cx (\<lambda>q.
      answer cx (svc_create_agent S ac (gq_name q) (gq_parent q) (gq_username q) (gq_password q) (hc_ip cx) (hc_rid cx))
        (\<lambda>(a, ad). created (NewAgent a (map_option (\<lambda>x. (ad_username x, gq_password q)) ad))))"

definition handle_agent_products_get :: "string \<Rightarrow> admin_context \<Rightarrow> http_ctx \<Rightarrow> admin_response srv" where
  "handle_agent_products_get key ac cx =
     answer cx (list_agent_product_grants ac key) (\<lambda>ids. send (Items (Ids ids) None))"

definition handle_agent_products_post :: "string \<Rightarrow> http_request \<Rightarrow> admin_context \<Rightarrow> http_ctx \<Rightarrow> admin_response srv" where
  "handle_agent_products_post key rq ac cx =
    with_json None [js_string ''product_id'' (\<lambda>x p. (x, snd p)), js_bool ''granted'' (\<lambda>x p. (fst p, x))] ([], False) rq cx
      (\<lambda>(pid, granted). if pid = [] then bad_request cx
        else answer cx (set_agent_product_grant ac key pid granted (hc_ip cx) (hc_rid cx)) ok_body)"

definition handle_agent_account_get :: "string \<Rightarrow> admin_context \<Rightarrow> http_ctx \<Rightarrow> admin_response srv" where
  "handle_agent_account_get key ac cx =
     answer cx (get_agent_account ac key) (\<lambda>ad. send (AgentLogin (ad_username ad) (ad_status ad)))"

record account_req =
  aq_admin :: string
  aq_username :: string
  aq_password :: string

definition account_fields :: "account_req js_field list" where
  "account_fields = [js_string ''admin_id'' (\<lambda>x. aq_admin_update (\<lambda>_. x)),
     js_string ''new_username'' (\<lambda>x. aq_username_update (\<lambda>_. x)),
     js_string ''new_password'' (\<lambda>x. aq_password_update (\<lambda>_. x))]"

definition handle_agent_account_post :: "svc \<Rightarrow> string \<Rightarrow> http_request \<Rightarrow> admin_context \<Rightarrow> http_ctx \<Rightarrow> admin_response srv" where
  "handle_agent_account_post S key rq ac cx =
    with_json None account_fields \<lparr>aq_admin = [], aq_username = [], aq_password = []\<rparr> rq cx (\<lambda>q.
      if aq_admin q = [] \<or> aq_username q = [] \<and> aq_password q = [] then bad_request cx
      else answer cx (update_agent_account S ac key (aq_admin q) (trim_space (aq_username q)) (aq_password q)
          (hc_ip cx) (hc_rid cx)) (\<lambda>(name, pw). send (AgentLogin name pw)))"

text \<open>An amount in yuan, as the \<open>float64\<close> the decoder makes of the number.\<close>

definition js_float :: "string \<Rightarrow> (rat \<Rightarrow> 'r \<Rightarrow> 'r) \<Rightarrow> 'r js_field" where
  "js_float name set_it = (name, \<lambda>v r. case v of JsNum l \<Rightarrow>
       (case parse_float l of None \<Rightarrow> (False, r) | Some x \<Rightarrow> (True, set_it x r))
     | JsNull \<Rightarrow> (True, r) | _ \<Rightarrow> (False, r))"

definition handle_agent_balance :: "string \<Rightarrow> http_request \<Rightarrow> admin_context \<Rightarrow> http_ctx \<Rightarrow> admin_response srv" where
  "handle_agent_balance key rq ac cx =
    with_json None [js_float ''amount_yuan'' (\<lambda>x p. (x, snd p)), js_string ''note'' (\<lambda>x p. (fst p, x))] (0, []) rq cx
      (\<lambda>(yuan, note). if yuan > 9000000000 \<or> yuan < -9000000000 then bad_request cx
        else if amount_cents yuan = 0 then bad_request cx
        else answer cx (agent_adjust_balance ac key (amount_cents yuan) note (hc_ip cx) (hc_rid cx))
          (\<lambda>after. send (Balance after)))"

definition handle_agent_transactions :: "string \<Rightarrow> http_ctx \<Rightarrow> admin_response srv" where
  "handle_agent_transactions key cx =
     answer cx (list_agent_transactions key 100) (\<lambda>xs. send (Items (Ledger xs) None))"

definition handle_agent_status :: "string \<Rightarrow> http_request \<Rightarrow> admin_context \<Rightarrow> http_ctx \<Rightarrow> admin_response srv" where
  "handle_agent_status key rq ac cx = with_text ''status'' rq cx (\<lambda>st.
     answer cx (agent_status ac key st (hc_ip cx) (hc_rid cx)) ok_body)"

definition handle_list_admins :: "http_ctx \<Rightarrow> admin_response srv" where
  "handle_list_admins cx = answer cx list_admins (\<lambda>xs. send (Items (Admins xs) None))"

record admin_req =
  dq_username :: string
  dq_display :: string
  dq_password :: string
  dq_role :: string
  dq_agent :: "string option"

definition admin_fields :: "admin_req js_field list" where
  "admin_fields = [js_string ''username'' (\<lambda>x. dq_username_update (\<lambda>_. x)),
     js_string ''display_name'' (\<lambda>x. dq_display_update (\<lambda>_. x)),
     js_string ''password'' (\<lambda>x. dq_password_update (\<lambda>_. x)), js_string ''role'' (\<lambda>x. dq_role_update (\<lambda>_. x)),
     js_string_opt ''agent_id'' (\<lambda>x. dq_agent_update (\<lambda>_. x))]"

definition handle_create_admin :: "svc \<Rightarrow> http_request \<Rightarrow> admin_context \<Rightarrow> http_ctx \<Rightarrow> admin_response srv" where
  "handle_create_admin S rq ac cx =
    with_json None admin_fields \<lparr>dq_username = [], dq_display = [], dq_password = [], dq_role = [], dq_agent = None\<rparr>
      rq cx (\<lambda>q. answer cx (create_admin S ac (dq_username q) (dq_display q) (dq_password q) (dq_role q) (dq_agent q)
          (hc_ip cx) (hc_rid cx)) (\<lambda>a. created (OneAdmin a)))"

definition handle_admin_status :: "string \<Rightarrow> http_request \<Rightarrow> admin_context \<Rightarrow> http_ctx \<Rightarrow> admin_response srv" where
  "handle_admin_status key rq ac cx = with_text ''status'' rq cx (\<lambda>st.
     answer cx (svc_set_admin_status ac key st (hc_ip cx) (hc_rid cx)) ok_body)"

subsection \<open>Audit, risk, bans, keys, the dashboard\<close>

definition opt_time :: "site \<Rightarrow> string \<Rightarrow> time option" where
  "opt_time site v = (if v = [] then None else si_time site v)"

definition handle_list_audit :: "site \<Rightarrow> http_request \<Rightarrow> http_ctx \<Rightarrow> admin_response srv" where
  "handle_list_audit site rq cx = (case page_params rq of (lm, off) \<Rightarrow>
     answer cx (list_audit \<lparr>af_admin = url_query rq ''admin_id'', af_action = url_query rq ''action'',
         af_target = url_query rq ''target'', af_since = opt_time site (url_query rq ''since''), af_until = None\<rparr> lm off)
       (\<lambda>(xs, n). send (Items (Audits xs) (Some n))))"

definition handle_list_risk :: "http_request \<Rightarrow> http_ctx \<Rightarrow> admin_response srv" where
  "handle_list_risk rq cx = answer cx (list_risk_events (url_query rq ''kind'') 200) (\<lambda>xs. send (Items (Risks xs) None))"

definition handle_list_bans :: "http_ctx \<Rightarrow> admin_response srv" where
  "handle_list_bans cx = answer cx list_bans (\<lambda>xs. send (Items (Bans xs) None))"

record ban_req =
  nq_kind :: string
  nq_value :: string
  nq_reason :: string
  nq_until :: string

definition no_ban_req :: ban_req where
  "no_ban_req = \<lparr>nq_kind = [], nq_value = [], nq_reason = [], nq_until = []\<rparr>"

definition ban_fields :: "ban_req js_field list" where
  "ban_fields = [js_string ''kind'' (\<lambda>x. nq_kind_update (\<lambda>_. x)), js_string ''value'' (\<lambda>x. nq_value_update (\<lambda>_. x)),
     js_string ''reason'' (\<lambda>x. nq_reason_update (\<lambda>_. x)), js_string ''until'' (\<lambda>x. nq_until_update (\<lambda>_. x))]"

text \<open>An \<open>until\<close> that is no time is the same as none: the ban never ends.\<close>

definition handle_create_ban :: "site \<Rightarrow> http_request \<Rightarrow> admin_context \<Rightarrow> http_ctx \<Rightarrow> admin_response srv" where
  "handle_create_ban site rq ac cx = with_json None ban_fields no_ban_req rq cx (\<lambda>q.
     answer cx (create_ban ac (nq_kind q) (nq_value q) (nq_reason q) (opt_time site (nq_until q)) (hc_ip cx) (hc_rid cx))
       (\<lambda>b. created (OneBan b)))"

definition handle_delete_ban :: "http_request \<Rightarrow> admin_context \<Rightarrow> http_ctx \<Rightarrow> admin_response srv" where
  "handle_delete_ban rq ac cx = with_json None
     [js_string ''kind'' (\<lambda>x p. (x, snd p)), js_string ''value'' (\<lambda>x p. (fst p, x))] ([], []) rq cx (\<lambda>(kind, val).
       answer cx (delete_ban ac kind val (hc_ip cx) (hc_rid cx)) ok_body)"

definition handle_keys :: "svc \<Rightarrow> http_ctx \<Rightarrow> admin_response srv" where
  "handle_keys S cx = answer cx active_kex_keys (\<lambda>kex.
     send (Keys kex (sg_kids (sv_signer S)) (sg_active (sv_signer S))))"

definition handle_stats :: "http_ctx \<Rightarrow> admin_response srv" where
  "handle_stats cx = answer cx get_stats (\<lambda>st. send (Dashboard st))"

subsection \<open>End users\<close>

definition handle_list_users :: "http_request \<Rightarrow> http_ctx \<Rightarrow> admin_response srv" where
  "handle_list_users rq cx = (case page_params rq of (lm, off) \<Rightarrow>
     answer cx (list_end_users \<lparr>ef_product = url_query rq ''product_id'', ef_status = url_query rq ''status'',
         ef_search = url_query rq ''q''\<rparr> lm off) (\<lambda>(us, n). send (Items (Users us) (Some n))))"

definition handle_user_detail :: "string \<Rightarrow> http_ctx \<Rightarrow> admin_response srv" where
  "handle_user_detail key cx = answer cx (get_end_user key) (\<lambda>u.
     answer cx (list_end_user_logs key 100) (\<lambda>ls. send (UserDetail u ls)))"

record user_action_req =
  xq_action :: string
  xq_days :: int
  xq_reason :: string

definition user_action_fields :: "user_action_req js_field list" where
  "user_action_fields = [js_string ''action'' (\<lambda>x. xq_action_update (\<lambda>_. x)),
     js_int ''days'' (\<lambda>x. xq_days_update (\<lambda>_. x)), js_string ''reason'' (\<lambda>x. xq_reason_update (\<lambda>_. x))]"

definition user_step :: "string \<Rightarrow> string \<Rightarrow> int \<Rightarrow> unit srv option" where
  "user_step key action days =
    (if action = ''disable'' then Some (set_end_user_status key ''disabled'')
     else if action = ''enable'' then Some (set_end_user_status key ''active'')
     else if action = ''reset-machine'' then Some (reset_end_user_machine key)
     else if action = ''extend'' then
       (if days \<le> 0 \<or> days > 36500 then None else Some (bindM (extend_end_user key days) (\<lambda>_. retM ())))
     else None)"

definition handle_user_action :: "string \<Rightarrow> http_request \<Rightarrow> admin_context \<Rightarrow> http_ctx \<Rightarrow> admin_response srv" where
  "handle_user_action key rq ac cx =
    with_json None user_action_fields \<lparr>xq_action = [], xq_days = 0, xq_reason = []\<rparr> rq cx (\<lambda>q.
      answer cx (get_end_user key) (\<lambda>_.
        case user_step key (xq_action q) (xq_days q) of None \<Rightarrow> bad_request cx
        | Some m \<Rightarrow> answer cx m (\<lambda>_.
            seqM (audit ac (''user.'' @ xq_action q) ''end_user'' key SNull
              (SMap [(''days'', JInt (xq_days q)), (''reason'', JStr (xq_reason q))]) SNull (hc_ip cx) (hc_rid cx))
            (send AdminOk))))"

subsection \<open>Announcements, versions, rate limits\<close>

definition handle_list_messages :: "http_request \<Rightarrow> http_ctx \<Rightarrow> admin_response srv" where
  "handle_list_messages rq cx = answer cx (list_soft_messages (url_query rq ''product_id''))
     (\<lambda>xs. send (Items (Messages xs) None))"

definition handle_create_message :: "http_request \<Rightarrow> admin_context \<Rightarrow> http_ctx \<Rightarrow> admin_response srv" where
  "handle_create_message rq ac cx = with_json None
     [js_string ''product_id'' (\<lambda>x p. (x, snd p)), js_string ''content'' (\<lambda>x p. (fst p, x))] ([], []) rq cx (\<lambda>(pid, content).
       if pid = [] \<or> content = [] \<or> length content > 2000 then bad_request cx
       else answer cx (create_soft_message pid content (ad_id (ac_admin ac))) (\<lambda>m.
         seqM (audit ac ''message.create'' ''product'' pid SNull (SMessage m) SNull (hc_ip cx) (hc_rid cx))
           (created (OneMessage m))))"

definition handle_set_message_enabled :: "string \<Rightarrow> http_request \<Rightarrow> http_ctx \<Rightarrow> admin_response srv" where
  "handle_set_message_enabled key rq cx = with_json None [js_bool ''enabled'' (\<lambda>x _. x)] False rq cx (\<lambda>b.
     case parse_id key of None \<Rightarrow> bad_request cx
     | Some n \<Rightarrow> answer cx (set_soft_message_enabled n b) ok_body)"

definition handle_delete_message :: "string \<Rightarrow> http_ctx \<Rightarrow> admin_response srv" where
  "handle_delete_message key cx = (case parse_id key of None \<Rightarrow> bad_request cx
     | Some n \<Rightarrow> answer cx (delete_soft_message n) ok_body)"

definition handle_list_versions :: "http_request \<Rightarrow> http_ctx \<Rightarrow> admin_response srv" where
  "handle_list_versions rq cx = answer cx (list_product_versions (url_query rq ''product_id''))
     (\<lambda>xs. send (Items (Versions xs) None))"

record version_req =
  vq_product :: string
  vq_version :: string
  vq_url :: string
  vq_notes :: string
  vq_force :: bool

definition version_fields :: "version_req js_field list" where
  "version_fields = [js_string ''product_id'' (\<lambda>x. vq_product_update (\<lambda>_. x)),
     js_string ''version'' (\<lambda>x. vq_version_update (\<lambda>_. x)), js_string ''download_url'' (\<lambda>x. vq_url_update (\<lambda>_. x)),
     js_string ''notes'' (\<lambda>x. vq_notes_update (\<lambda>_. x)), js_bool ''force_update'' (\<lambda>x. vq_force_update (\<lambda>_. x))]"

definition handle_create_version :: "http_request \<Rightarrow> admin_context \<Rightarrow> http_ctx \<Rightarrow> admin_response srv" where
  "handle_create_version rq ac cx =
    with_json None version_fields \<lparr>vq_product = [], vq_version = [], vq_url = [], vq_notes = [], vq_force = False\<rparr> rq cx (\<lambda>q.
      if vq_product q = [] \<or> vq_version q = [] \<or> vq_url q = [] then bad_request cx
      else answer cx (create_product_version (vq_product q) (vq_version q) (vq_url q) (vq_notes q) (vq_force q)) (\<lambda>v.
        seqM (audit ac ''version.create'' ''product'' (vq_product q) SNull (SVersion v) SNull (hc_ip cx) (hc_rid cx))
          (created (OneVersion v))))"

definition handle_delete_version :: "string \<Rightarrow> http_ctx \<Rightarrow> admin_response srv" where
  "handle_delete_version key cx = (case parse_id key of None \<Rightarrow> bad_request cx
     | Some n \<Rightarrow> answer cx (delete_product_version n) ok_body)"

definition known_scopes :: "string list" where
  "known_scopes = [''bootstrap'', ''activate'', ''heartbeat'', ''redeem'', ''user_login'', ''user_register'', ''user_ops'']"

definition scope_defaults :: "site \<Rightarrow> (string \<times> int) list" where
  "scope_defaults site = (let cfg = si_cfg site in
     [(''bootstrap'', c_bootstrap_rpm cfg), (''activate'', c_activate_rpm cfg), (''heartbeat'', c_heartbeat_rpm cfg),
      (''redeem'', c_activate_rpm cfg), (''user_login'', 10), (''user_register'', 3), (''user_ops'', 30)])"

definition handle_list_rate_limits :: "site \<Rightarrow> http_ctx \<Rightarrow> admin_response srv" where
  "handle_list_rate_limits site cx = answer cx all_api_rate_limits (\<lambda>conf.
     send (RateLimits known_scopes conf (scope_defaults site)))"

definition handle_set_rate_limit :: "http_request \<Rightarrow> admin_context \<Rightarrow> http_ctx \<Rightarrow> admin_response srv" where
  "handle_set_rate_limit rq ac cx = with_json None
     [js_string ''scope'' (\<lambda>x p. (x, snd p)), js_int ''limit_per_min'' (\<lambda>x p. (fst p, x))] ([], 0) rq cx (\<lambda>(scope, n).
       if \<not> in_strs scope known_scopes \<or> n < 1 \<or> n > 100000 then bad_request cx
       else answer cx (upsert_api_rate_limit scope n) (\<lambda>_.
         seqM (audit ac ''ratelimit.set'' ''api'' scope SNull (SMap [(''limit_per_min'', JInt n)]) SNull (hc_ip cx) (hc_rid cx))
           (send AdminOk)))"

end
