(* ===== verification/AdminRouter.thy ===== *)
theory AdminRouter
  imports AdminRoutes
begin

section \<open>AdminRouter: the routes of the back office\<close>

text \<open>
  \<open>AdminRouter\<close> of \<open>internal/httpapi/admin.go\<close> as a table: method, path pattern, who may ask, handler.
  Behind a session every write needs the session's CSRF token, and a new password first when
  the account must change it; most routes need a permission of the role besides.
\<close>

subsection \<open>The router\<close>

text \<open>Who may ask, and the handler: \<open>{id}\<close> in a pattern stands for one segment of the path.\<close>

type_synonym session_handler = "admin_context \<Rightarrow> http_ctx \<Rightarrow> admin_response srv"

datatype access = Public "http_ctx \<Rightarrow> admin_response srv" | Session "string \<Rightarrow> session_handler"
  | Needs permission "string \<Rightarrow> session_handler"

type_synonym admin_entry = "string \<times> string \<times> access"

definition account_routes :: "svc \<Rightarrow> site \<Rightarrow> nat list list \<Rightarrow> http_request \<Rightarrow> admin_entry list" where
  "account_routes S site en rq =
    [(''POST'', ''/admin/v1/auth/login'', Public (handle_admin_login S site (Some 8192) rq)),
     (''POST'', ''/admin/v1/auth/logout'', Public (handle_admin_logout S rq)),
     (''GET'', ''/admin/v1/auth/me'', Session (\<lambda>_. handle_me)),
     (''POST'', ''/admin/v1/auth/mfa/setup'', Session (\<lambda>_. handle_mfa_setup S)),
     (''POST'', ''/admin/v1/auth/mfa/enable'', Session (\<lambda>_. handle_mfa_enable S rq)),
     (''POST'', ''/admin/v1/auth/mfa/disable'', Session (\<lambda>_. handle_mfa_disable S rq)),
     (''POST'', ''/admin/v1/auth/password'', Session (\<lambda>_. handle_password_change S site rq)),
     (''GET'', ''/admin/v1/products'', Session (\<lambda>_. handle_list_products)),
     (''POST'', ''/admin/v1/products'', Needs PermProductsWrite (\<lambda>_. handle_create_product en rq)),
     (''POST'', ''/admin/v1/products/{id}/status'', Needs PermProductsWrite (\<lambda>k. handle_product_status k rq)),
     (''GET'', ''/admin/v1/plans'', Session (\<lambda>_. handle_list_plans rq)),
     (''POST'', ''/admin/v1/plans'', Needs PermProductsWrite (\<lambda>_. handle_create_plan site rq)),
     (''GET'', ''/admin/v1/plans/{id}'', Session (\<lambda>k _. handle_plan_detail k)),
     (''PUT'', ''/admin/v1/plans/{id}'', Needs PermProductsWrite (\<lambda>k. handle_update_plan site k rq)),
     (''DELETE'', ''/admin/v1/plans/{id}'', Needs PermProductsWrite (\<lambda>k. handle_delete_plan k)),
     (''POST'', ''/admin/v1/plans/{id}/status'', Needs PermProductsWrite (\<lambda>k. handle_plan_status k rq))]"

definition card_routes :: "svc \<Rightarrow> nat list list \<Rightarrow> http_request \<Rightarrow> admin_entry list" where
  "card_routes S en rq =
    [(''GET'', ''/admin/v1/batches'', Needs PermCardsRead (\<lambda>_. handle_list_batches rq)),
     (''POST'', ''/admin/v1/batches'', Needs PermCardsManage (\<lambda>_. handle_create_batch S (concat en) rq)),
     (''POST'', ''/admin/v1/batches/import'', Needs PermCardsManage (\<lambda>_. handle_import_cards S rq)),
     (''GET'', ''/admin/v1/cards'', Needs PermCardsRead (\<lambda>_. handle_list_cards rq)),
     (''POST'', ''/admin/v1/cards/{id}/action'', Needs PermCardsManage (\<lambda>k. handle_card_action k rq)),
     (''POST'', ''/admin/v1/cards/{id}/note'', Needs PermCardsManage (\<lambda>k. handle_set_card_note k rq)),
     (''POST'', ''/admin/v1/cards/{id}/reveal'', Needs PermCardsExport (\<lambda>k. handle_reveal_card S k)),
     (''GET'', ''/admin/v1/licenses'', Needs PermLicensesRead (\<lambda>_. handle_list_licenses rq)),
     (''GET'', ''/admin/v1/licenses/{id}'', Needs PermLicensesRead (\<lambda>k. handle_license_detail k)),
     (''POST'', ''/admin/v1/licenses/{id}/action'', Needs PermLicensesManage (\<lambda>k. handle_license_action k rq)),
     (''POST'', ''/admin/v1/licenses/{id}/note'', Needs PermLicensesManage (\<lambda>k. handle_license_note k rq)),
     (''POST'', ''/admin/v1/licenses/{id}/extend'', Needs PermLicensesManage (\<lambda>k. handle_extend_license k rq)),
     (''GET'', ''/admin/v1/devices'', Needs PermLicensesRead (\<lambda>_. handle_list_devices rq)),
     (''POST'', ''/admin/v1/devices/{id}/unbind'', Needs PermDevicesManage (\<lambda>k. handle_unbind_device k rq))]"

definition agent_routes :: "svc \<Rightarrow> site \<Rightarrow> http_request \<Rightarrow> admin_entry list" where
  "agent_routes S site rq =
    [(''GET'', ''/admin/v1/agents'', Needs PermAgentsManage (\<lambda>_ _. handle_list_agents)),
     (''POST'', ''/admin/v1/agents'', Needs PermAgentsManage (\<lambda>_. handle_create_agent S rq)),
     (''GET'', ''/admin/v1/agents/{id}/products'', Needs PermAgentsManage (\<lambda>k. handle_agent_products_get k)),
     (''POST'', ''/admin/v1/agents/{id}/products'', Needs PermAgentsManage (\<lambda>k. handle_agent_products_post k rq)),
     (''GET'', ''/admin/v1/agents/{id}/account'', Needs PermAgentsManage (\<lambda>k. handle_agent_account_get k)),
     (''POST'', ''/admin/v1/agents/{id}/account'', Needs PermAgentsManage (\<lambda>k. handle_agent_account_post S k rq)),
     (''POST'', ''/admin/v1/agents/{id}/status'', Needs PermAgentsManage (\<lambda>k. handle_agent_status k rq)),
     (''POST'', ''/admin/v1/agents/{id}/balance'', Needs PermAgentsManage (\<lambda>k. handle_agent_balance k rq)),
     (''GET'', ''/admin/v1/agents/{id}/transactions'', Needs PermAgentsManage (\<lambda>k _. handle_agent_transactions k)),
     (''GET'', ''/admin/v1/admins'', Needs PermAdminsManage (\<lambda>_ _. handle_list_admins)),
     (''POST'', ''/admin/v1/admins'', Needs PermAdminsManage (\<lambda>_. handle_create_admin S rq)),
     (''POST'', ''/admin/v1/admins/{id}/status'', Needs PermAdminsManage (\<lambda>k. handle_admin_status k rq)),
     (''GET'', ''/admin/v1/audit'', Needs PermAuditRead (\<lambda>_ _. handle_list_audit site rq)),
     (''GET'', ''/admin/v1/risk'', Needs PermRiskManage (\<lambda>_ _. handle_list_risk rq)),
     (''GET'', ''/admin/v1/users'', Needs PermUsersManage (\<lambda>_ _. handle_list_users rq)),
     (''GET'', ''/admin/v1/users/{id}'', Needs PermUsersManage (\<lambda>k _. handle_user_detail k)),
     (''POST'', ''/admin/v1/users/{id}/action'', Needs PermUsersManage (\<lambda>k. handle_user_action k rq)),
     (''POST'', ''/admin/v1/cards/bulk-action'', Needs PermCardsManage (\<lambda>_. handle_bulk_card_action rq))]"

definition site_routes :: "svc \<Rightarrow> site \<Rightarrow> http_request \<Rightarrow> admin_entry list" where
  "site_routes S site rq =
    [(''GET'', ''/admin/v1/messages'', Needs PermProductsRead (\<lambda>_ _. handle_list_messages rq)),
     (''POST'', ''/admin/v1/messages'', Needs PermProductsWrite (\<lambda>_. handle_create_message rq)),
     (''POST'', ''/admin/v1/messages/{id}/enabled'', Needs PermProductsWrite (\<lambda>k _. handle_set_message_enabled k rq)),
     (''DELETE'', ''/admin/v1/messages/{id}'', Needs PermProductsWrite (\<lambda>k _. handle_delete_message k)),
     (''GET'', ''/admin/v1/versions'', Needs PermProductsRead (\<lambda>_ _. handle_list_versions rq)),
     (''POST'', ''/admin/v1/versions'', Needs PermProductsWrite (\<lambda>_. handle_create_version rq)),
     (''DELETE'', ''/admin/v1/versions/{id}'', Needs PermProductsWrite (\<lambda>k _. handle_delete_version k)),
     (''GET'', ''/admin/v1/ratelimits'', Needs PermRiskManage (\<lambda>_ _. handle_list_rate_limits site)),
     (''POST'', ''/admin/v1/ratelimits'', Needs PermRiskManage (\<lambda>_. handle_set_rate_limit rq)),
     (''GET'', ''/admin/v1/bans'', Needs PermRiskManage (\<lambda>_ _. handle_list_bans)),
     (''POST'', ''/admin/v1/bans'', Needs PermRiskManage (\<lambda>_. handle_create_ban site rq)),
     (''POST'', ''/admin/v1/bans/delete'', Needs PermRiskManage (\<lambda>_. handle_delete_ban rq)),
     (''GET'', ''/admin/v1/keys'', Needs PermStatsRead (\<lambda>_ _. handle_keys S)),
     (''GET'', ''/admin/v1/stats'', Needs PermStatsRead (\<lambda>_ _. handle_stats))]"

definition admin_routes :: "svc \<Rightarrow> site \<Rightarrow> nat list list \<Rightarrow> http_request \<Rightarrow> admin_entry list" where
  "admin_routes S site en rq = account_routes S site en rq @ card_routes S en rq @ agent_routes S site rq @ site_routes S site rq"

text \<open>chi's matching: a parameter at the end of a path is not empty.\<close>

fun match_segments :: "string list \<Rightarrow> string list \<Rightarrow> string option" where
  "match_segments [] [] = Some []"
| "match_segments (p # ps) (s # ss) =
    (if p = ''{id}'' then (if s = [] \<and> ss = [] \<or> match_segments ps ss = None then None else Some s)
     else if p = s then match_segments ps ss else None)"
| "match_segments _ _ = None"

definition match_path :: "string \<Rightarrow> string \<Rightarrow> string option" where
  "match_path pattern path = match_segments (split_on (CHR ''/'') pattern) (split_on (CHR ''/'') path)"

fun find_route :: "string \<Rightarrow> string \<Rightarrow> admin_entry list \<Rightarrow> (access \<times> string) option" where
  "find_route m path [] = None"
| "find_route m path ((m', pattern, a) # es) = (case match_path pattern path of
     Some x \<Rightarrow> if m' = m then Some (a, x) else find_route m path es
   | None \<Rightarrow> find_route m path es)"

text \<open>A path nobody serves is 404, one that is served by another method 405.\<close>

definition no_admin_route :: "admin_entry list \<Rightarrow> string \<Rightarrow> admin_response srv" where
  "no_admin_route es path = retM \<lparr>hs_status = (if list_ex (\<lambda>(m, p, _). match_path p path \<noteq> None) es
     then 405 else 404), hs_error = None, hs_body = None, hs_cookie = None\<rparr>"

definition run_access :: "svc \<Rightarrow> http_request \<Rightarrow> access \<Rightarrow> string \<Rightarrow> http_ctx \<Rightarrow> admin_response srv" where
  "run_access S rq a x = (case a of Public h \<Rightarrow> h
     | Session h \<Rightarrow> require_admin_session S rq (h x)
     | Needs p h \<Rightarrow> require_admin_session S rq (require_perm p (h x)))"

text \<open>The random bytes card texts and product codes are made of are the argument \<open>en\<close>.\<close>

definition dispatch_admin :: "svc \<Rightarrow> site \<Rightarrow> nat list list \<Rightarrow> http_request \<Rightarrow> http_ctx \<Rightarrow> admin_response srv" where
  "dispatch_admin S site en rq cx = (let es = admin_routes S site en rq in
     case find_route (hq_method rq) (hq_path rq) es of None \<Rightarrow> no_admin_route es (hq_path rq)
     | Some (a, x) \<Rightarrow> run_access S rq a x cx)"

definition serve_admin :: "svc \<Rightarrow> site \<Rightarrow> nat list list \<Rightarrow> http_request \<Rightarrow> admin_response srv" where
  "serve_admin S site en rq = with_context (c_proxies (si_cfg site)) rq (dispatch_admin S site en rq)"

end
