(* ===== verification/UserSvc.thy ===== *)
theory UserSvc
  imports AdminAuth
begin

section \<open>UserSvc: accounts of end users\<close>

text \<open>
  \<open>internal/service/usersvc.go\<close>: registration, login with the machine an account is bound to,
  spending a card on an account, changing and recovering the password. A card is spent either
  on a licence or on an account, never on both. The user's log is written best effort.
\<close>

definition end_params :: argon_params where
  "end_params = \<lparr>ap_memory = 8192, ap_time = 2, ap_threads = 1, ap_key_len = 32, ap_salt_len = 16\<rparr>"

definition hash_user_password :: "svc \<Rightarrow> string \<Rightarrow> string srv" where
  "hash_user_password S pw =
     bindM random_token (\<lambda>salt. liftE (hash_password (sv_prims S) salt pw end_params))"

definition user_token_ttl :: int where "user_token_ttl = 600 * second"

definition get_product_id_by_code :: "string \<Rightarrow> string srv" where
  "get_product_id_by_code code =
    mapErrM (\<lambda>_. Dom ErrProductRetired)
      (bindM (get_product_by_code (to_upper (trim_space code))) (\<lambda>p.
        if pr_status p \<noteq> ''active'' then throwM (Dom ErrProductRetired) else retM (pr_id p)))"

definition log_user :: "string \<Rightarrow> string \<Rightarrow> string \<Rightarrow> string \<Rightarrow> string option \<Rightarrow> detail \<Rightarrow> unit srv" where
  "log_user uid name kind pid ip det = ignoreM (insert_end_user_log (Some uid) name kind (Some pid) ip det)"

subsection \<open>Registration\<close>

definition zero_time :: time where
  "zero_time = -62135596800 * second"

definition new_user :: "string \<Rightarrow> string \<Rightarrow> string \<Rightarrow> string \<Rightarrow> string \<Rightarrow> end_user" where
  "new_user pid name pw sec ip = \<lparr>eu_id = [], eu_product = pid, eu_username = name, eu_password = pw,
     eu_security = sec, eu_status = [], eu_expires = zero_time, eu_machine = None, eu_machine_at = None,
     eu_reg_ip = str_opt ip, eu_last_login = None, eu_last_ip = None, eu_note = None, eu_created = 0,
     eu_updated = 0\<rparr>"

definition user_register :: "svc \<Rightarrow> string \<Rightarrow> string \<Rightarrow> string \<Rightarrow> string \<Rightarrow> string \<Rightarrow> unit srv" where
  "user_register S code name pw sec ip =
    (if \<not> username_ok name then throwM (Dom ErrBadUsername)
     else if length pw < 6 then throwM (Text ''password too short'')
     else if length sec < 4 then throwM (Text ''security code too short'')
     else bindM (get_product_id_by_code code) (\<lambda>pid.
      bindM (tryM (get_end_user_by_name pid name)) (\<lambda>r.
      case r of Inr _ \<Rightarrow> throwM (Dom ErrUserExists)
      | Inl e \<Rightarrow> if e \<noteq> Store ErrNoRows then throwM e
        else bindM (hash_user_password S pw) (\<lambda>ph.
         bindM (hash_user_password S sec) (\<lambda>sh.
         bindM (mapErrM (\<lambda>x. if x = Store ErrNoRows \<or> x = Store ErrUnique then Dom ErrUserExists else x)
             (create_end_user (new_user pid name ph sh ip))) (\<lambda>_.
         bindM (get_end_user_by_name pid name) (\<lambda>u.
           log_user (eu_id u) name ''register'' pid (str_opt ip) [])))))))"

subsection \<open>Login\<close>

record user_login =
  ul_token :: string
  ul_expires_at :: int
  ul_expired :: bool
  ul_status :: string
  ul_message :: string
  ul_latest :: "product_version option"

text \<open>The machine rule: the first login binds it, another machine is refused.\<close>

definition check_machine :: "end_user \<Rightarrow> string \<Rightarrow> string \<Rightarrow> unit srv" where
  "check_machine u fp ip = (case eu_machine u of
     None \<Rightarrow> bind_end_user_machine (eu_id u) fp
   | Some m \<Rightarrow> if m \<noteq> fp then
       seqM (log_user (eu_id u) (eu_username u) ''login_machine_rejected'' (eu_product u) (str_opt ip) [])
         (throwM (Dom ErrMachineBound))
     else retM ())"

definition user_claims :: "time \<Rightarrow> string \<Rightarrow> string \<Rightarrow> string \<Rightarrow> claims" where
  "user_claims now jti uid code = no_claims\<lparr>lc_typ := ''user'', lc_jti := jti, lc_lic := uid, lc_prod := code,
     lc_iat := unix now, lc_exp := unix (now + user_token_ttl), lc_status := ''active''\<rparr>"

definition user_reply :: "svc \<Rightarrow> end_user \<Rightarrow> string \<Rightarrow> user_login srv" where
  "user_reply S u code =
    bindM go_now (\<lambda>now. bindM random_token (\<lambda>jti.
    bindM (liftE (mint_token (sv_signer S) (user_claims now jti (eu_id u) code))) (\<lambda>tok.
    bindM (tryM (latest_enabled_message (eu_product u))) (\<lambda>m.
    bindM (tryM (latest_product_version (eu_product u))) (\<lambda>v.
    let ex = eu_expires u < now in
      retM \<lparr>ul_token = tok, ul_expires_at = unix (eu_expires u), ul_expired = ex,
        ul_status = (if ex then ''expired'' else ''active''),
        ul_message = (case m of Inr s \<Rightarrow> (if s \<noteq> [] then s else if ex then ''account expired'' else [])
          | Inl _ \<Rightarrow> if ex then ''account expired'' else []),
        ul_latest = (case v of Inr x \<Rightarrow> Some x | Inl _ \<Rightarrow> None)\<rparr>)))))"

definition user_sign_in :: "svc \<Rightarrow> string \<Rightarrow> string \<Rightarrow> string \<Rightarrow> string list \<Rightarrow> string \<Rightarrow> user_login srv" where
  "user_sign_in S code name pw components ip =
    bindM (mapErrM (\<lambda>_. Service ErrBadCredentials) (get_product_id_by_code code)) (\<lambda>pid.
    bindM (or_no_rows (Service ErrBadCredentials) (get_end_user_by_name pid name)) (\<lambda>u.
    if eu_status u \<noteq> ''active'' then
      seqM (log_user (eu_id u) name ''login_failed'' pid (str_opt ip) [(''reason'', JStr ''disabled'')])
        (throwM (Dom ErrUserDisabled))
    else bindM (check_password S pw (eu_password u)) (\<lambda>ok.
    if \<not> ok then
      seqM (log_user (eu_id u) name ''login_failed'' pid (str_opt ip) []) (throwM (Service ErrBadCredentials))
    else seqM (check_machine u (fingerprint_hash S components) ip)
      (seqM (ignoreM (touch_end_user_login (eu_id u) ip))
      (bindM (user_reply S u code) (\<lambda>res.
       seqM (log_user (eu_id u) name ''login'' pid (str_opt ip) []) (retM res)))))))"

subsection \<open>Spending a card on an account\<close>

definition parse_user_token :: "svc \<Rightarrow> string \<Rightarrow> end_user srv" where
  "parse_user_token S tok =
    bindM go_now (\<lambda>now.
    (case verify_token_with_type (sv_prims S) tok ''user'' (unix now) (sv_signer S) of
       Inl _ \<Rightarrow> throwM (Dom ErrBadSignature)
     | Inr c \<Rightarrow> bindM (mapErrM (\<lambda>_. Dom ErrBadSignature) (get_end_user (lc_lic c))) (\<lambda>u.
         if eu_status u \<noteq> ''active'' then throwM (Dom ErrUserDisabled) else retM u)))"

definition check_bind_card :: "end_user \<Rightarrow> card \<Rightarrow> unit srv" where
  "check_bind_card u c =
    (if cd_product c \<noteq> eu_product u then throwM (Dom ErrCardNotUsable)
     else if cd_kind c \<noteq> ''license'' then throwM (Dom ErrCardNotUsable)
     else if cd_status c \<noteq> CardUnused \<or> cd_license c \<noteq> None \<or> cd_user c \<noteq> None
     then throwM (map_card_err (cd_status c)) else retM ())"

definition bind_card_tx :: "end_user \<Rightarrow> string \<Rightarrow> string \<Rightarrow> time srv" where
  "bind_card_tx user lookup ip =
    bindM (get_end_user (eu_id user)) (\<lambda>u.
    bindM (or_no_rows (Dom ErrCardNotFound) (get_card_by_lookup lookup)) (\<lambda>c.
    seqM (check_bind_card u c)
    (bindM (get_plan (cd_plan c)) (\<lambda>pl.
    if pl_days pl \<le> 0 then throwM (Dom ErrCardNotUsable)
    else seqM (mapErrM (\<lambda>_. Dom ErrCardNotUsable) (mark_card_used_by_user (cd_id c) (eu_id user)))
      (bindM (extend_end_user (eu_id user) (pl_days pl)) (\<lambda>e.
       seqM (insert_end_user_log (Some (eu_id user)) (eu_username user) ''bind_card'' (Some (eu_product user))
          (str_opt ip) [(''card_prefix'', JStr (cd_prefix c)), (''days'', JInt (pl_days pl)), (''new_expiry'', JTime e)])
        (retM e)))))))"

definition user_bind_card :: "svc \<Rightarrow> string \<Rightarrow> string \<Rightarrow> string \<Rightarrow> time srv" where
  "user_bind_card S tok input ip =
    bindM (parse_user_token S tok) (\<lambda>user.
    bindM (liftE (case normalize_card input of Inl _ \<Rightarrow> Inl (Dom ErrCardInvalidFormat) | Inr n \<Rightarrow> Inr n)) (\<lambda>norm.
      with_tx (bind_card_tx user (card_lookup S norm) ip)))"

subsection \<open>Passwords\<close>

definition user_change_password :: "svc \<Rightarrow> string \<Rightarrow> string \<Rightarrow> string \<Rightarrow> unit srv" where
  "user_change_password S tok old_pw new_pw =
    bindM (parse_user_token S tok) (\<lambda>u.
    if length new_pw < 6 then throwM (Text ''password too short'')
    else bindM (check_password S old_pw (eu_password u)) (\<lambda>ok.
     if \<not> ok then throwM (Service ErrBadCredentials)
    else bindM (hash_user_password S new_pw) (\<lambda>h.
      seqM (set_end_user_password (eu_id u) h)
        (log_user (eu_id u) (eu_username u) ''change_pw'' (eu_product u) None []))))"

definition user_recover :: "svc \<Rightarrow> string \<Rightarrow> string \<Rightarrow> string \<Rightarrow> string \<Rightarrow> string \<Rightarrow> unit srv" where
  "user_recover S code name sec new_pw ip =
    (if length new_pw < 6 then throwM (Text ''password too short'')
     else bindM (mapErrM (\<lambda>_. Service ErrBadCredentials) (get_product_id_by_code code)) (\<lambda>pid.
      bindM (or_no_rows (Service ErrBadCredentials) (get_end_user_by_name pid name)) (\<lambda>u.
      bindM (check_password S sec (eu_security u)) (\<lambda>ok.
      if \<not> ok then
        seqM (log_user (eu_id u) name ''recover'' pid (str_opt ip) [(''ok'', JBool False)])
          (throwM (Dom ErrBadSecurityCode))
      else bindM (hash_user_password S new_pw) (\<lambda>h.
        seqM (set_end_user_password (eu_id u) h)
          (log_user (eu_id u) name ''recover'' pid (str_opt ip) [(''ok'', JBool True)]))))))"

end
