(* ===== verification/ClientApi.thy ===== *)
theory ClientApi
  imports Http UserSvc
begin

section \<open>ClientApi: the public API\<close>

text \<open>
  \<open>internal/httpapi/client.go\<close> and \<open>user.go\<close>: the routes of \<open>ClientRouter\<close> with their body limits and
  rate-limit scopes, and their handlers. A scope with a row in \<open>api_rate_limits\<close> takes its limit
  from there.
\<close>

datatype client_payload = ClientOk
  | BootstrapBody int "kex_row list" "(string \<times> string) list" int int
  | ActivationBody activation_result string
  | HeartbeatBody heartbeat_response
  | RedeemBody redeem_result string
  | UserLoginBody user_login
  | ExpiresBody time
  | AnnounceBody string "product_version option"

type_synonym client_response = "client_payload http_response srv"

subsection \<open>Devices\<close>

text \<open>\<open>int(d.Seconds())\<close>.\<close>

definition whole_seconds :: "int \<Rightarrow> int" where
  "whole_seconds d = sgn d * (abs d div second)"

definition handle_bootstrap :: "svc \<Rightarrow> http_request \<Rightarrow> http_ctx \<Rightarrow> client_response" where
  "handle_bootstrap S rq cx = unless_banned cx
    (answer cx active_kex_keys (\<lambda>kex. bindM go_now (\<lambda>now.
      retM (write_json 200 (BootstrapBody (unix now) kex (public_keys_snapshot (sv_signer S))
        (whole_seconds (sv_replay_window S)) (whole_seconds (sv_skew S)))))))"

definition parse_device_auth :: "http_request \<Rightarrow> device_sig option" where
  "parse_device_auth rq = (let h = hq_header rq ''X-Vft-Device-Auth'' in
     if h = [] then None else (case parse_device_signature h of Inl _ \<Rightarrow> None | Inr ds \<Rightarrow> Some ds))"

text \<open>The body and the device's signature, or 400.\<close>

definition with_signed_body :: "nat option \<Rightarrow> http_request \<Rightarrow> http_ctx \<Rightarrow> (string \<Rightarrow> device_sig \<Rightarrow> client_response) \<Rightarrow>
    client_response" where
  "with_signed_body lim rq cx k = (case read_body lim rq of None \<Rightarrow> bad_request cx | Some body \<Rightarrow>
     (case parse_device_auth rq of None \<Rightarrow> bad_request cx | Some ds \<Rightarrow> k body ds))"

text \<open>A card that was not found or is malformed counts against the address it came from.\<close>

definition answer_card :: "error list \<Rightarrow> http_ctx \<Rightarrow> 'a srv \<Rightarrow> ('a \<Rightarrow> client_response) \<Rightarrow> client_response" where
  "answer_card counted_errs cx m k = bindM (tryM m) (\<lambda>r. case r of Inr x \<Rightarrow> k x
     | Inl e \<Rightarrow> if e \<in> set counted_errs then
         bindM (card_failure (hc_ip cx)) (\<lambda>burst.
           if burst then refuse cx 429 ''RATE_LIMITED'' else retM (map_error cx e))
       else retM (map_error cx e))"

definition card_guesses :: "error list" where
  "card_guesses = [Dom ErrCardNotFound, Dom ErrCardInvalidFormat]"

definition handle_activate :: "svc \<Rightarrow> nat option \<Rightarrow> http_request \<Rightarrow> http_ctx \<Rightarrow> client_response" where
  "handle_activate S lim rq cx = with_signed_body lim rq cx (\<lambda>body ds. unless_banned cx
     (answer_card card_guesses cx (activate S body (Some ds) (hc_ip cx) (hc_rid cx)) (\<lambda>res.
       answer cx (liftE (mint_token (sv_signer S) (ar_claims res))) (\<lambda>lease.
         retM (write_json 200 (ActivationBody res lease))))))"

definition handle_redeem :: "svc \<Rightarrow> nat option \<Rightarrow> http_request \<Rightarrow> http_ctx \<Rightarrow> client_response" where
  "handle_redeem S lim rq cx = with_signed_body lim rq cx (\<lambda>body ds. unless_banned cx
     (answer_card card_guesses cx (redeem S body ds (hc_ip cx) (hc_rid cx)) (\<lambda>res.
       answer cx (liftE (mint_token (sv_signer S) (rr_claims res))) (\<lambda>lease.
         retM (write_json 200 (RedeemBody res lease))))))"

definition handle_heartbeat :: "svc \<Rightarrow> nat option \<Rightarrow> http_request \<Rightarrow> http_ctx \<Rightarrow> client_response" where
  "handle_heartbeat S lim rq cx = with_signed_body lim rq cx (\<lambda>body ds.
     answer cx (heartbeat S ds body (hc_ip cx)) (\<lambda>res. retM (write_json 200 (HeartbeatBody res))))"

definition handle_deactivate :: "svc \<Rightarrow> nat option \<Rightarrow> http_request \<Rightarrow> http_ctx \<Rightarrow> client_response" where
  "handle_deactivate S lim rq cx = with_signed_body lim rq cx (\<lambda>body ds.
     answer cx (deactivate S ds body (hc_ip cx) (hc_rid cx)) (\<lambda>_. retM (write_json 200 ClientOk)))"

subsection \<open>Accounts\<close>

record user_req =
  ur_product :: string
  ur_username :: string
  ur_password :: string
  ur_security :: string
  ur_new_password :: string
  ur_token :: string
  ur_card :: string
  ur_components :: "string list"

definition no_user_req :: user_req where
  "no_user_req = \<lparr>ur_product = [], ur_username = [], ur_password = [], ur_security = [], ur_new_password = [],
     ur_token = [], ur_card = [], ur_components = []\<rparr>"

definition user_req_fields :: "user_req js_field list" where
  "user_req_fields = [js_string ''product'' (\<lambda>x. ur_product_update (\<lambda>_. x)),
     js_string ''username'' (\<lambda>x. ur_username_update (\<lambda>_. x)),
     js_string ''password'' (\<lambda>x. ur_password_update (\<lambda>_. x)),
     js_string ''security_code'' (\<lambda>x. ur_security_update (\<lambda>_. x)),
     js_string ''new_password'' (\<lambda>x. ur_new_password_update (\<lambda>_. x)),
     js_string ''token'' (\<lambda>x. ur_token_update (\<lambda>_. x)),
     js_string ''card'' (\<lambda>x. ur_card_update (\<lambda>_. x)),
     js_strings ''components'' (\<lambda>x. ur_components_update (\<lambda>_. x))]"

definition with_user_req :: "nat option \<Rightarrow> http_request \<Rightarrow> http_ctx \<Rightarrow> (user_req \<Rightarrow> client_response) \<Rightarrow> client_response" where
  "with_user_req lim rq cx k = with_json lim user_req_fields no_user_req rq cx k"

definition handle_user_register :: "svc \<Rightarrow> nat option \<Rightarrow> http_request \<Rightarrow> http_ctx \<Rightarrow> client_response" where
  "handle_user_register S lim rq cx = with_user_req lim rq cx (\<lambda>u.
     bindM (tryM (user_register S (ur_product u) (ur_username u) (ur_password u) (ur_security u) (hc_ip cx)))
      (\<lambda>r. case r of Inr _ \<Rightarrow> retM (write_json 200 ClientOk)
       | Inl e \<Rightarrow> if e = Dom ErrUserExists then
           bindM (user_signup_burst (hc_ip cx)) (\<lambda>burst.
             if burst then refuse cx 429 ''RATE_LIMITED'' else retM (map_error cx e))
         else retM (map_error cx e)))"

definition handle_user_login :: "svc \<Rightarrow> nat option \<Rightarrow> http_request \<Rightarrow> http_ctx \<Rightarrow> client_response" where
  "handle_user_login S lim rq cx = with_user_req lim rq cx (\<lambda>u. unless_banned cx
     (answer cx (user_sign_in S (ur_product u) (ur_username u) (ur_password u) (ur_components u) (hc_ip cx))
       (\<lambda>res. retM (write_json 200 (UserLoginBody res)))))"

definition handle_user_bind_card :: "svc \<Rightarrow> nat option \<Rightarrow> http_request \<Rightarrow> http_ctx \<Rightarrow> client_response" where
  "handle_user_bind_card S lim rq cx = with_user_req lim rq cx (\<lambda>u. unless_banned cx
     (answer_card [Dom ErrCardNotFound] cx (user_bind_card S (ur_token u) (ur_card u) (hc_ip cx))
       (\<lambda>e. retM (write_json 200 (ExpiresBody e)))))"

definition handle_user_change_pw :: "svc \<Rightarrow> nat option \<Rightarrow> http_request \<Rightarrow> http_ctx \<Rightarrow> client_response" where
  "handle_user_change_pw S lim rq cx = with_user_req lim rq cx (\<lambda>u.
     answer cx (user_change_password S (ur_token u) (ur_password u) (ur_new_password u))
       (\<lambda>_. retM (write_json 200 ClientOk)))"

definition handle_user_recover :: "svc \<Rightarrow> nat option \<Rightarrow> http_request \<Rightarrow> http_ctx \<Rightarrow> client_response" where
  "handle_user_recover S lim rq cx = with_user_req lim rq cx (\<lambda>u.
     answer cx (user_recover S (ur_product u) (ur_username u) (ur_security u) (ur_new_password u) (hc_ip cx))
       (\<lambda>_. retM (write_json 200 ClientOk)))"

definition handle_announce :: "http_request \<Rightarrow> http_ctx \<Rightarrow> client_response" where
  "handle_announce rq cx = (let code = url_query rq ''product'' in
     if code = [] then bad_request cx
     else bindM (tryM (get_product_id_by_code code)) (\<lambda>r. case r of
         Inl _ \<Rightarrow> refuse cx 404 ''PRODUCT_NOT_FOUND''
       | Inr pid \<Rightarrow> bindM (tryM (latest_enabled_message pid)) (\<lambda>m.
           bindM (tryM (latest_product_version pid)) (\<lambda>v.
             retM (write_json 200 (AnnounceBody (case m of Inl _ \<Rightarrow> [] | Inr s \<Rightarrow> s)
               (case v of Inl _ \<Rightarrow> None | Inr x \<Rightarrow> Some x)))))))"

subsection \<open>The router\<close>

datatype client_route = ToBootstrap | ToActivate | ToRedeem | ToHeartbeat | ToDeactivate | ToUserRegister | ToUserLogin
  | ToUserBindCard | ToUserChangePw | ToUserRecover | ToAnnounce

text \<open>Method, path, body limit, rate-limit scope with its default, handler.\<close>

definition client_routes :: "site \<Rightarrow> (string \<times> string \<times> nat option \<times> string \<times> int \<times> client_route) list" where
  "client_routes site = (let cfg = si_cfg site in
    [(''GET'', ''/v1/bootstrap'', None, ''bootstrap'', c_bootstrap_rpm cfg, ToBootstrap),
     (''POST'', ''/v1/activate'', Some 65536, ''activate'', c_activate_rpm cfg, ToActivate),
     (''POST'', ''/v1/redeem'', Some 65536, ''activate'', c_activate_rpm cfg, ToRedeem),
     (''POST'', ''/v1/heartbeat'', Some 8192, ''heartbeat'', c_heartbeat_rpm cfg, ToHeartbeat),
     (''POST'', ''/v1/deactivate'', Some 8192, ''heartbeat'', c_heartbeat_rpm cfg, ToDeactivate),
     (''POST'', ''/v1/user/register'', Some 4096, ''user_register'', 3, ToUserRegister),
     (''POST'', ''/v1/user/login'', Some 4096, ''user_login'', 10, ToUserLogin),
     (''POST'', ''/v1/user/bindcard'', Some 4096, ''user_ops'', 30, ToUserBindCard),
     (''POST'', ''/v1/user/changepw'', Some 4096, ''user_ops'', 30, ToUserChangePw),
     (''POST'', ''/v1/user/recover'', Some 4096, ''user_ops'', 30, ToUserRecover),
     (''GET'', ''/v1/announce'', None, ''bootstrap'', c_bootstrap_rpm cfg, ToAnnounce)])"

fun client_handler :: "svc \<Rightarrow> client_route \<Rightarrow> nat option \<Rightarrow> http_request \<Rightarrow> http_ctx \<Rightarrow> client_response" where
  "client_handler S ToBootstrap lim = handle_bootstrap S"
| "client_handler S ToActivate lim = handle_activate S lim"
| "client_handler S ToRedeem lim = handle_redeem S lim"
| "client_handler S ToHeartbeat lim = handle_heartbeat S lim"
| "client_handler S ToDeactivate lim = handle_deactivate S lim"
| "client_handler S ToUserRegister lim = handle_user_register S lim"
| "client_handler S ToUserLogin lim = handle_user_login S lim"
| "client_handler S ToUserBindCard lim = handle_user_bind_card S lim"
| "client_handler S ToUserChangePw lim = handle_user_change_pw S lim"
| "client_handler S ToUserRecover lim = handle_user_recover S lim"
| "client_handler S ToAnnounce lim = handle_announce"

text \<open>
  What chi answers when no route matches: 405 when another method has the path, else 404; no
  handler and no middleware of a group runs.
\<close>

definition no_route :: "bool \<Rightarrow> 'p http_response srv" where
  "no_route known = retM \<lparr>hs_status = (if known then 405 else 404), hs_error = None, hs_body = None, hs_cookie = None\<rparr>"

text \<open>The limiter is the one piece of state the router keeps in memory.\<close>

definition serve_client :: "svc \<Rightarrow> site \<Rightarrow> limiter \<Rightarrow> http_request \<Rightarrow> (client_payload http_response \<times> limiter) srv" where
  "serve_client S site l rq =
    (case find (\<lambda>(m, p, _). m = hq_method rq \<and> p = hq_path rq) (client_routes site) of
       None \<Rightarrow> bindM (with_context (c_proxies (si_cfg site)) rq
         (\<lambda>cx. no_route (list_ex (\<lambda>(m, p, _). p = hq_path rq) (client_routes site)))) (\<lambda>x. retM (x, l))
     | Some (m, p, lim, scope, fallback, route) \<Rightarrow>
         bindM (refresh_limits l) (\<lambda>l'.
         bindM (with_context (c_proxies (si_cfg site)) rq
           (\<lambda>cx. scope_limited l' scope fallback cx (client_handler S route lim rq cx))) (\<lambda>x. retM (x, l'))))"

end
