(* ===== verification/Frames.thy ===== *)
theory Frames
  imports StoreAdmin
begin

section \<open>What a run does to the database\<close>

text \<open>
  Three ways to speak of the effect of an operation, from the weakest to the strongest:
  \<open>keeps\<close> (an observation does not change; one lemma per table says which statements leave it
  alone), \<open>evolves R m\<close> (every run of \<open>m\<close>, failing or not, moves the database along the
  preorder \<open>R\<close>; the locale \<open>db_preorder\<close> composes it through the monad and through
  transactions), and the \<open>_Inr\<close> rules, which give the exact database a successful statement ends in.
\<close>

subsection \<open>Successful statements\<close>

lemma db_step_Inr:
  "db_step f w = (Inr x, w') \<Longrightarrow> \<exists>v d. f v = Inr (x, d) \<and> w_db v = w_db w \<and> w_now v = w_now w \<and>
     w_db w' = d \<and> w_now w' = w_now w"
  by (auto simp: db_step_def Let_def split: prod.splits fault.splits sum.splits
      intro!: exI [of _ "w\<lparr>w_db_faults := snd (next_fault (w_db_faults w))\<rparr>"])

lemma db_exec_Inr:
  "db_exec f w = (Inr x, w') \<Longrightarrow> f (pg_time (w_now w)) (w_db w) = Inr (x, w_db w') \<and> w_now w' = w_now w"
  unfolding db_exec_def by (drule db_step_Inr) auto

lemma db_new_Inr:
  "db_new f w = (Inr x, w') \<Longrightarrow> (\<exists>i. f (pg_time (w_now w)) i (w_db w) = Inr (x, w_db w')) \<and> w_now w' = w_now w"
  unfolding db_new_def by (drule db_step_Inr) auto

lemma db_serial_Inr:
  "db_serial f w = (Inr x, w') \<Longrightarrow> (\<exists>i. f (pg_time (w_now w)) i (w_db w) = Inr (x, w_db w')) \<and> w_now w' = w_now w"
  unfolding db_serial_def by (drule db_step_Inr) auto

lemma db_write_Inr:
  "db_write f w = (Inr x, w') \<Longrightarrow> w_db w' = f (pg_time (w_now w)) (w_db w) \<and> w_now w' = w_now w"
  unfolding db_write_def by (drule db_exec_Inr) simp

lemma db_one_Inr:
  "db_one f w = (Inr x, w') \<Longrightarrow> f (pg_time (w_now w)) (w_db w) = Some x \<and> w_db w' = w_db w \<and> w_now w' = w_now w"
  unfolding db_one_def by (drule db_exec_Inr) (auto split: option.splits)

lemma db_read_Inr:
  "db_read f w = (Inr x, w') \<Longrightarrow> x = f (pg_time (w_now w)) (w_db w) \<and> w_db w' = w_db w \<and> w_now w' = w_now w"
  unfolding db_read_def by (drule db_exec_Inr) auto

lemma get_row_Inr:
  "db_one (next_row tab p) w = (Inr x, w') \<Longrightarrow> x \<in> set (tab (w_db w)) \<and> p x \<and> w_db w' = w_db w \<and> w_now w' = w_now w"
  by (auto dest!: db_one_Inr find_Some_in simp: next_row_def)

lemma with_tx_InrE:
  assumes "with_tx body w = (Inr x, w')"
  obtains v v' where "body v = (Inr x, v')" "w_db v = w_db w" "w_now v = w_now w" "w_db w' = w_db v'"
proof -
  from with_tx_Inr [OF assms] obtain w2 where
    w2: "body (w\<lparr>w_db_faults := snd (next_fault (w_db_faults w))\<rparr>) = (Inr x, w2)" "w_db w' = w_db w2" by blast
  show ?thesis by (rule that [OF w2(1)]) (simp_all add: w2(2))
qed

subsection \<open>Preorders on databases\<close>

definition evolves :: "(db \<Rightarrow> db \<Rightarrow> bool) \<Rightarrow> 'a srv \<Rightarrow> bool" where
  "evolves R m \<longleftrightarrow> (\<forall>w. R (w_db w) (w_db (snd (m w))))"

lemma evolvesI: "(\<And>w r w'. m w = (r, w') \<Longrightarrow> R (w_db w) (w_db w')) \<Longrightarrow> evolves R m"
  unfolding evolves_def by (metis surjective_pairing)

lemma evolvesD: "evolves R m \<Longrightarrow> m w = (r, w') \<Longrightarrow> R (w_db w) (w_db w')"
  unfolding evolves_def by (metis snd_conv)

locale db_preorder =
  fixes R :: "db \<Rightarrow> db \<Rightarrow> bool"
  assumes R_refl: "R d d" and R_trans: "R a b \<Longrightarrow> R b c \<Longrightarrow> R a c"
begin

lemma keeps_db: "keeps w_db m \<Longrightarrow> evolves R m"
  by (rule evolvesI) (metis R_refl keepsD)

lemma ret: "evolves R (retM x)" "evolves R (throwM e)" "evolves R (guardM b e)" "evolves R (getsM f)"
  by (rule evolvesI, auto simp: mdefs R_refl split: if_splits)+

lemma reads: "evolves R (db_read f)" "evolves R (db_one g)" "evolves R (redis_call h)" "evolves R (redis_op k)"
  "evolves R go_now" "evolves R random_token"
  by (intro keeps_db keepI)+

lemma bind: "evolves R m \<Longrightarrow> (\<And>x. evolves R (f x)) \<Longrightarrow> evolves R (bindM m f)"
  by (rule evolvesI) (auto simp: bindM_def split: prod.splits sum.splits dest: evolvesD R_trans)

lemma bind_run:
  assumes "evolves R m" "\<And>w x w'. m w = (Inr x, w') \<Longrightarrow> R (w_db w) (w_db (snd (f x w')))"
  shows "evolves R (bindM m f)"
proof (rule evolvesI)
  fix w r w'
  assume run: "bindM m f w = (r, w')"
  show "R (w_db w) (w_db w')"
  proof (cases "m w")
    case (Pair q v)
    with run assms(2) [of w _ v] evolvesD [OF assms(1) Pair] show ?thesis
      by (cases q) (auto simp: bindM_def)
  qed
qed

lemma seq: "evolves R m \<Longrightarrow> evolves R k \<Longrightarrow> evolves R (seqM m k)"
  unfolding seqM_def by (rule bind)

lemma wrap: "evolves R m \<Longrightarrow> evolves R (tryM m)" "evolves R m \<Longrightarrow> evolves R (ignoreM m)"
  "evolves R m \<Longrightarrow> evolves R (mapErrM g m)"
  by (auto simp: evolves_def mdefs split: prod.splits sum.splits) (metis snd_conv)+

lemma if_case: "evolves R m \<Longrightarrow> evolves R n \<Longrightarrow> evolves R (if b then m else n)"
  by simp

lemma option_case: "evolves R m \<Longrightarrow> (\<And>y. evolves R (f y)) \<Longrightarrow>
    evolves R (case x of None \<Rightarrow> m | Some y \<Rightarrow> f y)"
  by (cases x) auto

lemma sum_case: "(\<And>e. evolves R (g e)) \<Longrightarrow> (\<And>y. evolves R (f y)) \<Longrightarrow>
    evolves R (case x of Inl e \<Rightarrow> g e | Inr y \<Rightarrow> f y)"
  by (cases x) auto

lemma prod_case: "(\<And>a b. evolves R (f a b)) \<Longrightarrow> evolves R (case x of (a, b) \<Rightarrow> f a b)"
  by (cases x) auto

lemma let_case: "(\<And>x. evolves R (f x)) \<Longrightarrow> evolves R (Let v f)"
  by (simp add: Let_def)

text \<open>A transaction only has to be right about the runs that commit.\<close>

lemma tx: "(\<And>w x w'. body w = (Inr x, w') \<Longrightarrow> R (w_db w) (w_db w')) \<Longrightarrow> evolves R (with_tx body)"
  unfolding evolves_def
proof
  fix w
  assume ok: "\<And>w x w'. body w = (Inr x, w') \<Longrightarrow> R (w_db w) (w_db w')"
  show "R (w_db w) (w_db (snd (with_tx body w)))"
    using with_tx_atomic [of body w] by (auto simp: R_refl dest!: ok)
qed

text \<open>The same from one given world: what the operation read before the transaction still holds in it.\<close>

lemma tx_at:
  assumes "\<And>v x v'. w_db v = w_db w \<Longrightarrow> body v = (Inr x, v') \<Longrightarrow> R (w_db v) (w_db v')"
  shows "R (w_db w) (w_db (snd (with_tx body w)))"
  using with_tx_atomic [of body w]
proof (elim disjE exE conjE)
  fix x w'
  assume "body (w\<lparr>w_db_faults := snd (next_fault (w_db_faults w))\<rparr>) = (Inr x, w')"
    and "w_db (snd (with_tx body w)) = w_db w'"
  then show ?thesis using assms [of "w\<lparr>w_db_faults := snd (next_fault (w_db_faults w))\<rparr>" x w'] by simp
qed (simp add: R_refl)

lemma then_at: "R (w_db w) (w_db (snd (m w))) \<Longrightarrow> (\<And>x. evolves R (f x)) \<Longrightarrow> R (w_db w) (w_db (snd (bindM m f w)))"
  by (cases "m w") (auto simp: bindM_def evolves_def split: sum.splits intro: R_trans)

lemma seq_at: "R (w_db w) (w_db (snd (m w))) \<Longrightarrow> evolves R k \<Longrightarrow> R (w_db w) (w_db (snd (seqM m k w)))"
  unfolding seqM_def by (rule then_at)

lemma tx_body: "evolves R body \<Longrightarrow> evolves R (with_tx body)"
  by (rule tx) (rule evolvesD)

lemma exec: "(\<And>t d x d'. f t d = Inr (x, d') \<Longrightarrow> R d d') \<Longrightarrow> evolves R (db_exec f)"
  unfolding evolves_def db_exec_def by (intro allI, rule db_step_db) (simp_all add: R_refl)

lemma new_row: "(\<And>t i d x d'. f t i d = Inr (x, d') \<Longrightarrow> R d d') \<Longrightarrow> evolves R (db_new f)"
  unfolding evolves_def db_new_def by (intro allI, rule db_step_db) (simp_all add: R_refl)

lemma serial: "(\<And>t i d x d'. f t i d = Inr (x, d') \<Longrightarrow> R d d') \<Longrightarrow> evolves R (db_serial f)"
  unfolding evolves_def db_serial_def by (intro allI, rule db_step_db) (simp_all add: R_refl)

lemma assign: "(\<And>t d. R d (f t d)) \<Longrightarrow> evolves R (db_write f)"
  unfolding db_write_def by (rule exec) auto

lemmas rules = ret reads bind seq wrap if_case option_case sum_case prod_case let_case tx_body

text \<open>Queries only read.\<close>

lemma page_read: "evolves R (list_page f lim off)"
  unfolding list_page_def by (intro rules exec) (simp_all add: R_refl split: if_splits)

lemma store_reads:
  shows "evolves R (list_products)"
    "evolves R (get_product_by_code x1)"
    "evolves R (get_product x2)"
    "evolves R (list_plans x3)"
    "evolves R (get_plan x4)"
    "evolves R (count_plan_references x5)"
    "evolves R (count_plan_licenses x6)"
    "evolves R (count_plan_live_cards x7)"
    "evolves R (get_plan_by_product_duration x8 x9)"
    "evolves R (get_plan_by_code x10)"
    "evolves R (agent_has_product x11 x12)"
    "evolves R (list_agent_products x13)"
    "evolves R (list_agents)"
    "evolves R (get_agent x14)"
    "evolves R (list_agent_transactions x15 x16)"
    "evolves R (get_card_by_id x17)"
    "evolves R (get_card_by_lookup x18)"
    "evolves R (list_cards x19 x20 x21)"
    "evolves R (get_license x22)"
    "evolves R (list_licenses x23 x24 x25)"
    "evolves R (get_device_by_fingerprint x26 x27)"
    "evolves R (get_device_by_pub x28)"
    "evolves R (get_device x29)"
    "evolves R (count_active_devices x30)"
    "evolves R (list_devices x31 x32)"
    "evolves R (list_license_events x33 x34)"
    "evolves R (get_end_user x35)"
    "evolves R (get_end_user_by_name x36 x37)"
    "evolves R (list_end_users x38 x39 x40)"
    "evolves R (list_end_user_logs x41 x42)"
    "evolves R (list_recent_user_logs x43)"
    "evolves R (list_soft_messages x44)"
    "evolves R (latest_enabled_message x45)"
    "evolves R (list_product_versions x46)"
    "evolves R (latest_product_version x47)"
    "evolves R (list_api_rate_limits)"
    "evolves R (all_api_rate_limits)"
    "evolves R (daily_activation_trend)"
    "evolves R (get_admin_by_username x48)"
    "evolves R (get_admin x49)"
    "evolves R (count_admins)"
    "evolves R (list_admins)"
    "evolves R (get_agent_admin x50)"
    "evolves R (get_session_by_token_hash x51)"
    "evolves R (list_audit x52 x53 x54)"
    "evolves R (list_risk_events x55 x56)"
    "evolves R (list_bans)"
    "evolves R (is_banned x57 x58)"
    "evolves R (count_cards_by_status)"
    "evolves R (count_licenses_by_status x59)"
    "evolves R (count_recent_heartbeats x60)"
    "evolves R (count_misc)"
    "evolves R (list_batches x61 x62 x63)"
    "evolves R (active_kex_keys)"
  unfolding list_products_def get_product_by_code_def get_product_def list_plans_def get_plan_def
    count_plan_references_def count_plan_licenses_def count_plan_live_cards_def get_plan_by_product_duration_def
    get_plan_by_code_def agent_has_product_def list_agent_products_def list_agents_def get_agent_def
    list_agent_transactions_def get_card_by_id_def get_card_by_lookup_def list_cards_def get_license_def
    list_licenses_def get_device_by_fingerprint_def get_device_by_pub_def get_device_def count_active_devices_def
    list_devices_def list_license_events_def get_end_user_def get_end_user_by_name_def list_end_users_def
    list_end_user_logs_def list_recent_user_logs_def list_soft_messages_def latest_enabled_message_def
    list_product_versions_def latest_product_version_def list_api_rate_limits_def all_api_rate_limits_def
    daily_activation_trend_def get_admin_by_username_def get_admin_def count_admins_def list_admins_def
    get_agent_admin_def get_session_by_token_hash_def list_audit_def list_risk_events_def list_bans_def
    is_banned_def count_cards_by_status_def count_licenses_by_status_def count_recent_heartbeats_def
    count_misc_def list_batches_def active_kex_keys_def
  by (intro rules page_read)+

lemmas store_rules = rules store_reads

end

text \<open>Equality of an observation, and the preservation of an invariant, are such preorders.\<close>

interpretation same: db_preorder "\<lambda>d d'. f d' = f d" for f :: "db \<Rightarrow> 'o"
  by unfold_locales auto

interpretation inv: db_preorder "\<lambda>d d'. I d \<longrightarrow> I d'" for I
  by unfold_locales auto

subsection \<open>Which table a statement writes\<close>

abbreviation leaves :: "(db \<Rightarrow> 'o) \<Rightarrow> 'a srv \<Rightarrow> bool" where
  "leaves f m \<equiv> evolves (\<lambda>d d'. f d' = f d) m"

text \<open>An observation that does not read a table survives every statement that writes only it.\<close>

lemma leaves_products:
  assumes "\<And>d x. f (d\<lparr>d_products := x\<rparr>) = f d"
  shows "leaves f (create_product c n)"
    "leaves f (set_product_status k s)"
  unfolding create_product_def set_product_status_def
  by ((intro same.rules same.exec same.new_row same.serial same.assign;
    auto simp: assms need_rows_def Let_def split: if_splits option.splits)+)

lemma leaves_plans:
  assumes "\<And>d x. f (d\<lparr>d_plans := x\<rparr>) = f d"
  shows "leaves f (create_plan p)"
    "leaves f (set_plan_status k s)"
    "leaves f (update_plan p)"
    "leaves f (delete_plan k)"
  unfolding create_plan_def set_plan_status_def update_plan_def delete_plan_def
  by ((intro same.rules same.exec same.new_row same.serial same.assign;
    auto simp: assms need_rows_def Let_def split: if_splits option.splits)+)

lemma leaves_batches:
  assumes "\<And>d x. f (d\<lparr>d_batches := x\<rparr>) = f d"
  shows "leaves f (insert_batch b)"
    "leaves f (delete_batches_by_plan k)"
  unfolding insert_batch_def delete_batches_by_plan_def
  by ((intro same.rules same.exec same.new_row same.serial same.assign;
    auto simp: assms need_rows_def Let_def split: if_splits option.splits)+)

lemma leaves_grants:
  assumes "\<And>d x. f (d\<lparr>d_grants := x\<rparr>) = f d"
  shows "leaves f (grant_agent_product a p)"
    "leaves f (revoke_agent_product a p)"
  unfolding grant_agent_product_def revoke_agent_product_def
  by ((intro same.rules same.exec same.new_row same.serial same.assign;
    auto simp: assms need_rows_def Let_def split: if_splits option.splits)+)

lemma leaves_agents:
  assumes "\<And>d x. f (d\<lparr>d_agents := x\<rparr>) = f d"
  shows "leaves f (create_agent n o1)"
    "leaves f (set_agent_status k s)"
    "leaves f (deduct_agent_balance k i)"
    "leaves f (top_up_agent_balance k i)"
  unfolding create_agent_def set_agent_status_def deduct_agent_balance_def top_up_agent_balance_def add_balance_def
  by ((intro same.rules same.exec same.new_row same.serial same.assign;
    auto simp: assms need_rows_def Let_def split: if_splits option.splits)+)

lemma leaves_agent_txs:
  assumes "\<And>d x. f (d\<lparr>d_agent_txs := x\<rparr>) = f d"
  shows "leaves f (insert_agent_transaction a i j k o1 o2 o3)"
  unfolding insert_agent_transaction_def
  by ((intro same.rules same.exec same.new_row same.serial same.assign;
    auto simp: assms need_rows_def Let_def split: if_splits option.splits)+)

lemma leaves_cards:
  assumes "\<And>d x. f (d\<lparr>d_cards := x\<rparr>) = f d"
  shows "leaves f (insert_card b s)"
    "leaves f (update_cards p g)"
    "leaves f (set_card_status k st)"
    "leaves f (transition_card_status k st st2)"
    "leaves f (transition_card_to_terminal k st)"
    "leaves f (set_card_activated k l i)"
    "leaves f (set_card_note k n)"
    "leaves f (mark_card_used_by_user k n)"
    "leaves f (void_and_delete_unused_cards k)"
  unfolding insert_card_def update_cards_def set_card_status_def transition_card_status_def transition_card_to_terminal_def set_card_activated_def set_card_note_def mark_card_used_by_user_def void_and_delete_unused_cards_def
  by ((intro same.rules same.exec same.new_row same.serial same.assign;
    auto simp: assms need_rows_def Let_def split: if_splits option.splits)+)

lemma leaves_licenses:
  assumes "\<And>d x. f (d\<lparr>d_licenses := x\<rparr>) = f d"
  shows "leaves f (create_license l)"
    "leaves f (update_licenses q h)"
    "leaves f (transition_license k ls ls2)"
    "leaves f (transition_license_terminal k ls)"
    "leaves f (consume_license_use k)"
    "leaves f (extend_license k i)"
    "leaves f (set_license_note k n)"
    "leaves f (touch_licenses_policy k)"
  unfolding create_license_def update_licenses_def transition_license_def transition_license_terminal_def consume_license_use_def extend_license_def set_license_note_def touch_licenses_policy_def
  by ((intro same.rules same.exec same.new_row same.serial same.assign;
    auto simp: assms need_rows_def Let_def split: if_splits option.splits)+)

lemma leaves_devices:
  assumes "\<And>d x. f (d\<lparr>d_devices := x\<rparr>) = f d"
  shows "leaves f (create_device v)"
    "leaves f (store_unbind_device k n)"
    "leaves f (bump_device_heartbeat k i n s)"
    "leaves f (accept_seq_stmt k i)"
    "leaves f (rotate_device_pub k n s u)"
  unfolding create_device_def store_unbind_device_def bump_device_heartbeat_def accept_seq_stmt_def rotate_device_pub_def
  by ((intro same.rules same.exec same.new_row same.serial same.assign;
    auto simp: assms need_rows_def Let_def split: if_splits option.splits)+)

lemma leaves_renewals:
  assumes "\<And>d x. f (d\<lparr>d_renewals := x\<rparr>) = f d"
  shows "leaves f (insert_renewal k n i o1 o2)"
  unfolding insert_renewal_def
  by ((intro same.rules same.exec same.new_row same.serial same.assign;
    auto simp: assms need_rows_def Let_def split: if_splits option.splits)+)

lemma leaves_activations:
  assumes "\<And>d x. f (d\<lparr>d_activations := x\<rparr>) = f d"
  shows "leaves f (insert_activation k n s u v)"
  unfolding insert_activation_def
  by ((intro same.rules same.exec same.new_row same.serial same.assign;
    auto simp: assms need_rows_def Let_def split: if_splits option.splits)+)

lemma leaves_events:
  assumes "\<And>d x. f (d\<lparr>d_events := x\<rparr>) = f d"
  shows "leaves f (insert_license_event k n s u det)"
    "leaves f (mark_expired_license_events)"
  unfolding insert_license_event_def mark_expired_license_events_def
  by ((intro same.rules same.exec same.new_row same.serial same.assign;
    auto simp: assms need_rows_def Let_def split: if_splits option.splits)+)

lemma leaves_users:
  assumes "\<And>d x. f (d\<lparr>d_users := x\<rparr>) = f d"
  shows "leaves f (create_end_user u)"
    "leaves f (extend_end_user k i)"
    "leaves f (bind_end_user_machine k n)"
    "leaves f (reset_end_user_machine k)"
    "leaves f (set_end_user_password k n)"
    "leaves f (set_end_user_status k n)"
    "leaves f (set_end_user_note k n)"
    "leaves f (touch_end_user_login k n)"
  unfolding create_end_user_def extend_end_user_def bind_end_user_machine_def reset_end_user_machine_def set_end_user_password_def set_end_user_status_def set_end_user_note_def touch_end_user_login_def upd_user_def
  by ((intro same.rules same.exec same.new_row same.serial same.assign;
    auto simp: assms need_rows_def Let_def split: if_splits option.splits)+)

lemma leaves_user_logs:
  assumes "\<And>d x. f (d\<lparr>d_user_logs := x\<rparr>) = f d"
  shows "leaves f (insert_end_user_log o1 n s o2 o3 det)"
  unfolding insert_end_user_log_def
  by ((intro same.rules same.exec same.new_row same.serial same.assign;
    auto simp: assms need_rows_def Let_def split: if_splits option.splits)+)

lemma leaves_messages:
  assumes "\<And>d x. f (d\<lparr>d_messages := x\<rparr>) = f d"
  shows "leaves f (create_soft_message k n s)"
    "leaves f (set_soft_message_enabled i b)"
    "leaves f (delete_soft_message i)"
  unfolding create_soft_message_def set_soft_message_enabled_def delete_soft_message_def
  by ((intro same.rules same.exec same.new_row same.serial same.assign;
    auto simp: assms need_rows_def Let_def split: if_splits option.splits)+)

lemma leaves_versions:
  assumes "\<And>d x. f (d\<lparr>d_versions := x\<rparr>) = f d"
  shows "leaves f (create_product_version k n s u b)"
    "leaves f (delete_product_version i)"
  unfolding create_product_version_def delete_product_version_def
  by ((intro same.rules same.exec same.new_row same.serial same.assign;
    auto simp: assms need_rows_def Let_def split: if_splits option.splits)+)

lemma leaves_limits:
  assumes "\<And>d x. f (d\<lparr>d_limits := x\<rparr>) = f d"
  shows "leaves f (upsert_api_rate_limit k i)"
  unfolding upsert_api_rate_limit_def
  by ((intro same.rules same.exec same.new_row same.serial same.assign;
    auto simp: assms need_rows_def Let_def split: if_splits option.splits)+)

lemma leaves_admins:
  assumes "\<And>d x. f (d\<lparr>d_admins := x\<rparr>) = f d"
  shows "leaves f (store_create_admin a)"
    "leaves f (on_login_success k)"
    "leaves f (on_login_failed k)"
    "leaves f (set_admin_mfa k o1 b)"
    "leaves f (set_admin_password k n b)"
    "leaves f (set_admin_status k n)"
    "leaves f (update_admin_username k n)"
    "leaves f (reset_admin_password k n)"
  unfolding store_create_admin_def on_login_success_def on_login_failed_def set_admin_mfa_def set_admin_password_def set_admin_status_def update_admin_username_def reset_admin_password_def upd_admin_def
  by ((intro same.rules same.exec same.new_row same.serial same.assign;
    auto simp: assms need_rows_def Let_def split: if_splits option.splits)+)

lemma leaves_sessions:
  assumes "\<And>d x. f (d\<lparr>d_sessions := x\<rparr>) = f d"
  shows "leaves f (create_session s)"
    "leaves f (revoke_session k)"
    "leaves f (revoke_all_sessions k)"
    "leaves f (reap_sessions)"
  unfolding create_session_def revoke_session_def revoke_all_sessions_def reap_sessions_def
  by ((intro same.rules same.exec same.new_row same.serial same.assign;
    auto simp: assms need_rows_def Let_def split: if_splits option.splits)+)

lemma leaves_audits:
  assumes "\<And>d x. f (d\<lparr>d_audits := x\<rparr>) = f d"
  shows "leaves f (insert_audit a)"
  unfolding insert_audit_def
  by ((intro same.rules same.exec same.new_row same.serial same.assign;
    auto simp: assms need_rows_def Let_def split: if_splits option.splits)+)

lemma leaves_risks:
  assumes "\<And>d x. f (d\<lparr>d_risks := x\<rparr>) = f d"
  shows "leaves f (insert_risk_event k n s u det)"
  unfolding insert_risk_event_def
  by ((intro same.rules same.exec same.new_row same.serial same.assign;
    auto simp: assms need_rows_def Let_def split: if_splits option.splits)+)

lemma leaves_bans:
  assumes "\<And>d x. f (d\<lparr>d_bans := x\<rparr>) = f d"
  shows "leaves f (store_create_ban k n s u o1)"
    "leaves f (store_delete_ban k n)"
  unfolding store_create_ban_def store_delete_ban_def
  by ((intro same.rules same.exec same.new_row same.serial same.assign;
    auto simp: assms need_rows_def Let_def split: if_splits option.splits)+)

lemma leaves_kex:
  assumes "\<And>d x. f (d\<lparr>d_kex := x\<rparr>) = f d"
  shows "leaves f (upsert_kex_key k n s b)"
  unfolding upsert_kex_key_def
  by ((intro same.rules same.exec same.new_row same.serial same.assign;
    auto simp: assms need_rows_def Let_def split: if_splits option.splits)+)

end
