(* ===== verification/Sales.thy ===== *)
theory Sales
  imports AdminOps UserSvc Frames
begin

section \<open>The life of cards, licences and renewals\<close>

text \<open>
  The invariant that ties the three tables together (\<open>sales_ok\<close>), and what may happen to a row
  over time (\<open>sales_next\<close>): a spent card keeps its owner, terminal states are final, a licence
  is never deleted, never changes its card, and is never given back time it lost. Both are
  proved of every operation of the services through the preorder \<open>sales_safe\<close>.
\<close>

definition sales :: "db \<Rightarrow> card list \<times> license list \<times> renewal list" where
  "sales d = (d_cards d, d_licenses d, d_renewals d)"

subsection \<open>The invariant\<close>

text \<open>
  One card: unused cards have no trace of use; a card that can still be switched between unused,
  active and frozen belongs to no account and has an activation time exactly when it has a
  licence; only licence cards are spent on a licence or on an account.
\<close>

definition card_ok :: "card \<Rightarrow> bool" where
  "card_ok c \<longleftrightarrow>
     (cd_status c = CardUnused \<longrightarrow> cd_activated c = None) \<and>
     (\<not> card_terminal (cd_status c) \<longrightarrow> cd_user c = None \<and> (cd_activated c = None \<longleftrightarrow> cd_license c = None)) \<and>
     (cd_status c = CardActive \<longrightarrow> cd_license c \<noteq> None) \<and>
     (cd_user c \<noteq> None \<longrightarrow> cd_license c = None \<and> cd_status c = CardDepleted) \<and>
     (cd_license c \<noteq> None \<or> cd_user c \<noteq> None \<longrightarrow> cd_kind c = ''license'' \<and> cd_activated c \<noteq> None)"

definition cards_wf :: "card list \<Rightarrow> bool" where
  "cards_wf cs \<longleftrightarrow> distinct (map cd_id cs) \<and> distinct (map cd_lookup cs) \<and> list_all card_ok cs"

text \<open>Card and licence name each other and agree on what was sold.\<close>

definition issued :: "card \<Rightarrow> license \<Rightarrow> bool" where
  "issued c l \<longleftrightarrow> cd_license c = Some (li_id l) \<and> li_card l = cd_id c \<and>
     li_product l = cd_product c \<and> li_plan l = cd_plan c \<and> li_agent l = cd_agent c"

definition linked :: "card list \<Rightarrow> license list \<Rightarrow> bool" where
  "linked cs ls \<longleftrightarrow> distinct (map li_id ls) \<and> list_all (\<lambda>l. list_ex (\<lambda>c. issued c l) cs) ls \<and>
     list_all (\<lambda>c. cd_license c = None \<or> list_ex (issued c) ls) cs"

definition used_up_by :: "renewal \<Rightarrow> card \<Rightarrow> bool" where
  "used_up_by r c \<longleftrightarrow> cd_id c = rn_card r \<and> cd_kind c = ''renewal'' \<and> cd_status c = CardDepleted"

definition redeemed :: "card list \<Rightarrow> renewal list \<Rightarrow> bool" where
  "redeemed cs rs \<longleftrightarrow> distinct (map rn_card rs) \<and> list_all (\<lambda>r. list_ex (used_up_by r) cs) rs"

definition sales_ok :: "db \<Rightarrow> bool" where
  "sales_ok d \<longleftrightarrow> cards_wf (d_cards d) \<and> linked (d_cards d) (d_licenses d) \<and> redeemed (d_cards d) (d_renewals d)"

lemma sales_ok_empty: "sales_ok empty_db"
  by (simp add: sales_ok_def empty_db_def cards_wf_def linked_def redeemed_def)

subsection \<open>How rows may change\<close>

definition spent :: "card \<Rightarrow> bool" where
  "spent c \<longleftrightarrow> cd_activated c \<noteq> None \<or> card_terminal (cd_status c)"

definition card_next :: "card \<Rightarrow> card \<Rightarrow> bool" where
  "card_next c c' \<longleftrightarrow> cd_id c' = cd_id c \<and> cd_lookup c' = cd_lookup c \<and> cd_product c' = cd_product c \<and>
     cd_plan c' = cd_plan c \<and> cd_agent c' = cd_agent c \<and> cd_kind c' = cd_kind c \<and>
     (cd_license c \<noteq> None \<longrightarrow> cd_license c' = cd_license c) \<and> (cd_user c \<noteq> None \<longrightarrow> cd_user c' = cd_user c) \<and>
     (cd_activated c \<noteq> None \<longrightarrow> cd_activated c' = cd_activated c) \<and>
     (card_terminal (cd_status c) \<longrightarrow> cd_status c' = cd_status c)"

definition license_final :: "license_status \<Rightarrow> bool" where
  "license_final s \<longleftrightarrow> s = LicenseRevoked \<or> s = LicenseVoided"

definition expiry_le :: "time option \<Rightarrow> time option \<Rightarrow> bool" where
  "expiry_le e e' \<longleftrightarrow> (case e of None \<Rightarrow> True | Some x \<Rightarrow> (case e' of None \<Rightarrow> False | Some y \<Rightarrow> x \<le> y))"

definition license_next :: "license \<Rightarrow> license \<Rightarrow> bool" where
  "license_next l l' \<longleftrightarrow> li_id l' = li_id l \<and> li_card l' = li_card l \<and> li_product l' = li_product l \<and>
     li_plan l' = li_plan l \<and> li_agent l' = li_agent l \<and> li_activated l' = li_activated l \<and>
     (license_final (li_status l) \<longrightarrow> li_status l' = li_status l) \<and> li_policy l \<le> li_policy l' \<and>
     expiry_le (li_expires l) (li_expires l')"

definition sales_next :: "db \<Rightarrow> db \<Rightarrow> bool" where
  "sales_next d d' \<longleftrightarrow> list_all (\<lambda>c. spent c \<longrightarrow> list_ex (card_next c) (d_cards d')) (d_cards d) \<and>
     list_all (\<lambda>l. list_ex (license_next l) (d_licenses d')) (d_licenses d) \<and>
     (\<exists>rs. d_renewals d' = d_renewals d @ rs)"

definition sales_safe :: "db \<Rightarrow> db \<Rightarrow> bool" where
  "sales_safe d d' \<longleftrightarrow> (sales_ok d \<longrightarrow> sales_ok d' \<and> sales_next d d')"

lemma card_next_refl: "card_next c c"
  by (simp add: card_next_def)

lemma card_next_trans: "card_next a b \<Longrightarrow> card_next b c \<Longrightarrow> card_next a c"
  unfolding card_next_def by simp

lemma card_next_spent: "card_next c c' \<Longrightarrow> spent c \<Longrightarrow> spent c'"
  by (auto simp: card_next_def spent_def)

lemma expiry_le_refl: "expiry_le e e"
  by (simp add: expiry_le_def split: option.splits)

lemma expiry_le_trans: "expiry_le a b \<Longrightarrow> expiry_le b c \<Longrightarrow> expiry_le a c"
  by (auto simp: expiry_le_def split: option.splits)

lemma license_next_refl: "license_next l l"
  by (simp add: license_next_def expiry_le_refl)

lemma license_next_trans: "license_next a b \<Longrightarrow> license_next b c \<Longrightarrow> license_next a c"
  unfolding license_next_def by (auto intro: expiry_le_trans)

lemma sales_next_refl: "sales_next d d"
  by (auto simp: sales_next_def list_all_iff list_ex_iff intro: card_next_refl license_next_refl)

lemma sales_next_trans:
  assumes ab: "sales_next a b" and bc: "sales_next b c"
  shows "sales_next a c"
  unfolding sales_next_def
proof (intro conjI)
  show "list_all (\<lambda>x. spent x \<longrightarrow> list_ex (card_next x) (d_cards c)) (d_cards a)"
    using ab bc unfolding sales_next_def list_all_iff list_ex_iff
    by (meson card_next_spent card_next_trans)
  show "list_all (\<lambda>l. list_ex (license_next l) (d_licenses c)) (d_licenses a)"
    using ab bc unfolding sales_next_def list_all_iff list_ex_iff by (meson license_next_trans)
  show "\<exists>rs. d_renewals c = d_renewals a @ rs"
    using ab bc unfolding sales_next_def by auto
qed

interpretation sl: db_preorder sales_safe
  by unfold_locales (auto simp: sales_safe_def intro: sales_next_refl sales_next_trans)

text \<open>Operations that leave the three tables alone.\<close>

lemma sales_safe_leaves: "leaves sales m \<Longrightarrow> evolves sales_safe m"
  unfolding evolves_def sales_safe_def sales_ok_def sales_next_def sales_def
  by (auto simp: list_all_iff list_ex_iff intro: card_next_refl license_next_refl)

lemma sales_ignores:
  "sales (d\<lparr>d_products := x1\<rparr>) = sales d" "sales (d\<lparr>d_plans := x2\<rparr>) = sales d"
  "sales (d\<lparr>d_batches := x3\<rparr>) = sales d" "sales (d\<lparr>d_grants := x4\<rparr>) = sales d"
  "sales (d\<lparr>d_agents := x5\<rparr>) = sales d" "sales (d\<lparr>d_agent_txs := x6\<rparr>) = sales d"
  "sales (d\<lparr>d_devices := x7\<rparr>) = sales d" "sales (d\<lparr>d_activations := x8\<rparr>) = sales d"
  "sales (d\<lparr>d_events := x9\<rparr>) = sales d" "sales (d\<lparr>d_users := x10\<rparr>) = sales d"
  "sales (d\<lparr>d_user_logs := x11\<rparr>) = sales d" "sales (d\<lparr>d_messages := x12\<rparr>) = sales d"
  "sales (d\<lparr>d_versions := x13\<rparr>) = sales d" "sales (d\<lparr>d_limits := x14\<rparr>) = sales d"
  "sales (d\<lparr>d_admins := x15\<rparr>) = sales d" "sales (d\<lparr>d_sessions := x16\<rparr>) = sales d"
  "sales (d\<lparr>d_audits := x17\<rparr>) = sales d" "sales (d\<lparr>d_risks := x18\<rparr>) = sales d"
  "sales (d\<lparr>d_bans := x19\<rparr>) = sales d"
  by (simp_all add: sales_def)

lemmas sales_leaves = leaves_products [where f = sales, OF sales_ignores(1)]
  leaves_plans [where f = sales, OF sales_ignores(2)] leaves_batches [where f = sales, OF sales_ignores(3)]
  leaves_grants [where f = sales, OF sales_ignores(4)] leaves_agents [where f = sales, OF sales_ignores(5)]
  leaves_agent_txs [where f = sales, OF sales_ignores(6)] leaves_devices [where f = sales, OF sales_ignores(7)]
  leaves_activations [where f = sales, OF sales_ignores(8)] leaves_events [where f = sales, OF sales_ignores(9)]
  leaves_users [where f = sales, OF sales_ignores(10)] leaves_user_logs [where f = sales, OF sales_ignores(11)]
  leaves_messages [where f = sales, OF sales_ignores(12)] leaves_versions [where f = sales, OF sales_ignores(13)]
  leaves_limits [where f = sales, OF sales_ignores(14)] leaves_admins [where f = sales, OF sales_ignores(15)]
  leaves_sessions [where f = sales, OF sales_ignores(16)] leaves_audits [where f = sales, OF sales_ignores(17)]
  leaves_risks [where f = sales, OF sales_ignores(18)] leaves_bans [where f = sales, OF sales_ignores(19)]

lemmas sales_frames = sales_leaves [THEN sales_safe_leaves]

lemma sales_event: "evolves sales_safe (insert_license_event k n s u det)"
  by (rule sales_frames)

subsection \<open>Statements on cards and licences\<close>

text \<open>An update that keeps a card's identity and its licence.\<close>

definition card_same :: "card \<Rightarrow> card \<Rightarrow> bool" where
  "card_same c c' \<longleftrightarrow> card_ok c' \<and> card_next c c' \<and> cd_license c' = cd_license c"

lemma issued_same: "card_same c c' \<Longrightarrow> issued c' l = issued c l"
  by (simp add: card_same_def card_next_def issued_def)

lemma used_up_same: "card_same c c' \<Longrightarrow> used_up_by r c \<Longrightarrow> used_up_by r c'"
  by (auto simp: card_same_def card_next_def used_up_by_def card_terminal_def)

lemma in_upd: "c \<in> set t \<Longrightarrow> (if p c then f c else c) \<in> set (upd p f t)"
  by (auto simp: upd_def)

lemma list_ex_upd:
  assumes "list_ex P t" "\<And>r. r \<in> set t \<Longrightarrow> P r \<Longrightarrow> Q (if p r then f r else r)"
  shows "list_ex Q (upd p f t)"
proof -
  from assms(1) obtain r where "r \<in> set t" "P r" by (auto simp: list_ex_iff)
  then show ?thesis using in_upd [of r t p f] assms(2) unfolding list_ex_iff by blast
qed

lemma list_all_upd:
  assumes "list_all P t" "\<And>r. r \<in> set t \<Longrightarrow> P r \<Longrightarrow> Q (if p r then f r else r)"
  shows "list_all Q (upd p f t)"
  unfolding list_all_iff
proof
  fix x assume "x \<in> set (upd p f t)"
  then obtain r where "r \<in> set t" "x = (if p r then f r else r)" by (auto simp: upd_def)
  with assms show "Q x" by (simp add: list_all_iff del: if_split)
qed

lemma cards_wf_upd:
  assumes "cards_wf cs" "\<And>c. c \<in> set cs \<Longrightarrow> card_ok c \<Longrightarrow> p c \<Longrightarrow> card_ok (f c) \<and> card_next c (f c)"
  shows "cards_wf (upd p f cs)"
proof -
  from assms have keys: "\<And>c. c \<in> set cs \<Longrightarrow> p c \<Longrightarrow> cd_id (f c) = cd_id c \<and> cd_lookup (f c) = cd_lookup c"
    by (auto simp: card_next_def cards_wf_def list_all_iff)
  then have "map cd_id (upd p f cs) = map cd_id cs" "map cd_lookup (upd p f cs) = map cd_lookup cs"
    by (simp_all add: upd_def)
  with assms show ?thesis by (auto simp: cards_wf_def list_all_iff set_upd)
qed

lemma sales_upd_cards:
  assumes "\<And>c. c \<in> set (d_cards d) \<Longrightarrow> card_ok c \<Longrightarrow> p c \<Longrightarrow> card_same c (f c)"
  shows "sales_safe d (d\<lparr>d_cards := upd p f (d_cards d)\<rparr>)"
  unfolding sales_safe_def
proof
  assume ok: "sales_ok d"
  let ?step = "\<lambda>c. if p c then f c else c"
  have same: "card_same c (?step c)" if "c \<in> set (d_cards d)" for c
    using assms that ok by (auto simp: sales_ok_def cards_wf_def list_all_iff card_same_def card_next_refl)
  have wf: "cards_wf (upd p f (d_cards d))"
    using ok assms by (auto simp: sales_ok_def card_same_def intro!: cards_wf_upd)
  have "list_all (\<lambda>l. list_ex (\<lambda>c. issued c l) (upd p f (d_cards d))) (d_licenses d)"
    using ok issued_same [OF same] unfolding sales_ok_def linked_def list_all_iff
    by (auto elim!: list_ex_upd)
  moreover have "list_all (\<lambda>c. cd_license c = None \<or> list_ex (issued c) (d_licenses d)) (upd p f (d_cards d))"
  proof (rule list_all_upd)
    show "list_all (\<lambda>c. cd_license c = None \<or> list_ex (issued c) (d_licenses d)) (d_cards d)"
      using ok by (simp add: sales_ok_def linked_def)
  next
    fix c assume c: "c \<in> set (d_cards d)" and "cd_license c = None \<or> list_ex (issued c) (d_licenses d)"
    then show "cd_license (?step c) = None \<or> list_ex (issued (?step c)) (d_licenses d)"
      using same [OF c] issued_same [OF same [OF c]] by (simp add: card_same_def list_ex_iff split: if_splits)
  qed
  moreover have "redeemed (upd p f (d_cards d)) (d_renewals d)"
    using ok used_up_same [OF same] unfolding sales_ok_def redeemed_def list_all_iff
    by (auto elim!: list_ex_upd)
  moreover have "list_ex (card_next c) (upd p f (d_cards d))" if "c \<in> set (d_cards d)" for c
    using in_upd [OF that] same [OF that] unfolding list_ex_iff card_same_def by blast
  ultimately show "sales_ok (d\<lparr>d_cards := upd p f (d_cards d)\<rparr>) \<and> sales_next d (d\<lparr>d_cards := upd p f (d_cards d)\<rparr>)"
    using ok wf by (auto simp: sales_ok_def linked_def sales_next_def list_all_iff list_ex_iff intro: license_next_refl)
qed

lemma issued_next: "license_next l l' \<Longrightarrow> issued c l' = issued c l"
  by (auto simp: license_next_def issued_def)

lemma sales_upd_licenses:
  assumes "\<And>l. l \<in> set (d_licenses d) \<Longrightarrow> q l \<Longrightarrow> license_next l (h l)"
  shows "sales_safe d (d\<lparr>d_licenses := upd q h (d_licenses d)\<rparr>)"
  unfolding sales_safe_def
proof
  assume ok: "sales_ok d"
  let ?step = "\<lambda>l. if q l then h l else l"
  have nxt: "license_next l (?step l)" if "l \<in> set (d_licenses d)" for l
    using assms that by (auto simp: license_next_refl)
  then have ids: "map li_id (upd q h (d_licenses d)) = map li_id (d_licenses d)"
    by (auto simp: upd_def license_next_def)
  have "list_all (\<lambda>l. list_ex (\<lambda>c. issued c l) (d_cards d)) (upd q h (d_licenses d))"
  proof (rule list_all_upd)
    show "list_all (\<lambda>l. list_ex (\<lambda>c. issued c l) (d_cards d)) (d_licenses d)"
      using ok by (simp add: sales_ok_def linked_def)
  next
    fix l assume l: "l \<in> set (d_licenses d)" and ex: "list_ex (\<lambda>c. issued c l) (d_cards d)"
    show "list_ex (\<lambda>c. issued c (?step l)) (d_cards d)"
      using ex unfolding issued_next [OF nxt [OF l]] .
  qed
  moreover have "list_all (\<lambda>c. cd_license c = None \<or> list_ex (issued c) (upd q h (d_licenses d))) (d_cards d)"
    unfolding list_all_iff
  proof
    fix c assume "c \<in> set (d_cards d)"
    then have "cd_license c = None \<or> list_ex (issued c) (d_licenses d)"
      using ok by (simp add: sales_ok_def linked_def list_all_iff)
    then show "cd_license c = None \<or> list_ex (issued c) (upd q h (d_licenses d))"
      using list_ex_upd [of "issued c" "d_licenses d" "issued c" q h] issued_next [OF nxt] by blast
  qed
  moreover have "list_ex (license_next l) (upd q h (d_licenses d))" if "l \<in> set (d_licenses d)" for l
    using in_upd [OF that] nxt [OF that] unfolding list_ex_iff by blast
  ultimately show "sales_ok (d\<lparr>d_licenses := upd q h (d_licenses d)\<rparr>) \<and>
      sales_next d (d\<lparr>d_licenses := upd q h (d_licenses d)\<rparr>)"
    using ok ids by (auto simp: sales_ok_def linked_def sales_next_def list_all_iff list_ex_iff intro: card_next_refl)
qed

text \<open>A new card, and the removal of unused ones.\<close>

lemma sales_new_card:
  assumes "card_ok c" "cd_license c = None" "cd_id c \<notin> cd_id ` set (d_cards d)"
    "cd_lookup c \<notin> cd_lookup ` set (d_cards d)"
  shows "sales_safe d (d\<lparr>d_cards := d_cards d @ [c]\<rparr>)"
  using assms unfolding sales_safe_def sales_ok_def cards_wf_def linked_def redeemed_def sales_next_def
  by (auto simp: list_all_iff list_ex_iff intro: card_next_refl license_next_refl)

lemma unused_not_issued: "card_ok c \<Longrightarrow> cd_status c = CardUnused \<Longrightarrow> \<not> issued c l \<and> \<not> used_up_by r c \<and> \<not> spent c"
  by (auto simp: card_ok_def issued_def used_up_by_def spent_def card_terminal_def)

lemma list_ex_filter: "list_ex P t \<Longrightarrow> (\<And>r. r \<in> set t \<Longrightarrow> P r \<Longrightarrow> q r) \<Longrightarrow> list_ex P (filter q t)"
  by (auto simp: list_ex_iff)

lemma distinct_map_filter': "distinct (map k t) \<Longrightarrow> distinct (map k (filter q t))"
  by (simp add: distinct_map_filter)

lemma sales_delete_unused:
  assumes "\<And>c. p c \<Longrightarrow> cd_status c = CardUnused"
  shows "sales_safe d (d\<lparr>d_cards := filter (\<lambda>c. \<not> p c) (d_cards d)\<rparr>)"
  unfolding sales_safe_def
proof
  assume ok: "sales_ok d"
  let ?cs = "filter (\<lambda>c. \<not> p c) (d_cards d)"
  have stays: "\<not> p c" if "c \<in> set (d_cards d)" "issued c l \<or> used_up_by r c \<or> spent c" for c l r
    using unused_not_issued [of c l r] assms [of c] that ok
    by (auto simp: sales_ok_def cards_wf_def list_all_iff)
  have "linked ?cs (d_licenses d)"
    using ok stays unfolding sales_ok_def linked_def list_all_iff by (auto intro!: list_ex_filter)
  moreover have "redeemed ?cs (d_renewals d)"
    using ok stays unfolding sales_ok_def redeemed_def list_all_iff by (auto intro!: list_ex_filter)
  moreover have "cards_wf ?cs"
    using ok by (auto simp: sales_ok_def cards_wf_def distinct_map_filter' list_all_iff)
  moreover have "sales_next d (d\<lparr>d_cards := ?cs\<rparr>)"
    using stays by (auto simp: sales_next_def list_all_iff list_ex_iff intro: card_next_refl license_next_refl)
  ultimately show "sales_ok (d\<lparr>d_cards := ?cs\<rparr>) \<and> sales_next d (d\<lparr>d_cards := ?cs\<rparr>)"
    by (simp add: sales_ok_def)
qed

subsection \<open>The statements that are safe wherever they run\<close>

lemma card_ok_row: "card_ok (card_row b s t i)"
  by (simp add: card_ok_def card_row_def card_terminal_def)

lemma sales_insert_card: "evolves sales_safe (insert_card b s)"
  unfolding insert_card_def
  by (rule sl.new_row)
    (auto simp: exists_row_iff image_iff card_row_def split: if_splits intro!: sales_new_card
      card_ok_row [unfolded card_row_def])

lemma sales_insert_cards: "evolves sales_safe (insert_cards b ss)"
  by (induction ss) (auto intro!: sl.bind sl.ret sales_insert_card)

lemma sales_create_batch: "evolves sales_safe (create_batch b ss)"
  unfolding create_batch_def by (intro sl.bind sl.ret sales_frames sales_insert_cards)

lemma sales_update_cards:
  assumes "\<And>t c. card_ok c \<Longrightarrow> p c \<Longrightarrow> card_same c (f t c)"
  shows "evolves sales_safe (update_cards p f)"
  unfolding update_cards_def
  by (rule sl.exec) (auto simp: need_rows_def split: if_splits intro!: sales_upd_cards assms)

lemma card_same_status:
  assumes "card_ok c" "\<not> card_terminal (cd_status c)" "to \<notin> {CardUnused, CardActive}"
  shows "card_same c (cd_status_update (\<lambda>_. to) c)"
  using assms unfolding card_same_def card_ok_def card_next_def
  by (cases "cd_license c"; cases "cd_user c") simp_all

lemma sales_to_terminal:
  "to \<in> {CardRevoked, CardVoided} \<Longrightarrow> evolves sales_safe (transition_card_to_terminal k to)"
  unfolding transition_card_to_terminal_def
  by (rule sales_update_cards, rule card_same_status) (auto simp: card_terminal_def)

lemma sales_freeze: "from \<in> {CardUnused, CardActive} \<Longrightarrow> evolves sales_safe (transition_card_status k from CardFrozen)"
  unfolding transition_card_status_def
  by (rule sales_update_cards, rule card_same_status) (auto simp: card_terminal_def)

lemma sales_card_note: "evolves sales_safe (set_card_note k n)"
  unfolding set_card_note_def
  by (rule sl.assign, rule sales_upd_cards) (auto simp: card_same_def card_ok_def card_next_def)

lemma sales_void_unused: "evolves sales_safe (void_and_delete_unused_cards pl)"
  unfolding void_and_delete_unused_cards_def Let_def
  by (rule sl.exec) (auto split: if_splits intro!: sales_delete_unused simp del: de_Morgan_conj)

lemma sales_update_licenses:
  "(\<And>t l. q l \<Longrightarrow> license_next l (h t l)) \<Longrightarrow> evolves sales_safe (update_licenses q h)"
  unfolding update_licenses_def
  by (rule sl.exec) (auto simp: need_rows_def split: if_splits intro!: sales_upd_licenses)

lemma sales_transition_license:
  "\<not> license_final from \<Longrightarrow> evolves sales_safe (transition_license k from to)"
  unfolding transition_license_def
  by (rule sales_update_licenses) (auto simp: license_next_def expiry_le_refl)

lemma sales_license_terminal: "evolves sales_safe (transition_license_terminal k to)"
  unfolding transition_license_terminal_def
  by (rule sales_update_licenses) (auto simp: license_next_def license_final_def expiry_le_refl)

lemma sales_consume_use: "evolves sales_safe (consume_license_use k)"
  unfolding consume_license_use_def
  by (rule sl.exec) (auto split: option.splits if_splits intro!: sales_upd_licenses
      simp: license_next_def expiry_le_refl)

lemma sales_license_note: "evolves sales_safe (set_license_note k n)"
  unfolding set_license_note_def
  by (rule sl.assign, rule sales_upd_licenses) (auto simp: license_next_def expiry_le_refl)

lemma sales_touch_policy: "evolves sales_safe (touch_licenses_policy pl)"
  unfolding touch_licenses_policy_def
  by (rule sl.assign, rule sales_upd_licenses) (auto simp: license_next_def expiry_le_refl)

lemma extended_later: "0 < days \<Longrightarrow> expiry_le e (Some (extended_expiry t e days))"
  by (auto simp: expiry_le_def extended_expiry_def day_def second_def split: option.splits)

lemma sales_safeI: "(sales_ok d \<Longrightarrow> sales_safe d d') \<Longrightarrow> sales_safe d d'"
  by (simp add: sales_safe_def)

lemma find_row: "find p t = Some r \<Longrightarrow> r \<in> set t \<and> p r"
  by (rule find_Some_in)

lemma sales_extend: "0 < days \<Longrightarrow> evolves sales_safe (extend_license k days)"
  unfolding extend_license_def
proof (rule sl.exec)
  fix t and d :: db and x d'
  assume pos: "0 < days"
    and run: "(if \<not> int4 days then Inl ErrCheck
       else case find (\<lambda>r. li_id r = k) (d_licenses d) of None \<Rightarrow> Inl ErrNoRows
       | Some l \<Rightarrow> let e = extended_expiry t (li_expires l) days in
         Inr (e, d\<lparr>d_licenses := upd (\<lambda>r. li_id r = k)
           (\<lambda>r. r\<lparr>li_expires := Some e, li_updated := t\<rparr>) (d_licenses d)\<rparr>)) = Inr (x, d')"
  then obtain l where l: "find (\<lambda>r. li_id r = k) (d_licenses d) = Some l"
    and d': "d' = d\<lparr>d_licenses := upd (\<lambda>r. li_id r = k)
      (\<lambda>r. r\<lparr>li_expires := Some (extended_expiry t (li_expires l) days), li_updated := t\<rparr>) (d_licenses d)\<rparr>"
    by (auto simp: Let_def split: if_splits option.splits)
  show "sales_safe d d'"
  proof (rule sales_safeI)
    assume ok: "sales_ok d"
    have same: "r = l" if "r \<in> set (d_licenses d)" "li_id r = k" for r
      using ok find_row [OF l] that distinct_map_eqD [of li_id "d_licenses d" r l]
      by (simp add: sales_ok_def linked_def)
    show "sales_safe d d'"
      unfolding d'
      by (rule sales_upd_licenses)
        (auto dest!: same simp: license_next_def intro: extended_later [OF pos])
  qed
qed

subsection \<open>Reading a card inside a transaction\<close>

lemma card_view_sel [simp]:
  "cd_id (card_view c) = cd_id c" "cd_lookup (card_view c) = cd_lookup c" "cd_status (card_view c) = cd_status c"
  "cd_kind (card_view c) = cd_kind c" "cd_license (card_view c) = cd_license c" "cd_user (card_view c) = cd_user c"
  "cd_product (card_view c) = cd_product c" "cd_plan (card_view c) = cd_plan c" "cd_agent (card_view c) = cd_agent c"
  "cd_activated (card_view c) = cd_activated c" "cd_prefix (card_view c) = cd_prefix c"
  by (simp_all add: card_view_def)

lemma or_no_rows_Inr: "or_no_rows e m w = (Inr x, w') \<longleftrightarrow> m w = (Inr x, w')"
  by (auto simp: or_no_rows_def mapErrM_def split: prod.splits sum.splits)

lemma mapErrM_Inr: "mapErrM g m w = (Inr x, w') \<longleftrightarrow> m w = (Inr x, w')"
  by (auto simp: mapErrM_def split: prod.splits sum.splits)

lemma get_card_by_lookup_Inr:
  assumes "get_card_by_lookup l w = (Inr c, w')"
  obtains r where "r \<in> set (d_cards (w_db w))" "c = card_view r" "cd_lookup r = l" "w_db w' = w_db w" "w_now w' = w_now w"
  using db_one_Inr [OF assms [unfolded get_card_by_lookup_def]] by (auto dest!: find_row intro: that)

lemma get_card_by_id_Inr:
  assumes "get_card_by_id k w = (Inr c, w')"
  obtains r where "r \<in> set (d_cards (w_db w))" "c = card_view r" "cd_id r = k" "w_db w' = w_db w" "w_now w' = w_now w"
  using db_one_Inr [OF assms [unfolded get_card_by_id_def]] by (auto dest!: find_row intro: that)

lemmas get_row_defs = get_license_def get_plan_def get_product_def get_end_user_def get_device_def get_admin_def
  get_agent_def

lemma card_by_id: "sales_ok d \<Longrightarrow> r \<in> set (d_cards d) \<Longrightarrow> q \<in> set (d_cards d) \<Longrightarrow> cd_id q = cd_id r \<Longrightarrow> q = r"
  by (auto simp: sales_ok_def cards_wf_def dest: distinct_map_eqD)

lemma card_ok_in: "sales_ok d \<Longrightarrow> r \<in> set (d_cards d) \<Longrightarrow> card_ok r"
  by (simp add: sales_ok_def cards_wf_def list_all_iff)

text \<open>Statements on other tables, in the form the transactions use.\<close>

lemmas cards_kept = leaves_licenses [where f = d_cards] leaves_renewals [where f = d_cards]
  leaves_events [where f = d_cards] leaves_devices [where f = d_cards] leaves_users [where f = d_cards]
  leaves_user_logs [where f = d_cards]

lemma leaves_run: "leaves f m \<Longrightarrow> m w = (r, w') \<Longrightarrow> f (w_db w') = f (w_db w)"
  by (rule evolvesD)

lemma update_cards_Inr:
  assumes "update_cards p f w = (Inr x, w')"
  shows "w_db w' = (w_db w)\<lparr>d_cards := upd p (f (pg_time (w_now w))) (d_cards (w_db w))\<rparr> \<and>
    w_now w' = w_now w \<and> (\<exists>c \<in> set (d_cards (w_db w)). p c)"
  using db_exec_Inr [OF assms [unfolded update_cards_def]]
  by (auto simp: need_rows_def affected_0 split: if_splits)

subsection \<open>Redeeming a renewal card\<close>

lemma sales_new_renewal:
  assumes "list_ex (used_up_by r) (d_cards d)" "rn_card r \<notin> rn_card ` set (d_renewals d)"
  shows "sales_safe d (d\<lparr>d_renewals := d_renewals d @ [r]\<rparr>)"
  using assms unfolding sales_safe_def sales_ok_def redeemed_def sales_next_def
  by (auto simp: list_all_iff list_ex_iff intro: card_next_refl license_next_refl)

lemma unused_not_redeemed:
  assumes "sales_ok d" "r \<in> set (d_cards d)" "cd_status r = CardUnused"
  shows "cd_id r \<notin> rn_card ` set (d_renewals d)"
proof
  assume "cd_id r \<in> rn_card ` set (d_renewals d)"
  then obtain x where "x \<in> set (d_renewals d)" "rn_card x = cd_id r" by auto
  with assms(1) obtain q where "q \<in> set (d_cards d)" "cd_id q = cd_id r" "cd_status q = CardDepleted"
    unfolding sales_ok_def redeemed_def list_all_iff list_ex_iff used_up_by_def by metis
  with card_by_id [OF assms(1,2), of q] assms(3) show False by simp
qed

lemma insert_renewal_Inr:
  assumes "insert_renewal lic cid days old new w = (Inr x, w')"
  obtains r where "w_db w' = (w_db w)\<lparr>d_renewals := d_renewals (w_db w) @ [r]\<rparr>" "rn_card r = cid" "rn_license r = lic"
    "rn_days r = days" "rn_old r = map_option pg_time old" "rn_new r = map_option pg_time new"
  by (rule that [of "\<lparr>rn_license = lic, rn_card = cid, rn_days = days, rn_old = map_option pg_time old,
      rn_new = map_option pg_time new, rn_created = pg_time (w_now w)\<rparr>"])
    (use db_new_Inr [OF assms [unfolded insert_renewal_def]] in \<open>auto split: if_splits\<close>)

lemma set_status_Inr:
  assumes "set_card_status k st w = (Inr x, w')"
  shows "w_db w' = (w_db w)\<lparr>d_cards := upd (\<lambda>r. cd_id r = k) (cd_status_update (\<lambda>_. st)) (d_cards (w_db w))\<rparr>"
  using update_cards_Inr [OF assms [unfolded set_card_status_def]] by simp

lemma renew_with_safe:
  assumes run: "renew_with now dev lic c pl lpl req w = (Inr x, w')" and days: "0 < pl_days pl"
    and r: "r \<in> set (d_cards (w_db w))" "c = card_view r" "cd_status r = CardUnused" "cd_kind r = ''renewal''"
  shows "sales_safe (w_db w) (w_db w')"
proof (rule sales_safeI)
  assume ok: "sales_ok (w_db w)"
  from run obtain e w1 u w2 v w3 y w4 jti w5 where
    ext: "extend_license (li_id lic) (pl_days pl) w = (Inr e, w1)" and
    dep: "set_card_status (cd_id c) CardDepleted w1 = (Inr u, w2)" and
    ren: "insert_renewal (li_id lic) (cd_id c) (pl_days pl) (li_expires lic) (Some e) w2 = (Inr v, w3)" and
    ev: "insert_license_event (li_id lic) ''renewed'' ''device'' req [(''card_prefix'', JStr (cd_prefix c)),
      (''days'', JInt (pl_days pl)), (''new_expiry'', JTime e)] w3 = (Inr y, w4)" and
    tok: "random_token w4 = (Inr jti, w5)" and w': "w' = w5"
    unfolding renew_with_def bindM_Inr_iff seqM_Inr_iff retM_eq_iff by blast
  have s1: "sales_safe (w_db w) (w_db w1)" using evolvesD [OF sales_extend [OF days] ext] .
  then have ok1: "sales_ok (w_db w1)" using ok by (simp add: sales_safe_def)
  have cs1: "d_cards (w_db w1) = d_cards (w_db w)" "d_renewals (w_db w1) = d_renewals (w_db w)"
    using leaves_run [OF leaves_licenses(6) [where f = d_cards] ext]
      leaves_run [OF leaves_licenses(6) [where f = d_renewals] ext] by simp_all
  have d2: "w_db w2 = (w_db w1)\<lparr>d_cards := upd (\<lambda>q. cd_id q = cd_id r) (cd_status_update (\<lambda>_. CardDepleted)) (d_cards (w_db w1))\<rparr>"
    using set_status_Inr [OF dep] r(2) by simp
  have only: "q = r" if "q \<in> set (d_cards (w_db w1))" "cd_id q = cd_id r" for q
    using card_by_id [OF ok] r(1) that cs1 by simp
  have s2: "sales_safe (w_db w1) (w_db w2)"
    unfolding d2 by (rule sales_upd_cards) (auto dest!: only simp: r(3) card_terminal_def intro!: card_same_status)
  obtain n where d3: "w_db w3 = (w_db w2)\<lparr>d_renewals := d_renewals (w_db w2) @ [n]\<rparr>" and n: "rn_card n = cd_id c"
    using insert_renewal_Inr [OF ren] by metis
  have "list_ex (used_up_by n) (d_cards (w_db w2))"
    using in_upd [OF r(1), of "\<lambda>q. cd_id q = cd_id r" "cd_status_update (\<lambda>_. CardDepleted)"] r n cs1
    unfolding list_ex_iff by (intro bexI) (auto simp: d2 used_up_by_def)
  moreover have "rn_card n \<notin> rn_card ` set (d_renewals (w_db w2))"
    using unused_not_redeemed [OF ok r(1,3)] cs1 by (simp add: d2 n r(2))
  ultimately have s3: "sales_safe (w_db w2) (w_db w3)" unfolding d3 by (rule sales_new_renewal)
  have s4: "sales_safe (w_db w3) (w_db w')"
    using evolvesD [OF sales_event ev] evolvesD [OF sl.reads(6) tok] w' by (blast intro: sl.R_trans)
  show "sales_safe (w_db w) (w_db w')"
    using s1 s2 s3 s4 by (blast intro: sl.R_trans)
qed

lemma redeem_tx_commit:
  assumes "redeem_tx now dev lookup req w = (Inr x, w')"
  obtains lic r pl lpl v where "renew_with now dev lic (card_view r) pl lpl req v = (Inr x, w')" "w_db v = w_db w"
    "w_now v = w_now w" "lic \<in> set (d_licenses (w_db w))" "li_id lic = dv_license dev" "li_status lic = LicenseActive"
    "li_expires lic \<noteq> None" "r \<in> set (d_cards (w_db w))" "cd_lookup r = lookup" "cd_status r = CardUnused"
    "cd_kind r = ''renewal''" "cd_product r = li_product lic" "0 < pl_days pl" "pl_id pl = cd_plan r"
    "pl \<in> set (d_plans (w_db w))" "pl_id lpl = li_plan lic" "pl_status lpl = ''active''"
proof -
  from assms obtain lic w1 where l: "get_license (dv_license dev) w = (Inr lic, w1)" and
    run1: "(if li_status lic \<noteq> LicenseActive then throwM (map_license_err (li_status lic))
      else if li_expires lic = None then throwM (Dom ErrCardNotUsable)
      else bindM (or_no_rows (Dom ErrCardNotFound) (get_card_by_lookup lookup)) (\<lambda>c.
        seqM (check_renewal_card lic c) (bindM (get_plan (cd_plan c)) (\<lambda>pl.
        if pl_days pl \<le> 0 then throwM (Dom ErrCardNotUsable)
        else bindM (get_plan (li_plan lic)) (\<lambda>lpl. if pl_status lpl \<noteq> ''active'' then throwM (Dom ErrPlanRetired)
        else renew_with now dev lic c pl lpl req))))) w1 = (Inr x, w')"
    unfolding redeem_tx_def bindM_Inr_iff by blast
  note l' = get_row_Inr [OF l [unfolded get_license_def]]
  from run1 have act: "li_status lic = LicenseActive" "li_expires lic \<noteq> None"
    by (auto simp: throwM_eq_iff split: if_splits)
  from run1 act obtain c w2 u w3 pl w4 where
    c: "get_card_by_lookup lookup w1 = (Inr c, w2)" and chk: "check_renewal_card lic c w2 = (Inr u, w3)" and
    p: "get_plan (cd_plan c) w3 = (Inr pl, w4)" and
    run2: "(if pl_days pl \<le> 0 then throwM (Dom ErrCardNotUsable)
        else bindM (get_plan (li_plan lic)) (\<lambda>lpl. if pl_status lpl \<noteq> ''active'' then throwM (Dom ErrPlanRetired)
        else renew_with now dev lic c pl lpl req)) w4 = (Inr x, w')"
    unfolding bindM_Inr_iff seqM_Inr_iff or_no_rows_Inr by (auto simp: bindM_Inr_iff seqM_Inr_iff or_no_rows_Inr)
  obtain r where r: "r \<in> set (d_cards (w_db w1))" "c = card_view r" "cd_lookup r = lookup" "w_db w2 = w_db w1" "w_now w2 = w_now w1"
    using get_card_by_lookup_Inr [OF c] by blast
  have k: "cd_kind r = ''renewal''" "cd_product r = li_product lic" "cd_status r = CardUnused" "w3 = w2"
    using chk r(2) by (auto simp: check_renewal_card_def throwM_eq_iff retM_eq_iff split: if_splits)
  note p' = get_row_Inr [OF p [unfolded get_plan_def]]
  from run2 have days: "0 < pl_days pl" by (auto simp: throwM_eq_iff split: if_splits)
  from run2 days obtain lpl w5 where q: "get_plan (li_plan lic) w4 = (Inr lpl, w5)" and
    run3: "(if pl_status lpl \<noteq> ''active'' then throwM (Dom ErrPlanRetired)
        else renew_with now dev lic c pl lpl req) w5 = (Inr x, w')"
    by (auto simp: bindM_Inr_iff)
  note q' = get_row_Inr [OF q [unfolded get_plan_def]]
  from run3 have "pl_status lpl = ''active''" "renew_with now dev lic c pl lpl req w5 = (Inr x, w')"
    by (auto simp: throwM_eq_iff split: if_splits)
  then show thesis
    using that [of lic r pl lpl w5] l' p' q' r k act days by simp
qed

lemma redeem_tx_safe: "redeem_tx now dev lookup req w = (Inr x, w') \<Longrightarrow> sales_safe (w_db w) (w_db w')"
  by (erule redeem_tx_commit) (metis renew_with_safe)

subsection \<open>Issuing a licence\<close>

lemma licence_card: "sales_ok d \<Longrightarrow> l \<in> set (d_licenses d) \<Longrightarrow> \<exists>c \<in> set (d_cards d). issued c l"
  by (simp add: sales_ok_def linked_def list_all_iff list_ex_iff)

lemma card_licence: "sales_ok d \<Longrightarrow> c \<in> set (d_cards d) \<Longrightarrow> cd_license c = Some k \<Longrightarrow>
    \<exists>l \<in> set (d_licenses d). li_id l = k \<and> issued c l"
proof -
  assume "sales_ok d" "c \<in> set (d_cards d)" and k: "cd_license c = Some k"
  then have "list_ex (issued c) (d_licenses d)" by (auto simp: sales_ok_def linked_def list_all_iff)
  then obtain l where l: "l \<in> set (d_licenses d)" "issued c l" by (auto simp: list_ex_iff)
  then have "li_id l = k" using k by (simp add: issued_def)
  with l show ?thesis by blast
qed

lemma renewal_card: "sales_ok d \<Longrightarrow> x \<in> set (d_renewals d) \<Longrightarrow> \<exists>c \<in> set (d_cards d). used_up_by x c"
  by (simp add: sales_ok_def redeemed_def list_all_iff list_ex_iff)

definition issue_card :: "string \<Rightarrow> card_status \<Rightarrow> string \<Rightarrow> time \<Rightarrow> card list \<Rightarrow> card list" where
  "issue_card key st lic t cs = upd (\<lambda>q. cd_id q = key)
     (\<lambda>q. q\<lparr>cd_status := st, cd_license := Some lic, cd_activated := Some t\<rparr>) cs"

lemma sales_issue:
  assumes r: "r \<in> set (d_cards d)" "cd_status r = CardUnused" "cd_kind r = ''license''"
    and st: "st = CardActive \<or> st = CardDepleted"
    and L: "li_id L \<notin> li_id ` set (d_licenses d)" "li_card L = cd_id r" "li_product L = cd_product r"
      "li_plan L = cd_plan r" "li_agent L = cd_agent r"
    and d': "d_cards d' = issue_card (cd_id r) st (li_id L) t (d_cards d)"
      "d_licenses d' = d_licenses d @ [L]" "d_renewals d' = d_renewals d"
  shows "sales_safe d d'"
  unfolding sales_safe_def
proof
  assume ok: "sales_ok d"
  let ?f = "\<lambda>q. q\<lparr>cd_status := st, cd_license := Some (li_id L), cd_activated := Some t\<rparr>"
  let ?cs = "upd (\<lambda>q. cd_id q = cd_id r) ?f (d_cards d)"
  have only: "q = r" if "q \<in> set (d_cards d)" "cd_id q = cd_id r" for q
    using card_by_id [OF ok r(1)] that by simp
  have rok: "card_ok r" using card_ok_in [OF ok r(1)] .
  then have free: "cd_license r = None" "cd_user r = None" "cd_activated r = None"
    using r(2) by (auto simp: card_ok_def card_terminal_def)
  have fr: "card_ok (?f r) \<and> card_next r (?f r)"
    using r free st by (auto simp: card_ok_def card_next_def card_terminal_def)
  have wf: "cards_wf ?cs"
    using ok fr by (intro cards_wf_upd) (auto simp: sales_ok_def dest!: only)
  have inr: "?f r \<in> set ?cs" using in_upd [OF r(1), of "\<lambda>q. cd_id q = cd_id r" ?f] by simp
  have stays: "c \<in> set ?cs" if "c \<in> set (d_cards d)" "c \<noteq> r" for c
  proof -
    have "cd_id c \<noteq> cd_id r" using only [OF that(1)] that(2) by blast
    then show ?thesis using in_upd [OF that(1), of "\<lambda>q. cd_id q = cd_id r" ?f] by simp
  qed
  have "list_all (\<lambda>l. list_ex (\<lambda>c. issued c l) ?cs) (d_licenses d @ [L])"
  proof -
    have "list_ex (\<lambda>c. issued c l) ?cs" if l: "l \<in> set (d_licenses d)" for l
    proof -
      obtain c where "c \<in> set (d_cards d)" "issued c l" using licence_card [OF ok l] by blast
      moreover from this have "c \<noteq> r" using free(1) unfolding issued_def by (metis option.distinct(1))
      ultimately show ?thesis using stays unfolding list_ex_iff by blast
    qed
    moreover have "issued (?f r) L" using L by (simp add: issued_def)
    then have "list_ex (\<lambda>c. issued c L) ?cs" using inr unfolding list_ex_iff by blast
    ultimately show ?thesis by (simp add: list_all_iff)
  qed
  moreover have "list_all (\<lambda>c. cd_license c = None \<or> list_ex (issued c) (d_licenses d @ [L])) ?cs"
  proof (rule list_all_upd)
    show "list_all (\<lambda>c. cd_license c = None \<or> list_ex (issued c) (d_licenses d)) (d_cards d)"
      using ok by (simp add: sales_ok_def linked_def)
  next
    fix q assume q: "q \<in> set (d_cards d)" and old: "cd_license q = None \<or> list_ex (issued q) (d_licenses d)"
    show "cd_license (if cd_id q = cd_id r then ?f q else q) = None \<or>
        list_ex (issued (if cd_id q = cd_id r then ?f q else q)) (d_licenses d @ [L])"
      using old only [OF q] L by (auto simp: issued_def)
  qed
  moreover have "redeemed ?cs (d_renewals d)"
    unfolding redeemed_def
  proof
    show "distinct (map rn_card (d_renewals d))" using ok by (simp add: sales_ok_def redeemed_def)
    show "list_all (\<lambda>x. list_ex (used_up_by x) ?cs) (d_renewals d)"
      unfolding list_all_iff
    proof
      fix x assume "x \<in> set (d_renewals d)"
      then obtain c where "c \<in> set (d_cards d)" "used_up_by x c" using renewal_card [OF ok] by blast
      moreover from this have "c \<noteq> r" using r(2) unfolding used_up_by_def by (metis card_status.distinct(9))
      ultimately show "list_ex (used_up_by x) ?cs" using stays unfolding list_ex_iff by blast
    qed
  qed
  moreover have "list_ex (card_next c) ?cs" if "c \<in> set (d_cards d)" for c
    using stays [OF that] inr fr unfolding list_ex_iff by (cases "c = r") (auto intro: card_next_refl)
  ultimately show "sales_ok d' \<and> sales_next d d'"
    using ok wf L by (auto simp: sales_ok_def linked_def sales_next_def d' issue_card_def list_all_iff list_ex_iff
      intro: license_next_refl)
qed

lemma create_license_Inr:
  assumes "create_license l w = (Inr L, w')"
  obtains i where "L = license_row l (pg_time (w_now w)) i" "i \<notin> li_id ` set (d_licenses (w_db w))"
    "w_db w' = (w_db w)\<lparr>d_licenses := d_licenses (w_db w) @ [L]\<rparr>" "w_now w' = w_now w"
  using db_new_Inr [OF assms [unfolded create_license_def]]
  by (auto simp: exists_row_iff split: if_splits intro: that)

lemma consume_use_Inr:
  assumes "consume_license_use k w = (Inr n, w')"
  obtains l u where "l \<in> set (d_licenses (w_db w))" "li_id l = k" "li_uses l = Some u" "0 < u" "n = u - 1"
    "w_db w' = (w_db w)\<lparr>d_licenses := upd (\<lambda>r. li_id r = k) (li_uses_update (\<lambda>_. Some n)) (d_licenses (w_db w))\<rparr>"
    "w_now w' = w_now w"
  using db_exec_Inr [OF assms [unfolded consume_license_use_def]]
  by (auto split: option.splits if_splits dest!: find_row intro: that)

lemma set_activated_Inr:
  assumes "set_card_activated k l t w = (Inr x, w')"
  shows "w_db w' = (w_db w)\<lparr>d_cards := upd (\<lambda>r. cd_id r = k \<and> (cd_status r = CardUnused \<or> cd_status r = CardDepleted))
    (\<lambda>r. r\<lparr>cd_status := (if cd_status r = CardDepleted then CardDepleted else CardActive), cd_license := Some l,
      cd_activated := Some (pg_time t)\<rparr>) (d_cards (w_db w))\<rparr>"
  using db_write_Inr [OF assms [unfolded set_card_activated_def]] by simp

lemma upd_append_last:
  "k \<notin> li_id ` set ls \<Longrightarrow> upd (\<lambda>r. li_id r = k) f (ls @ [L]) = ls @ [if li_id L = k then f L else L]"
  by (simp add: upd_def) (auto intro!: map_idI)

lemma issue_upd:
  assumes "\<And>q. q \<in> set cs \<Longrightarrow> cd_id q = k \<Longrightarrow> cd_status q = CardUnused"
  shows "upd (\<lambda>r. cd_id r = k \<and> (cd_status r = CardUnused \<or> cd_status r = CardDepleted))
      (\<lambda>r. r\<lparr>cd_status := (if cd_status r = CardDepleted then CardDepleted else CardActive), cd_license := Some l,
        cd_activated := Some t\<rparr>)
      (if dep then upd (\<lambda>r. cd_id r = k) (cd_status_update (\<lambda>_. CardDepleted)) cs else cs) =
    issue_card k (if dep then CardDepleted else CardActive) l t cs"
  using assms unfolding issue_card_def upd_def by (auto simp: comp_def)

text \<open>What the first use of a fresh licence leaves: the row counted down, the card used up or not.\<close>

definition counted :: "plan \<Rightarrow> license \<Rightarrow> license" where
  "counted pl L = (if pl_kind pl = ''uses'' then L\<lparr>li_uses := map_option (\<lambda>u. u - 1) (li_uses L)\<rparr> else L)"

definition depletes :: "plan \<Rightarrow> license \<Rightarrow> bool" where
  "depletes pl L \<longleftrightarrow> pl_kind pl = ''uses'' \<and> li_uses L = Some 1"

lemma first_use_Inr:
  assumes run: "first_use c pl L w = (Inr lic, w')"
    and tab: "d_licenses (w_db w) = ls @ [L]" "li_id L \<notin> li_id ` set ls"
  shows "lic = counted pl L" "w_db w' = (w_db w)\<lparr>d_licenses := ls @ [lic], d_cards := (if depletes pl L
      then upd (\<lambda>r. cd_id r = cd_id c) (cd_status_update (\<lambda>_. CardDepleted)) (d_cards (w_db w)) else d_cards (w_db w))\<rparr>"
    "w_now w' = w_now w"
proof -
  have "lic = counted pl L \<and> w_db w' = (w_db w)\<lparr>d_licenses := ls @ [lic], d_cards := (if depletes pl L
      then upd (\<lambda>r. cd_id r = cd_id c) (cd_status_update (\<lambda>_. CardDepleted)) (d_cards (w_db w)) else d_cards (w_db w))\<rparr> \<and>
    w_now w' = w_now w"
  proof (cases "pl_kind pl = ''uses''")
    case False
    then show ?thesis using run tab by (simp add: first_use_def counted_def depletes_def retM_eq_iff)
  next
    case True
    from run True obtain n w1 y w2 where
      use: "consume_license_use (li_id L) w = (Inr n, w1)" and
      dep: "(if n = 0 then set_card_status (cd_id c) CardDepleted else retM ()) w1 = (Inr y, w2)" and
      fin: "lic = L\<lparr>li_uses := Some n\<rparr>" "w' = w2"
      by (auto simp: first_use_def bindM_Inr_iff seqM_Inr_iff retM_eq_iff)
    from use obtain l u where l: "l \<in> set (d_licenses (w_db w))" "li_id l = li_id L" "li_uses l = Some u" "n = u - 1"
      and d1: "w_db w1 = (w_db w)\<lparr>d_licenses := upd (\<lambda>r. li_id r = li_id L) (li_uses_update (\<lambda>_. Some n)) (d_licenses (w_db w))\<rparr>"
      and t1: "w_now w1 = w_now w" by (rule consume_use_Inr)
    have "l = L" using l tab by (auto simp: image_iff)
    have d1': "w_db w1 = (w_db w)\<lparr>d_licenses := ls @ [lic]\<rparr>"
      using d1 upd_append_last [OF tab(2)] by (simp add: tab(1) fin)
    show ?thesis
    proof (cases "n = 0")
      case True
      then have "w_db w2 = (w_db w1)\<lparr>d_cards := upd (\<lambda>r. cd_id r = cd_id c) (cd_status_update (\<lambda>_. CardDepleted)) (d_cards (w_db w1))\<rparr>"
        "w_now w2 = w_now w1"
        using dep update_cards_Inr [of "\<lambda>r. cd_id r = cd_id c" "\<lambda>t. cd_status_update (\<lambda>_. CardDepleted)" w1 y w2]
        by (simp_all add: set_card_status_def)
      with \<open>pl_kind pl = ''uses''\<close> True l \<open>l = L\<close> d1' t1 fin show ?thesis
        by (simp add: counted_def depletes_def)
    next
      case False
      with \<open>pl_kind pl = ''uses''\<close> l \<open>l = L\<close> d1' t1 fin dep show ?thesis
        by (simp add: counted_def depletes_def retM_eq_iff)
    qed
  qed
  then show "lic = counted pl L" "w_db w' = (w_db w)\<lparr>d_licenses := ls @ [lic], d_cards := (if depletes pl L
      then upd (\<lambda>r. cd_id r = cd_id c) (cd_status_update (\<lambda>_. CardDepleted)) (d_cards (w_db w)) else d_cards (w_db w))\<rparr>"
    "w_now w' = w_now w" by blast+
qed

end
