(* ===== verification/SalesTx.thy ===== *)
theory SalesTx
  imports Sales
begin

section \<open>Transactions and services on cards and licences\<close>

text \<open>
  What the transactions of activation, redemption, card binding and the admin actions leave when
  they commit, and from it that every service operation is \<open>sales_safe\<close>.
\<close>

subsection \<open>First activation\<close>

lemma create_device_Inr:
  assumes "create_device v w = (Inr dev, w')"
  obtains i where "dev = device_row v (pg_time (w_now w)) i" "dv_id dev \<notin> dv_id ` set (d_devices (w_db w))"
    "\<forall>x \<in> set (d_devices (w_db w)). \<not> (dv_license x = dv_license v \<and> dv_fp x = dv_fp v) \<and>
       \<not> (dv_pub x = dv_pub v \<and> dv_status x = DeviceActive)"
    "w_db w' = (w_db w)\<lparr>d_devices := d_devices (w_db w) @ [dev]\<rparr>" "w_now w' = w_now w"
proof -
  from db_new_Inr [OF assms [unfolded create_device_def]] obtain i where
    "dev = device_row v (pg_time (w_now w)) i" "w_now w' = w_now w"
    "w_db w' = (w_db w)\<lparr>d_devices := d_devices (w_db w) @ [dev]\<rparr>"
    "\<not> exists_row (\<lambda>r. dv_id r = i \<or> (dv_license r = dv_license v \<and> dv_fp r = dv_fp v) \<or>
       (dv_pub r = dv_pub v \<and> dv_status r = DeviceActive)) (d_devices (w_db w))"
    by (auto split: if_splits)
  then show thesis by (intro that [of i]) (auto simp: exists_row_iff device_row_def)
qed

lemma insert_event_Inr:
  assumes "insert_license_event lic kind who req det w = (Inr x, w')"
  obtains e where "w_db w' = (w_db w)\<lparr>d_events := d_events (w_db w) @ [e]\<rparr>" "ev_license e = lic" "ev_kind e = kind"
    "ev_actor e = who" "ev_request e = req" "ev_detail e = det" "ev_created e = pg_time (w_now w)" "w_now w' = w_now w"
  by (rule that [of "\<lparr>ev_license = lic, ev_kind = kind, ev_actor = who, ev_detail = det, ev_request = req,
      ev_created = pg_time (w_now w)\<rparr>"])
    (use db_serial_Inr [OF assms [unfolded insert_license_event_def]] in \<open>auto split: if_splits\<close>)

lemma build_result_Inr:
  assumes "build_result lic dev pl pr again w = (Inr x, w')"
  shows "w_db w' = w_db w" "ar_license x = li_id lic" "ar_device x = dv_id dev" "ar_expiry x = li_expires lic"
    "ar_reactivated x = again" "lc_lic (ar_claims x) = li_id lic" "lc_dev (ar_claims x) = dv_id dev"
    "lc_exp (ar_claims x) = unix (w_now w) + pl_lease_ttl pl" "ar_concurrent x = pl_concurrent pl"
    "ar_lease_ttl x = pl_lease_ttl pl"
  using assms by (auto simp: build_result_def bindM_Inr_iff random_token_def go_now_def getsM_eq_iff retM_eq_iff)

text \<open>The licence row a first activation creates: the card's product, plan and agent, and the plan's term.\<close>

definition fresh_license :: "time \<Rightarrow> card \<Rightarrow> plan \<Rightarrow> time \<Rightarrow> string \<Rightarrow> license" where
  "fresh_license now c pl t i = counted pl (license_row (case fresh_term now c pl of
     Inl _ \<Rightarrow> new_license c None None | Inr (uses, e) \<Rightarrow> new_license c uses e) t i)"

definition fresh_status :: "plan \<Rightarrow> card_status" where
  "fresh_status pl = (if pl_kind pl = ''uses'' \<and> pl_uses pl = 1 then CardDepleted else CardActive)"

lemma counted_sel [simp]:
  "li_id (counted pl L) = li_id L" "li_card (counted pl L) = li_card L" "li_product (counted pl L) = li_product L"
  "li_plan (counted pl L) = li_plan L" "li_agent (counted pl L) = li_agent L" "li_status (counted pl L) = li_status L"
  "li_expires (counted pl L) = li_expires L"
  by (simp_all add: counted_def)

lemma license_row_sel [simp]:
  "li_id (license_row l t i) = i" "li_card (license_row l t i) = li_card l" "li_product (license_row l t i) = li_product l"
  "li_plan (license_row l t i) = li_plan l" "li_agent (license_row l t i) = li_agent l"
  "li_status (license_row l t i) = LicenseActive" "li_uses (license_row l t i) = li_uses l"
  "li_expires (license_row l t i) = map_option pg_time (li_expires l)"
  by (simp_all add: license_row_def)

lemma new_license_sel [simp]:
  "li_card (new_license c u e) = cd_id c" "li_product (new_license c u e) = cd_product c"
  "li_plan (new_license c u e) = cd_plan c" "li_agent (new_license c u e) = cd_agent c"
  "li_uses (new_license c u e) = u" "li_expires (new_license c u e) = e"
  by (simp_all add: new_license_def)

lemma fresh_license_sel [simp]:
  "li_id (fresh_license now c pl t i) = i" "li_card (fresh_license now c pl t i) = cd_id c"
  "li_product (fresh_license now c pl t i) = cd_product c" "li_plan (fresh_license now c pl t i) = cd_plan c"
  "li_agent (fresh_license now c pl t i) = cd_agent c" "li_status (fresh_license now c pl t i) = LicenseActive"
  by (simp_all add: fresh_license_def split: sum.splits prod.splits)

lemma activate_fresh_commit:
  assumes run: "activate_fresh now c pl pr p fp ip req w = (Inr x, w')" and ok: "sales_ok (w_db w)"
    and r: "r \<in> set (d_cards (w_db w))" "c = card_view r" "cd_status r = CardUnused"
  obtains L i dev e where "L = fresh_license now c pl (pg_time (w_now w)) i" "i \<notin> li_id ` set (d_licenses (w_db w))"
    "cd_kind r = ''license''" "ar_license x = i" "ar_device x = dv_id dev" "\<not> ar_reactivated x"
    "dv_license dev = i" "dv_fp dev = fp" "dv_pub dev = ap_device_pub p" "dv_status dev = DeviceActive"
    "ar_expiry x = li_expires L"
    "w_db w' = (w_db w)\<lparr>d_cards := issue_card (cd_id r) (fresh_status pl) i (pg_time now) (d_cards (w_db w)),
       d_licenses := d_licenses (w_db w) @ [L], d_devices := d_devices (w_db w) @ [dev],
       d_events := d_events (w_db w) @ [e]\<rparr>"
proof -
  from run have kind: "cd_kind c = ''license''" by (auto simp: activate_fresh_def throwM_eq_iff split: if_splits)
  from run kind obtain uses exp w0 L0 w1 lic w2 dev w3 y w4 z w5 where
    trm: "liftE (fresh_term now c pl) w = (Inr (uses, exp), w0)" and
    mk: "create_license (new_license c uses exp) w0 = (Inr L0, w1)" and
    use: "first_use c pl L0 w1 = (Inr lic, w2)" and
    dv: "create_device (new_device (li_id lic) fp p ip) w2 = (Inr dev, w3)" and
    act: "set_card_activated (cd_id c) (li_id lic) now w3 = (Inr y, w4)" and
    ev: "insert_license_event (li_id lic) ''activated'' ''system'' req [(''card_prefix'', JStr (cd_prefix c)),
      (''device_id'', JStr (dv_id dev)), (''trust'', JStr (ap_trust p))] w4 = (Inr z, w5)" and
    res: "build_result lic dev pl pr False w5 = (Inr x, w')"
    unfolding activate_fresh_def bindM_Inr_iff seqM_Inr_iff
    by (auto simp: bindM_Inr_iff seqM_Inr_iff split: prod.splits)
  have t: "fresh_term now c pl = Inr (uses, exp)" "w0 = w"
    using trm by (auto simp: liftE_def throwM_eq_iff retM_eq_iff split: sum.splits)
  obtain i where L0: "L0 = license_row (new_license c uses exp) (pg_time (w_now w)) i" "i \<notin> li_id ` set (d_licenses (w_db w))"
    and d1: "w_db w1 = (w_db w)\<lparr>d_licenses := d_licenses (w_db w) @ [L0]\<rparr>" and n1: "w_now w1 = w_now w"
    using create_license_Inr [OF mk] t(2) by metis
  have "li_id L0 \<notin> li_id ` set (d_licenses (w_db w))" using L0 by simp
  note fu = first_use_Inr [OF use _ this, unfolded d1, simplified]
  have lic: "lic = fresh_license now c pl (pg_time (w_now w)) i"
    using fu(1) L0 t by (simp add: fresh_license_def)
  have d2: "w_db w2 = (w_db w)\<lparr>d_licenses := d_licenses (w_db w) @ [lic], d_cards := (if depletes pl L0
      then upd (\<lambda>q. cd_id q = cd_id r) (cd_status_update (\<lambda>_. CardDepleted)) (d_cards (w_db w)) else d_cards (w_db w))\<rparr>"
    using fu(2) r(2) by (cases "depletes pl L0") simp_all
  have dep: "depletes pl L0 \<longleftrightarrow> fresh_status pl = CardDepleted"
    using t(1) L0 by (auto simp: depletes_def fresh_status_def fresh_term_def split: if_splits)
  obtain d where dd: "w_db w3 = (w_db w2)\<lparr>d_devices := d_devices (w_db w2) @ [dev]\<rparr>" "dev = device_row (new_device (li_id lic) fp p ip) (pg_time (w_now w2)) d"
    using create_device_Inr [OF dv] by metis
  obtain e where ee: "w_db w5 = (w_db w4)\<lparr>d_events := d_events (w_db w4) @ [e]\<rparr>"
    using insert_event_Inr [OF ev] by metis
  have un: "cd_status q = CardUnused" if "q \<in> set (d_cards (w_db w))" "cd_id q = cd_id r" for q
    using card_by_id [OF ok r(1) that] r(3) by simp
  have st: "(if depletes pl L0 then CardDepleted else CardActive) = fresh_status pl"
    using dep by (auto simp: fresh_status_def)
  note issue = issue_upd [where cs = "d_cards (w_db w)" and k = "cd_id r" and l = "li_id lic" and t = "pg_time now"
    and dep = "depletes pl L0", OF un, unfolded st]
  have "w_db w' = (w_db w)\<lparr>d_cards := issue_card (cd_id r) (fresh_status pl) i (pg_time now) (d_cards (w_db w)),
       d_licenses := d_licenses (w_db w) @ [lic], d_devices := d_devices (w_db w) @ [dev],
       d_events := d_events (w_db w) @ [e]\<rparr>"
    using build_result_Inr(1) [OF res] ee set_activated_Inr [OF act] dd(1) d2 issue r(2) lic by simp
  then show thesis
    using that [of lic i dev e] lic L0(2) kind r(2) build_result_Inr [OF res] dd(2)
    by (simp add: device_row_def new_device_def)
qed

lemma activate_fresh_safe:
  assumes run: "activate_fresh now c pl pr p fp ip req w = (Inr x, w')"
    and r: "r \<in> set (d_cards (w_db w))" "c = card_view r" "cd_status r = CardUnused"
  shows "sales_safe (w_db w) (w_db w')"
proof (rule sales_safeI)
  assume ok: "sales_ok (w_db w)"
  obtain L i dev e where L: "L = fresh_license now c pl (pg_time (w_now w)) i" "i \<notin> li_id ` set (d_licenses (w_db w))"
      "cd_kind r = ''license''"
    and w': "w_db w' = (w_db w)\<lparr>d_cards := issue_card (cd_id r) (fresh_status pl) i (pg_time now) (d_cards (w_db w)),
       d_licenses := d_licenses (w_db w) @ [L], d_devices := d_devices (w_db w) @ [dev],
       d_events := d_events (w_db w) @ [e]\<rparr>"
    using activate_fresh_commit [OF run ok r] by metis
  show "sales_safe (w_db w) (w_db w')"
    by (rule sales_issue [OF r(1,3) L(3), where st = "fresh_status pl" and L = L and t = "pg_time now"])
      (use L r(2) w' in \<open>simp_all add: fresh_status_def\<close>)
qed

lemma sales_build_result: "evolves sales_safe (build_result lic dev pl pr again)"
  unfolding build_result_def by (intro sl.rules)

lemma sales_activate_bound: "evolves sales_safe (activate_bound now c pl pr p fp ip req)"
  unfolding activate_bound_def activate_again_def activate_device_def get_row_defs get_device_by_fingerprint_def
    count_active_devices_def
  by (intro sl.rules sl.wrap sales_frames sales_consume_use sales_event sales_build_result)

lemma activate_tx_commit:
  assumes "activate_tx S now p lookup fp ip req w = (Inr x, w')"
  obtains r pl pr v where "r \<in> set (d_cards (w_db w))" "cd_lookup r = lookup" "pl \<in> set (d_plans (w_db w))"
    "pl_id pl = cd_plan r" "pl_status pl = ''active''" "pr \<in> set (d_products (w_db w))" "pr_id pr = cd_product r"
    "pr_status pr = ''active''" "w_db v = w_db w" "w_now v = w_now w"
    "cd_status r = CardUnused \<and> activate_fresh now (card_view r) pl pr p fp ip req v = (Inr x, w') \<or>
     cd_status r = CardActive \<and> activate_bound now (card_view r) pl pr p fp ip req v = (Inr x, w')"
proof -
  from assms obtain c w1 pl w2 pr w3 where c: "get_card_by_lookup lookup w = (Inr c, w1)" and
    p: "get_plan (cd_plan c) w1 = (Inr pl, w2)" and q: "get_product (cd_product c) w2 = (Inr pr, w3)" and
    run: "(if pr_status pr \<noteq> ''active'' then throwM (Dom ErrProductRetired)
      else if pl_status pl \<noteq> ''active'' then throwM (Dom ErrPlanRetired)
      else case cd_status c of CardUnused \<Rightarrow> activate_fresh now c pl pr p fp ip req
        | CardActive \<Rightarrow> activate_bound now c pl pr p fp ip req
        | st \<Rightarrow> throwM (map_card_err st)) w3 = (Inr x, w')"
    unfolding activate_tx_def bindM_Inr_iff or_no_rows_Inr by blast
  obtain r where r: "r \<in> set (d_cards (w_db w))" "c = card_view r" "cd_lookup r = lookup" "w_db w1 = w_db w" "w_now w1 = w_now w"
    using get_card_by_lookup_Inr [OF c] by blast
  note p' = get_row_Inr [OF p [unfolded get_plan_def]] and q' = get_row_Inr [OF q [unfolded get_product_def]]
  have act: "pr_status pr = ''active''" "pl_status pl = ''active''"
    using run by (auto simp: throwM_eq_iff split: if_splits)
  with run have "cd_status r = CardUnused \<and> activate_fresh now (card_view r) pl pr p fp ip req w3 = (Inr x, w') \<or>
     cd_status r = CardActive \<and> activate_bound now (card_view r) pl pr p fp ip req w3 = (Inr x, w')"
    by (auto simp: throwM_eq_iff r(2) split: card_status.splits)
  then show thesis using that [of r pl pr w3] r p' q' act by simp
qed

lemma activate_tx_safe: "activate_tx S now p lookup fp ip req w = (Inr x, w') \<Longrightarrow> sales_safe (w_db w) (w_db w')"
  by (erule activate_tx_commit) (metis activate_fresh_safe evolvesD sales_activate_bound)

subsection \<open>Binding a card to an account\<close>

lemma bind_card_tx_commit:
  assumes "bind_card_tx user lookup ip w = (Inr x, w')"
  obtains r u pl v v1 v2 where "r \<in> set (d_cards (w_db w))" "cd_lookup r = lookup" "cd_status r = CardUnused"
    "cd_kind r = ''license''" "cd_license r = None" "cd_user r = None" "u \<in> set (d_users (w_db w))" "eu_id u = eu_id user"
    "cd_product r = eu_product u" "pl \<in> set (d_plans (w_db w))" "pl_id pl = cd_plan r" "0 < pl_days pl"
    "w_db v = w_db w" "w_now v = w_now w" "mark_card_used_by_user (cd_id r) (eu_id user) v = (Inr (), v1)"
    "extend_end_user (eu_id user) (pl_days pl) v1 = (Inr x, v2)"
    "insert_end_user_log (Some (eu_id user)) (eu_username user) ''bind_card'' (Some (eu_product user)) (str_opt ip)
       [(''card_prefix'', JStr (cd_prefix r)), (''days'', JInt (pl_days pl)), (''new_expiry'', JTime x)] v2 = (Inr (), w')"
proof -
  from assms obtain u w1 c w2 y w3 pl w4 where
    u: "get_end_user (eu_id user) w = (Inr u, w1)" and c: "get_card_by_lookup lookup w1 = (Inr c, w2)" and
    chk: "check_bind_card u c w2 = (Inr y, w3)" and p: "get_plan (cd_plan c) w3 = (Inr pl, w4)" and
    run: "(if pl_days pl \<le> 0 then throwM (Dom ErrCardNotUsable)
      else seqM (mapErrM (\<lambda>_. Dom ErrCardNotUsable) (mark_card_used_by_user (cd_id c) (eu_id user)))
        (bindM (extend_end_user (eu_id user) (pl_days pl)) (\<lambda>e.
         seqM (insert_end_user_log (Some (eu_id user)) (eu_username user) ''bind_card'' (Some (eu_product user)) (str_opt ip)
            [(''card_prefix'', JStr (cd_prefix c)), (''days'', JInt (pl_days pl)), (''new_expiry'', JTime e)])
          (retM e)))) w4 = (Inr x, w')"
    unfolding bind_card_tx_def bindM_Inr_iff seqM_Inr_iff or_no_rows_Inr by blast
  obtain r where r: "r \<in> set (d_cards (w_db w1))" "c = card_view r" "cd_lookup r = lookup" "w_db w2 = w_db w1" "w_now w2 = w_now w1"
    using get_card_by_lookup_Inr [OF c] by blast
  have k: "cd_product r = eu_product u" "cd_kind r = ''license''" "cd_status r = CardUnused" "cd_license r = None"
    "cd_user r = None" "w3 = w2"
    using chk r(2) by (auto simp: check_bind_card_def throwM_eq_iff retM_eq_iff split: if_splits)
  note u' = get_row_Inr [OF u [unfolded get_end_user_def]] and p' = get_row_Inr [OF p [unfolded get_plan_def]]
  have days: "0 < pl_days pl" using run by (auto simp: throwM_eq_iff split: if_splits)
  from run days obtain v1 v2 where
    "mark_card_used_by_user (cd_id c) (eu_id user) w4 = (Inr (), v1)"
    "extend_end_user (eu_id user) (pl_days pl) v1 = (Inr x, v2)"
    "insert_end_user_log (Some (eu_id user)) (eu_username user) ''bind_card'' (Some (eu_product user)) (str_opt ip)
       [(''card_prefix'', JStr (cd_prefix c)), (''days'', JInt (pl_days pl)), (''new_expiry'', JTime x)] v2 = (Inr (), w')"
    by (auto simp: seqM_Inr_iff bindM_Inr_iff mapErrM_Inr retM_eq_iff)
  then show thesis using that [of r u pl w4 v1 v2] r k u' p' days by simp
qed

lemma mark_card_Inr:
  assumes "mark_card_used_by_user k user w = (Inr x, w')"
  shows "w_db w' = (w_db w)\<lparr>d_cards := upd (\<lambda>r. cd_id r = k \<and> cd_status r = CardUnused \<and> cd_license r = None \<and> cd_user r = None)
    (\<lambda>r. r\<lparr>cd_user := Some user, cd_status := CardDepleted, cd_activated := Some (pg_time (w_now w))\<rparr>) (d_cards (w_db w))\<rparr>
    \<and> w_now w' = w_now w"
  using db_exec_Inr [OF assms [unfolded mark_card_used_by_user_def]] by (auto simp: Let_def split: if_splits)

lemma bind_card_tx_safe:
  assumes "bind_card_tx user lookup ip w = (Inr x, w')"
  shows "sales_safe (w_db w) (w_db w')"
  using assms
proof (rule bind_card_tx_commit)
  fix r u pl v v1 v2
  assume r: "r \<in> set (d_cards (w_db w))" "cd_kind r = ''license''" and v: "w_db v = w_db w" and
    mark: "mark_card_used_by_user (cd_id r) (eu_id user) v = (Inr (), v1)" and
    ext: "extend_end_user (eu_id user) (pl_days pl) v1 = (Inr x, v2)" and
    log: "insert_end_user_log (Some (eu_id user)) (eu_username user) ''bind_card'' (Some (eu_product user)) (str_opt ip)
       [(''card_prefix'', JStr (cd_prefix r)), (''days'', JInt (pl_days pl)), (''new_expiry'', JTime x)] v2 = (Inr (), w')"
  have "sales_safe (w_db w) (w_db v1)"
  proof (rule sales_safeI)
    assume ok: "sales_ok (w_db w)"
    show "sales_safe (w_db w) (w_db v1)"
      unfolding mark_card_Inr [OF mark, THEN conjunct1] v
    proof (rule sales_upd_cards)
      fix c assume c: "c \<in> set (d_cards (w_db w))" "card_ok c" and
        p: "cd_id c = cd_id r \<and> cd_status c = CardUnused \<and> cd_license c = None \<and> cd_user c = None"
      have "c = r" using card_by_id [OF ok r(1) c(1)] p by simp
      then have "cd_kind c = ''license''" "cd_activated c = None" using r(2) c(2) p by (simp_all add: card_ok_def)
      with p show "card_same c (c\<lparr>cd_user := Some (eu_id user), cd_status := CardDepleted, cd_activated := Some (pg_time (w_now v))\<rparr>)"
        by (simp add: card_same_def card_ok_def card_next_def card_terminal_def)
    qed
  qed
  moreover have "evolves sales_safe (extend_end_user (eu_id user) (pl_days pl))" by (rule sales_frames)
  from evolvesD [OF this ext] have "sales_safe (w_db v1) (w_db v2)" .
  moreover have "evolves sales_safe (insert_end_user_log (Some (eu_id user)) (eu_username user) ''bind_card''
      (Some (eu_product user)) (str_opt ip)
       [(''card_prefix'', JStr (cd_prefix r)), (''days'', JInt (pl_days pl)), (''new_expiry'', JTime x)])"
    by (rule sales_frames)
  from evolvesD [OF this log] have "sales_safe (w_db v2) (w_db w')" .
  ultimately show ?thesis by (blast intro: sl.R_trans)
qed

subsection \<open>Actions of an administrator\<close>

lemma card_plan_target:
  "card_plan c action = Inr (Terminal to) \<Longrightarrow> to \<in> {CardRevoked, CardVoided}"
  "card_plan c action = Inr (Guarded from to) \<Longrightarrow> to = CardFrozen \<and> from = cd_status c \<and> from \<in> {CardUnused, CardActive} \<or>
     from = CardFrozen \<and> cd_status c = CardFrozen \<and> to = (if cd_activated c = None then CardUnused else CardActive)"
  by (auto simp: card_plan_def split: if_splits)

lemma sales_move_license: "evolves sales_safe (move_license ac lid action reason req)"
  unfolding move_license_def
  by (intro sl.rules sales_transition_license sales_license_terminal sales_event) (simp_all add: license_final_def)

lemma unfreeze_safe:
  assumes r: "r \<in> set (d_cards (w_db w))" "cd_status r = CardFrozen"
    and run: "transition_card_status (cd_id r) CardFrozen (if cd_activated r = None then CardUnused else CardActive) w = (Inr x, w')"
  shows "sales_safe (w_db w) (w_db w')"
proof (rule sales_safeI)
  assume ok: "sales_ok (w_db w)"
  show "sales_safe (w_db w) (w_db w')"
    unfolding update_cards_Inr [OF run [unfolded transition_card_status_def], THEN conjunct1]
  proof (rule sales_upd_cards)
    fix c assume c: "c \<in> set (d_cards (w_db w))" "card_ok c" and p: "cd_id c = cd_id r \<and> cd_status c = CardFrozen"
    have "c = r" using card_by_id [OF ok r(1) c(1)] p by simp
    then show "card_same c (cd_status_update (\<lambda>_. if cd_activated r = None then CardUnused else CardActive) c)"
      using c p by (cases "cd_license r"; cases "cd_activated r") (simp_all add: card_same_def card_ok_def card_next_def card_terminal_def)
  qed
qed

lemma card_action_tx_safe:
  assumes r: "r \<in> set (d_cards (w_db w))" "c = card_view r" and st: "card_plan c action = Inr st"
    and run: "card_action_tx ac c st action reason req w = (Inr x, w')"
  shows "sales_safe (w_db w) (w_db w')"
proof -
  from run obtain y w1 where mv: "move_card (cd_id c) st w = (Inr y, w1)" and
    lic: "(case cd_license c of None \<Rightarrow> retM () | Some lid \<Rightarrow> move_license ac lid action reason req) w1 = (Inr x, w')"
    unfolding card_action_tx_def seqM_Inr_iff by blast
  have "sales_safe (w_db w) (w_db w1)"
  proof (cases st)
    case (Terminal to)
    then show ?thesis using evolvesD [OF sales_to_terminal mv [unfolded Terminal move_card.simps]] card_plan_target(1) st by simp
  next
    case (Guarded frm to)
    then consider "to = CardFrozen" "frm \<in> {CardUnused, CardActive}"
      | "frm = CardFrozen" "cd_status r = CardFrozen" "to = (if cd_activated r = None then CardUnused else CardActive)"
      using card_plan_target(2) st r(2) by fastforce
    then show ?thesis
    proof cases
      case 1
      then show ?thesis using evolvesD [OF sales_freeze mv [unfolded Guarded move_card.simps 1]] by simp
    next
      case 2
      then show ?thesis using unfreeze_safe [OF r(1)] mv r(2) Guarded by simp
    qed
  qed
  moreover have "evolves sales_safe (case cd_license c of None \<Rightarrow> retM () | Some lid \<Rightarrow> move_license ac lid action reason req)"
    by (intro sl.rules sales_move_license)
  note evolvesD [OF this lic]
  ultimately show ?thesis by (rule sl.R_trans)
qed

end
