(* ===== verification/SalesOps.thy ===== *)
theory SalesOps
  imports SalesTx
begin

section \<open>Every service operation is safe for the tables of sales\<close>

text \<open>
  Operations that leave cards, licences and renewals alone are \<open>quiet\<close>; the others are put
  together from the statements and transactions of the two theories before. \<open>quiet_services\<close> and
  \<open>sales_services\<close> are the results a caller needs: whatever a service operation does, and however
  it fails, the database moves along \<open>sales_safe\<close>.
\<close>

subsection \<open>Operations that leave the three tables alone\<close>

abbreviation quiet :: "'a srv \<Rightarrow> bool" where
  "quiet m \<equiv> leaves sales m"

lemma leaves_lift: "leaves f (liftE r)" "leaves f fresh_id" "leaves f (check_password S pw phc)"
  by (simp_all add: check_password_def liftE_def evolves_def throwM_def retM_def fresh_id_def split: sum.splits)

lemma leaves_or_no_rows: "leaves f m \<Longrightarrow> leaves f (or_no_rows e m)"
  unfolding or_no_rows_def by (rule same.wrap)

lemma leaves_checks: "leaves f (refuse_banned kind val)" "leaves f (check_version ver low)"
  "leaves f (product_code_of pid)" "leaves f (only_super ac msg)" "leaves f (get_product_id_by_code code)"
  "leaves f (batch_plan plan_id pid)" "leaves f (agent_may_make ac pid)" "leaves f (hash_admin_password S pw)"
  "leaves f (hash_user_password S pw)" "leaves f (parse_user_token S tok)" "leaves f (heartbeat_reply S now lic dev pl)"
  "leaves f (resolve_session S tok)" "leaves f (user_reply S u code)" "leaves f (signed_device S ds named path body)"
  unfolding refuse_banned_def check_version_def product_code_of_def only_super_def get_product_id_by_code_def
    batch_plan_def agent_may_make_def require_grant_def hash_admin_password_def hash_user_password_def
    parse_user_token_def heartbeat_reply_def resolve_session_def user_reply_def signed_device_def
  by (intro same.store_rules leaves_lift leaves_or_no_rows)+

lemma leaves_import_seeds: "leaves f (import_seeds S pl pid kind seen pre raws)"
proof (induction raws arbitrary: seen pre)
  case (Cons raw raws)
  show ?case unfolding import_seeds.simps by (intro same.store_rules leaves_lift Cons)
qed (simp add: same.ret)

lemma leaves_batch_seeds: "leaves f (batch_seeds S pl pid kind pts)"
proof (induction pts)
  case (Cons pt pts)
  show ?case unfolding batch_seeds.simps by (intro same.store_rules leaves_lift Cons)
qed (simp add: same.ret)

lemma leaves_pick_code: "leaves f (pick_code es code)"
proof (induction es arbitrary: code)
  case (Cons e es)
  show ?case unfolding pick_code.simps by (intro same.store_rules Cons)
qed (simp add: same.ret)

lemmas quiet_rules = same.store_rules sales_leaves leaves_lift leaves_or_no_rows leaves_checks
  leaves_import_seeds leaves_batch_seeds leaves_pick_code

lemma quiet_helpers: "quiet (record_risk k s u t det)" "quiet (audit ac act tt tg b g det2 ip req)"
  "quiet (log_user uid name kind pid oip det)" "quiet (accept_device_seq dk n)" "quiet (open_session S who)"
  unfolding record_risk_def audit_def log_user_def accept_device_seq_def open_session_def
  by (intro quiet_rules)+

lemma quiet_checks: "quiet (check_activation_replay S ds pub ip)" "quiet (check_replay S dev ds ip scope)"
  "quiet (take_seat res)" "quiet (renew_seat lic dev pl)" "quiet (card_failure ip)" "quiet (user_signup_burst ip)"
  "quiet (login_failed who k s ip e)" "quiet (authenticate S who pw totp ip)" "quiet (check_machine u fp ip)"
  "quiet (charge_agent ac agent pl n b)"
  unfolding check_activation_replay_def check_replay_def check_seq_step_def seq_fallback_def take_seat_def
    renew_seat_def card_failure_def user_signup_burst_def login_failed_def authenticate_def check_machine_def
    charge_agent_def
  by (intro quiet_rules quiet_helpers)+

lemma quiet_client: "quiet (heartbeat S ds body ip)" "quiet (deactivate S ds body ip req)"
  "quiet (user_register S code name pw sec ip)" "quiet (user_sign_in S code name pw cs ip)"
  "quiet (user_change_password S tok old_pw new_pw)" "quiet (user_recover S code name sec new_pw ip)"
  unfolding heartbeat_def deactivate_def user_register_def user_sign_in_def user_change_password_def user_recover_def
  by (intro quiet_rules quiet_helpers quiet_checks)+

lemma quiet_auth: "quiet (admin_login S name pw totp ip req)" "quiet (bootstrap_admin S name pw totp)"
  "quiet (mfa_setup S ac)" "quiet (mfa_enable S ac code)" "quiet (mfa_disable S ac pw)"
  "quiet (admin_change_password S ac old_pw new_pw)"
  unfolding admin_login_def bootstrap_admin_def mfa_setup_def mfa_enable_def mfa_disable_def admin_change_password_def
  by (intro quiet_rules quiet_helpers quiet_checks)+

lemma quiet_admin: "quiet (svc_create_product entropy ac code name ip req)" "quiet (product_status ac k st ip req)"
  "quiet (svc_create_plan ac p ip req)" "quiet (list_agent_product_grants ac agent)"
  "quiet (set_agent_product_grant ac agent pid g ip req)" "quiet (get_agent_account ac agent)"
  "quiet (update_agent_account S ac agent k name pw ip req)" "quiet (svc_create_agent S ac name parent u pw ip req)"
  "quiet (agent_status ac k st ip req)" "quiet (create_admin S ac u disp pw role ag ip req)"
  "quiet (svc_set_admin_status ac k st ip req)" "quiet (create_ban ac kind val reason til ip req)"
  "quiet (delete_ban ac kind val ip req)" "quiet get_stats" "quiet (agent_adjust_balance ac agent amt note ip req)"
  "quiet (unbind_device ac did reason ip req)"
  unfolding svc_create_product_def product_status_def svc_create_plan_def list_agent_product_grants_def
    set_agent_product_grant_def get_agent_account_def update_agent_account_def reset_agent_password_def
    svc_create_agent_def agent_status_def create_admin_def svc_set_admin_status_def create_ban_def delete_ban_def
    get_stats_def agent_adjust_balance_def unbind_device_def
  by (intro quiet_rules quiet_helpers quiet_checks)+

lemmas quiet_services = quiet_client quiet_auth quiet_admin

subsection \<open>Operations that sell\<close>

lemmas quiet_safe = quiet_helpers [THEN sales_safe_leaves] quiet_checks [THEN sales_safe_leaves]
  quiet_services [THEN sales_safe_leaves] leaves_lift [where f = sales, THEN sales_safe_leaves]
  leaves_checks [where f = sales, THEN sales_safe_leaves]
  leaves_import_seeds [where f = sales, THEN sales_safe_leaves]
  leaves_batch_seeds [where f = sales, THEN sales_safe_leaves]

lemmas sale_rules = sl.store_rules sales_frames quiet_safe sales_create_batch sales_touch_policy
  sales_void_unused sales_card_note sales_license_note

lemma sales_activate: "evolves sales_safe (activate S body sig ip req)"
  unfolding activate_def by (intro sale_rules sl.tx) (erule activate_tx_safe)

lemma sales_redeem: "evolves sales_safe (redeem S body ds ip req)"
  unfolding redeem_def by (intro sale_rules sl.tx) (erule redeem_tx_safe)

lemma sales_bind_card: "evolves sales_safe (user_bind_card S tok input ip)"
  unfolding user_bind_card_def by (intro sale_rules sl.tx) (erule bind_card_tx_safe)

lemma sales_make_cards: "evolves sales_safe (import_cards S ac pid plan_id cards kind note ip req)"
  "evolves sales_safe (create_card_batch S entropy ac rq ip req)"
  unfolding import_cards_def create_card_batch_def by (intro sale_rules)+

lemma sales_plans: "evolves sales_safe (svc_update_plan ac k p ip req)" "evolves sales_safe (svc_delete_plan ac k ip req)"
  "evolves sales_safe (plan_status ac k st ip req)"
  unfolding svc_update_plan_def svc_delete_plan_def plan_status_def by (intro sale_rules)+

lemma sales_notes: "evolves sales_safe (admin_set_license_note ac k note ip req)"
  "evolves sales_safe (admin_set_card_note ac k note ip req)"
  unfolding admin_set_license_note_def admin_set_card_note_def by (intro sale_rules)+

lemma sales_admin_extend: "evolves sales_safe (admin_extend_license ac k days reason ip req)"
proof (cases "days \<le> 0 \<or> days > 36500")
  case False
  then show ?thesis unfolding admin_extend_license_def by (auto intro!: sale_rules sales_extend)
qed (simp add: admin_extend_license_def sl.ret)

text \<open>What was decided before the step is known in the step.\<close>

context db_preorder
begin

lemma lift_then: "(\<And>x. r = Inr x \<Longrightarrow> evolves R (f x)) \<Longrightarrow> evolves R (bindM (liftE r) f)"
  by (cases r) (simp_all add: liftE_def ret)

lemma lift_at: "(\<And>x. r = Inr x \<Longrightarrow> R (w_db w) (w_db (snd (f x w)))) \<Longrightarrow> R (w_db w) (w_db (snd (bindM (liftE r) f w)))"
  by (cases r) (simp_all add: liftE_def throwM_def bindM_def retM_def R_refl)

lemma if_at: "(b \<Longrightarrow> R (w_db w) (w_db (snd (m w)))) \<Longrightarrow> (\<not> b \<Longrightarrow> R (w_db w) (w_db (snd (n w)))) \<Longrightarrow>
    R (w_db w) (w_db (snd ((if b then m else n) w)))"
  by simp

lemma throw_at: "R (w_db w) (w_db (snd (throwM e w)))"
  by (simp add: throwM_def R_refl)

lemmas at_rules = lift_at if_at throw_at seq_at

end

lemma license_plan_target:
  "license_plan l action = Inr to \<Longrightarrow> action = ''freeze'' \<or> action = ''unfreeze'' \<Longrightarrow> \<not> license_final (li_status l)"
  by (auto simp: license_plan_def license_final_def split: if_splits)

lemma sales_license_action_tx:
  assumes "license_plan l action = Inr to"
  shows "evolves sales_safe (license_action_tx ac l to action reason req)"
proof (cases "action = ''freeze'' \<or> action = ''unfreeze''")
  case True
  then show ?thesis using sales_transition_license [OF license_plan_target [OF assms True]]
    by (simp add: license_action_tx_def)
next
  case False
  then show ?thesis unfolding license_action_tx_def
    by (auto simp: card_target_def intro!: sl.seq sales_license_terminal sales_to_terminal sales_event)
qed

lemma sales_license_action: "evolves sales_safe (license_action ac k action reason ip req)"
  unfolding license_action_def
  by (intro sl.bind sl.lift_then sale_rules sales_license_action_tx)

lemma sales_card_action: "evolves sales_safe (card_action ac k action reason ip req)"
  unfolding card_action_def
proof (rule sl.bind_run)
  fix w c w'
  assume run: "get_card_by_id k w = (Inr c, w')"
  obtain r where r: "r \<in> set (d_cards (w_db w))" "c = card_view r" and db: "w_db w' = w_db w"
    using get_card_by_id_Inr [OF run] by blast
  show "sales_safe (w_db w) (w_db (snd ((if agent_denied ac (cd_agent c) then throwM (Dom ErrCardNotFound)
    else bindM (liftE (card_plan c action)) (\<lambda>st.
      seqM (with_tx (card_action_tx ac c st action reason req))
        (audit ac (''card.'' @ action) ''card'' (cd_id c)
          (status_snapshot (card_status_str (cd_status c))) (status_snapshot (card_status_str (step_target st)))
          (SMap [(''reason'', JStr reason), (''prefix'', JStr (cd_prefix c))]) ip req))) w')))"
    unfolding db [symmetric] by (intro sl.at_rules sl.tx_at quiet_safe) (rule card_action_tx_safe; use r db in simp)
qed (rule sl.store_reads)

lemmas sales_services = quiet_services [THEN sales_safe_leaves] sales_activate sales_redeem sales_bind_card
  sales_make_cards sales_plans sales_notes sales_admin_extend sales_license_action sales_card_action

end
