(* ===== verification/Server.thy ===== *)
theory Server
  imports AdminRouter ClientApi SalesOps
begin

section \<open>Server: start, sweep, and the steps of a running deployment\<close>

text \<open>
  \<open>cmd/server/main.go\<close> and \<open>cmd/worker/main.go\<close>: what a start does to the database, the worker's
  sweep, and a transition relation over the state all of them share. Besides the requests, the
  environment steps: time passes, Redis loses or changes anything, the network decides anew
  which calls fail. The relation is as wide as the code allows; what holds on every run of it
  holds of the deployment.
\<close>

subsection \<open>Starting\<close>

definition kex_pair_from_seed :: "string \<Rightarrow> string \<Rightarrow> error + kex_key" where
  "kex_pair_from_seed kid seed = (if length seed \<noteq> 32 then Inl (Text ''envelope: seed must be 32 bytes'')
     else Inr \<lparr>kk_kid = kid, kk_priv = seed, kk_active = False\<rparr>)"

fun start_kex :: "prims \<Rightarrow> kex_conf list \<Rightarrow> kex_key list srv" where
  "start_kex P [] = retM []"
| "start_kex P (k # ks) = bindM (liftE (kex_pair_from_seed (kc_kid k) (kc_seed k))) (\<lambda>p0.
     let p = p0\<lparr>kk_active := kc_active k\<rparr> in
     seqM (upsert_kex_key (kk_kid p) (b64_encode (kex_pub P p)) alg_gcm (kk_active p))
       (bindM (start_kex P ks) (\<lambda>ps. retM (p # ps))))"

definition ensure_initial_admin :: "svc \<Rightarrow> site \<Rightarrow> unit srv" where
  "ensure_initial_admin S site = bindM count_admins (\<lambda>n. let cfg = si_cfg site in
     if n > 0 then retM ()
     else if c_init_user cfg = [] \<or> c_init_password cfg = [] then throwM (Text ''no admins exist; set VFT_INITIAL_ADMIN_USER / VFT_INITIAL_ADMIN_PASSWORD to bootstrap'')
     else bindM (bootstrap_admin S (c_init_user cfg) (c_init_password cfg) (c_init_totp cfg)) (\<lambda>_. retM ()))"

text \<open>The signing keys as the map the signer is given: a later key of the same id replaces.\<close>

definition key_map :: "(string \<times> string) list \<Rightarrow> (string \<times> string) list" where
  "key_map ks = fold (\<lambda>(kid, seed). AList.update kid (b64_encode seed)) ks []"

definition start_server :: "prims \<Rightarrow> site \<Rightarrow> svc srv" where
  "start_server P site = (let cfg = si_cfg site in
     bindM (liftE (new_local_signer P (key_map (c_sign_keys cfg)) (c_sign_active cfg))) (\<lambda>sg.
     bindM (start_kex P (c_kex_keys cfg)) (\<lambda>kex. let S = new_services P cfg sg kex in
       seqM (ensure_initial_admin S site) (retM S))))"

text \<open>In production the client API is not served without TLS, here or at a trusted proxy.\<close>

definition may_listen :: "site \<Rightarrow> bool \<Rightarrow> bool" where
  "may_listen site tls_proxy \<longleftrightarrow>
     \<not> (c_env (si_cfg site) = ''prod'' \<and> c_tls_cert (si_cfg site) = [] \<and> \<not> tls_proxy)"

subsection \<open>The worker\<close>

definition run_sweep :: "unit srv" where
  "run_sweep = seqM (ignoreM reap_sessions) (ignoreM mark_expired_license_events)"

subsection \<open>Steps\<close>

record server =
  sr_world :: world
  sr_limits :: limiter

inductive step :: "svc \<Rightarrow> site \<Rightarrow> server \<Rightarrow> server \<Rightarrow> bool" for S site where
  client: "serve_client S site (sr_limits s) rq (sr_world s) = (Inr (r, l), w) \<Longrightarrow>
    step S site s (s\<lparr>sr_world := w, sr_limits := l\<rparr>)"
| back_office: "serve_admin S site en rq (sr_world s) = (r, w) \<Longrightarrow> step S site s (s\<lparr>sr_world := w\<rparr>)"
| sweep: "run_sweep (sr_world s) = (r, w) \<Longrightarrow> step S site s (s\<lparr>sr_world := w\<rparr>)"
| restart: "start_server (sv_prims S) site (sr_world s) = (r, w) \<Longrightarrow>
    step S site s (s\<lparr>sr_world := w, sr_limits := new_limiter\<rparr>)"
| time_passes: "w_now (sr_world s) \<le> t \<Longrightarrow> step S site s (s\<lparr>sr_world := (sr_world s)\<lparr>w_now := t\<rparr>\<rparr>)"
| cache_changes: "step S site s (s\<lparr>sr_world := (sr_world s)\<lparr>w_cache := c\<rparr>\<rparr>)"
| network: "step S site s (s\<lparr>sr_world := (sr_world s)\<lparr>w_db_faults := fs, w_redis_faults := gs\<rparr>\<rparr>)"

inductive_cases stepE: "step S site s t"

abbreviation runs_to :: "svc \<Rightarrow> site \<Rightarrow> server \<Rightarrow> server \<Rightarrow> bool" where
  "runs_to S site \<equiv> (step S site)\<^sup>*\<^sup>*"

definition sr_db :: "server \<Rightarrow> db" where
  "sr_db s = w_db (sr_world s)"

subsection \<open>Preorders through the HTTP layer\<close>

context db_preorder
begin

lemma answers: "evolves R m \<Longrightarrow> (\<And>x. evolves R (k x)) \<Longrightarrow> evolves R (answer cx m k)"
  "evolves R (bad_request cx)" "evolves R (refuse cx st code)" "evolves R (ok_body y)" "evolves R (send p)"
  "evolves R (created p)" "evolves R (no_route b)" "evolves R (no_admin_route es path)"
  unfolding answer_def bad_request_def refuse_def ok_body_def send_def created_def no_route_def no_admin_route_def
  by (intro rules | assumption)+

lemma decoded: "(\<And>x. evolves R (k x)) \<Longrightarrow> evolves R (with_json bound fs r rq cx k)"
  "(\<And>x. evolves R (h x)) \<Longrightarrow> evolves R (with_text name rq cx h)"
  "(\<And>body ds. evolves R (j body ds)) \<Longrightarrow> evolves R (with_signed_body bound rq cx j)"
  "(\<And>u. evolves R (g u)) \<Longrightarrow> evolves R (with_user_req bound rq cx g)"
  unfolding with_json_def with_text_def with_signed_body_def with_user_req_def
  by (auto intro!: answers split: option.splits)

lemma limited: "evolves R (cache_rate_limit key n)" "evolves R next \<Longrightarrow> evolves R (scope_limited l scope n cx next)"
  "evolves R next \<Longrightarrow> evolves R (unless_banned cx next)" "evolves R (refresh_limits l)"
  "evolves R m \<Longrightarrow> evolves R (recover m)" "evolves R (fresh_id)" "evolves R (request_id rq)"
  "(\<And>cx. evolves R (h cx)) \<Longrightarrow> evolves R (with_context nets rq h)"
  unfolding cache_rate_limit_def scope_limited_def unless_banned_def refresh_limits_def recover_def request_id_def
    with_context_def Let_def
  by (intro store_rules answers | assumption | (simp add: evolves_def fresh_id_def R_refl; fail))+

lemmas http_rules = store_rules answers decoded limited

end

subsection \<open>Through the router\<close>

definition entry_evolves :: "(db \<Rightarrow> db \<Rightarrow> bool) \<Rightarrow> access \<Rightarrow> bool" where
  "entry_evolves R a = (case a of Public h \<Rightarrow> (\<forall>cx. evolves R (h cx))
     | Session h \<Rightarrow> (\<forall>x ac cx. evolves R (h x ac cx)) | Needs p h \<Rightarrow> (\<forall>x ac cx. evolves R (h x ac cx)))"

lemma find_route_in: "find_route m path es = Some (a, x) \<Longrightarrow> a \<in> (\<lambda>(m, p, a). a) ` set es"
  by (induction es) (force split: option.splits if_splits)+

context db_preorder
begin

lemma session: "(\<And>ac cx. evolves R (h ac cx)) \<Longrightarrow> evolves R (require_admin_session S rq h cx)"
  unfolding require_admin_session_def resolve_session_def by (intro http_rules)

lemma perm: "(\<And>ac cx. evolves R (h ac cx)) \<Longrightarrow> evolves R (require_perm p h ac cx)"
  unfolding require_perm_def by (intro http_rules)

lemma routed:
  assumes "list_all (\<lambda>(m, p, a). entry_evolves R a) (admin_routes S site en rq)"
  shows "evolves R (serve_admin S site en rq)"
proof -
  have "evolves R (run_access S rq a x cx)" if "find_route m path (admin_routes S site en rq) = Some (a, x)" for m path a x cx
    using find_route_in [OF that] assms unfolding run_access_def list_all_iff entry_evolves_def
    by (cases a) (fastforce intro!: session perm)+
  then show ?thesis unfolding serve_admin_def dispatch_admin_def Let_def
    by (intro limited) (auto split: option.splits intro!: answers)
qed

end

end
