(* ===== verification/Demo.thy ===== *)
theory Demo
  imports Server
begin

section \<open>Demo: a small deployment for concrete runs\<close>

text \<open>
  A database with one sold card, its licence, a used renewal card, and an administrator of each
  kind with a live session; a site with the default limits; requests. The closed instances of the
  properties run on them.
\<close>

definition sold_card :: card where
  "sold_card = \<lparr>cd_id = ''c1'', cd_batch = ''b'', cd_agent = Some ''a'', cd_product = ''p'', cd_plan = ''pl'', cd_lookup = ''x1'',
     cd_secret = None, cd_prefix = ''AAAAA'', cd_kind = ''license'', cd_status = CardActive, cd_uses_total = 0,
     cd_uses_left = 0, cd_license = Some ''l1'', cd_user = None, cd_activated = Some 0, cd_by = ''adm'', cd_note = None,
     cd_created = 0\<rparr>"

definition used_renewal_card :: card where
  "used_renewal_card = sold_card\<lparr>cd_id := ''c2'', cd_lookup := ''x2'', cd_kind := ''renewal'', cd_status := CardDepleted,
     cd_license := None, cd_activated := None\<rparr>"

definition sold_license :: license where
  "sold_license = \<lparr>li_id = ''l1'', li_product = ''p'', li_plan = ''pl'', li_agent = Some ''a'', li_card = ''c1'',
     li_status = LicenseActive, li_uses = None, li_activated = 0, li_expires = Some day, li_policy = 1, li_note = None,
     li_created = 0, li_updated = 0\<rparr>"

definition sold_db :: db where
  "sold_db = empty_db\<lparr>d_cards := [sold_card, used_renewal_card], d_licenses := [sold_license],
     d_renewals := [\<lparr>rn_license = ''l1'', rn_card = ''c2'', rn_days = 30, rn_old = None, rn_new = Some day, rn_created = 0\<rparr>]\<rparr>"

definition demo_server :: server where
  "demo_server = \<lparr>sr_world = demo_world sold_db, sr_limits = new_limiter\<rparr>"

definition demo_site :: site where
  "demo_site = \<lparr>si_cfg = \<lparr>c_env = ''dev'', c_client_addr = [], c_admin_addr = [], c_metrics_addr = [], c_database = [],
     c_redis = [], c_sign_keys = [], c_sign_active = [], c_kex_keys = [], c_hmac_key = [], c_enc_keys = [],
     c_enc_active = [], c_session_ttl = 28800 * second, c_cookie_secure = False, c_init_user = [], c_init_password = [],
     c_init_totp = [], c_activate_rpm = 10, c_login_rpm = 10, c_heartbeat_rpm = 30, c_bootstrap_rpm = 60,
     c_replay_window = 300 * second, c_skew = 120 * second, c_proxies = [], c_log_level = [], c_tls_cert = [],
     c_tls_key = []\<rparr>, si_time = (\<lambda>_. None)\<rparr>"

definition demo_admin :: "string \<Rightarrow> string \<Rightarrow> string option \<Rightarrow> admin" where
  "demo_admin key role agent = \<lparr>ad_id = key, ad_username = key, ad_password = [], ad_display = key, ad_role = role,
     ad_agent = agent, ad_totp = None, ad_mfa = False, ad_status = ''active'', ad_failed = 0, ad_locked = None,
     ad_must_change = False, ad_created = 0, ad_last_login = None\<rparr>"

definition demo_request :: "string \<Rightarrow> string \<Rightarrow> http_request" where
  "demo_request m p = \<lparr>hq_method = m, hq_path = p, hq_query = [], hq_remote = ''10.0.0.1:5'', hq_header = (\<lambda>_. []),
     hq_cookie = None, hq_body = []\<rparr>"

text \<open>Agent \<open>b\<close> and a superadmin are signed in, with the session tokens \<open>tb\<close> and \<open>tt\<close>.\<close>

definition demo_session :: "string \<Rightarrow> string \<Rightarrow> admin_session" where
  "demo_session who tok = \<lparr>se_id = tok, se_admin = who, se_token = token_hash demo_svc tok, se_csrf = ''x'', se_mfa = True,
     se_expires = 1800000000 * second, se_revoked = None\<rparr>"

definition office_db :: db where
  "office_db = sold_db\<lparr>d_admins := [demo_admin ''b1'' ''agent'' (Some ''b''), demo_admin ''boss'' ''superadmin'' None],
     d_sessions := [demo_session ''b1'' ''tb'', demo_session ''boss'' ''tt'']\<rparr>"

definition signed_request :: "string \<Rightarrow> string \<Rightarrow> string \<Rightarrow> string \<Rightarrow> http_request" where
  "signed_request tok m p body = (demo_request m p)\<lparr>hq_cookie := Some tok, hq_header := (\<lambda>_. ''x''), hq_body := body\<rparr>"

text \<open>A run: the network fails the next statement, the worker sweeps, a day passes.\<close>

definition demo_end :: server where
  "demo_end = (let w = (sr_world demo_server)\<lparr>w_db_faults := [Lost], w_redis_faults := []\<rparr>; w' = snd (run_sweep w) in
     demo_server\<lparr>sr_world := w'\<lparr>w_now := w_now w' + day\<rparr>\<rparr>)"

lemma demo_run: "runs_to S site demo_server demo_end"
proof -
  let ?s1 = "demo_server\<lparr>sr_world := (sr_world demo_server)\<lparr>w_db_faults := [Lost], w_redis_faults := []\<rparr>\<rparr>"
  let ?s2 = "?s1\<lparr>sr_world := snd (run_sweep (sr_world ?s1))\<rparr>"
  have "step S site demo_server ?s1" by (rule network)
  moreover have "step S site ?s1 ?s2" by (rule sweep) (rule prod.collapse [symmetric])
  moreover have "step S site ?s2 demo_end"
    using time_passes [of ?s2 "w_now (sr_world ?s2) + day" S site] by (simp add: demo_end_def Let_def day_def second_def)
  ultimately show ?thesis by (meson converse_rtranclp_into_rtranclp rtranclp.rtrancl_refl)
qed

lemma demo_end_sales: "d_cards (sr_db demo_end) = [sold_card, used_renewal_card]"
  "d_licenses (sr_db demo_end) = [sold_license]"
  by (simp_all add: demo_end_def sr_db_def demo_server_def demo_world_def run_sweep_def mdefs reap_sessions_def
      mark_expired_license_events_def db_exec_def db_step_def Let_def sold_db_def empty_db_def)

end
