(* ===== verification/Access.thy ===== *)
theory Access
  imports Demo
begin

section \<open>Access: what the back office lets through\<close>

text \<open>
  Who may use an admin route, stated on the rows of the database (\<open>admin_may\<close>), and that the
  middlewares enforce it: \<open>admin_access\<close>. Every answer passes \<open>recover\<close>, so every request gets one
  (\<open>admin_answered\<close>, \<open>client_answered\<close>).
\<close>

subsection \<open>Through the outer middlewares\<close>

lemma fresh_id_run: "fresh_id w = (r, w') \<Longrightarrow> (\<exists>x. r = Inr x) \<and> w_db w' = w_db w \<and> w_now w' = w_now w"
  by (auto simp: fresh_id_def)

lemma request_id_run: "request_id rq w = (r, w') \<Longrightarrow> (\<exists>x. r = Inr x) \<and> w_db w' = w_db w \<and> w_now w' = w_now w"
  by (auto simp: request_id_def Let_def retM_def dest: fresh_id_run split: if_splits)

lemma with_context_run:
  assumes "with_context nets rq next w = (r, w')"
  obtains cx v r0 where "next cx v = (r0, w')" "w_db v = w_db w" "w_now v = w_now w"
    "r = Inr (case r0 of Inr x \<Rightarrow> x | Inl e \<Rightarrow> error_writer \<lparr>hc_rid = [], hc_ip = [], hc_admin = None\<rparr> 500 ''INTERNAL'')"
proof -
  obtain q v where q: "request_id rq w = (q, v)" by fastforce
  from request_id_run [OF q] obtain rid where rid: "q = Inr rid" "w_db v = w_db w" "w_now v = w_now w" by blast
  obtain r0 w0 where n: "next \<lparr>hc_rid = rid, hc_ip = real_ip nets rq, hc_admin = None\<rparr> v = (r0, w0)" by fastforce
  have "w0 = w'" "r = Inr (case r0 of Inr x \<Rightarrow> x | Inl e \<Rightarrow> error_writer \<lparr>hc_rid = [], hc_ip = [], hc_admin = None\<rparr> 500 ''INTERNAL'')"
    using assms q n rid(1) by (auto simp: with_context_def recover_def mdefs split: sum.splits)
  with that n rid(2,3) show ?thesis by blast
qed

subsection \<open>Through the session and permission checks\<close>

text \<open>The session and the administrator a request is made with.\<close>

definition granted :: "svc \<Rightarrow> http_request \<Rightarrow> time \<Rightarrow> admin_session \<Rightarrow> admin \<Rightarrow> bool" where
  "granted S rq t s a \<longleftrightarrow> (case hq_cookie rq of None \<Rightarrow> False | Some tok \<Rightarrow>
     tok \<noteq> [] \<and> session_live t (token_hash S tok) s \<and> ad_id a = se_admin s \<and> ad_status a = ''active'' \<and>
     (read_method (hq_method rq) \<or>
       hq_header rq ''X-CSRF-Token'' \<noteq> [] \<and> hq_header rq ''X-CSRF-Token'' = se_csrf s) \<and>
     (ad_must_change a \<longrightarrow> hq_path rq \<in> set allowed_before_password_change))"

definition signed_in :: "svc \<Rightarrow> http_request \<Rightarrow> time \<Rightarrow> db \<Rightarrow> (admin \<Rightarrow> bool) \<Rightarrow> bool" where
  "signed_in S rq t d ok \<longleftrightarrow>
     list_ex (\<lambda>s. list_ex (\<lambda>a. granted S rq t s a \<and> ok a) (d_admins d)) (d_sessions d)"

fun access_given :: "svc \<Rightarrow> http_request \<Rightarrow> time \<Rightarrow> db \<Rightarrow> access \<Rightarrow> bool" where
  "access_given S rq t d (Public h) = True"
| "access_given S rq t d (Session h) = signed_in S rq t d (\<lambda>_. True)"
| "access_given S rq t d (Needs p h) = signed_in S rq t d (\<lambda>a. role_allows a p)"

definition admin_may :: "svc \<Rightarrow> site \<Rightarrow> nat list list \<Rightarrow> http_request \<Rightarrow> time \<Rightarrow> db \<Rightarrow> bool" where
  "admin_may S site en rq t d = (case find_route (hq_method rq) (hq_path rq) (admin_routes S site en rq) of
     None \<Rightarrow> False | Some (a, x) \<Rightarrow> access_given S rq t d a)"

lemma resolve_session_run:
  assumes "resolve_session S tok w = (Inr ac, w')"
  shows "ac_session ac \<in> set (d_sessions (w_db w)) \<and> session_live (pg_time (w_now w)) (token_hash S tok) (ac_session ac) \<and>
    ac_admin ac \<in> set (d_admins (w_db w)) \<and> ad_id (ac_admin ac) = se_admin (ac_session ac) \<and>
    ad_status (ac_admin ac) = ''active'' \<and> w_db w' = w_db w \<and> w_now w' = w_now w"
proof -
  from assms obtain s v a where s: "get_session_by_token_hash (token_hash S tok) w = (Inr s, v)"
    and a: "get_admin (se_admin s) v = (Inr a, w')" and ok: "ad_status a = ''active''" "ac = \<lparr>ac_session = s, ac_admin = a\<rparr>"
    unfolding resolve_session_def
    by (auto simp: mapErrM_def bindM_Inr_iff retM_eq_iff throwM_eq_iff split: prod.splits sum.splits if_splits)
  show ?thesis
    using s a ok unfolding get_session_by_token_hash_def get_admin_def
    by (auto dest!: db_one_Inr [where f = "\<lambda>t d. find (session_live t (token_hash S tok)) (d_sessions d)"] get_row_Inr find_Some_in)
qed

definition turned_away :: "'p http_response \<Rightarrow> bool" where
  "turned_away r \<longleftrightarrow> hs_status r \<in> {401, 403, 404, 405} \<and> hs_body r = None \<and> hs_cookie r = None"

lemma turned_away_writer: "st \<in> {401, 403, 404, 405} \<Longrightarrow> turned_away (error_writer cx st code)"
  by (simp add: turned_away_def error_writer_def)

text \<open>Either the request is refused and nothing changed, or the handler runs for a session that grants it.\<close>

lemma require_session_run:
  assumes "require_admin_session S rq next cx w = (r, w')"
  shows "(\<exists>resp. r = Inr resp \<and> turned_away resp \<and> w_db w' = w_db w) \<or>
    (\<exists>ac v. next ac (cx\<lparr>hc_admin := Some ac\<rparr>) v = (r, w') \<and> w_db v = w_db w \<and>
      ac_session ac \<in> set (d_sessions (w_db w)) \<and> ac_admin ac \<in> set (d_admins (w_db w)) \<and>
      granted S rq (pg_time (w_now w)) (ac_session ac) (ac_admin ac))"
proof (cases "\<exists>tok. hq_cookie rq = Some tok \<and> tok \<noteq> []")
  case False
  then have "r = Inr (error_writer cx 401 ''UNAUTHORIZED'') \<and> w' = w"
    using assms by (auto simp: require_admin_session_def refuse_def retM_def split: option.splits if_splits)
  then show ?thesis by (simp add: turned_away_writer)
next
  case True
  then obtain tok where tok: "hq_cookie rq = Some tok" "tok \<noteq> []" by blast
  obtain q v where q: "resolve_session S tok w = (q, v)" by fastforce
  have db: "w_db v = w_db w" using evolvesD [OF leaves_checks(12) [where f = "\<lambda>d. d"] q] .
  show ?thesis
  proof (cases q)
    case (Inl e)
    then have "r = Inr (error_writer cx 401 ''UNAUTHORIZED'') \<and> w' = v"
      using assms tok q by (simp add: require_admin_session_def refuse_def mdefs)
    then show ?thesis by (simp add: turned_away_writer db)
  next
    case (Inr ac)
    note ses = resolve_session_run [OF q [unfolded Inr]]
    consider "\<exists>code. r = Inr (error_writer cx 403 code) \<and> w' = v"
      | "(read_method (hq_method rq) \<or> check_csrf ac (hq_header rq ''X-CSRF-Token'') = Inr ())"
        "ad_must_change (ac_admin ac) \<longrightarrow> hq_path rq \<in> set allowed_before_password_change"
        "next ac (cx\<lparr>hc_admin := Some ac\<rparr>) v = (r, w')"
      using assms tok q Inr by (auto simp: require_admin_session_def refuse_def mdefs split: if_splits)
    then show ?thesis
    proof cases
      case 1
      then show ?thesis by (auto simp: turned_away_writer db)
    next
      case 2
      with ses tok show ?thesis
        by (intro disjI2 exI [of _ ac] exI [of _ v]) (auto simp: granted_def check_csrf_def split: if_splits)
    qed
  qed
qed

lemma require_perm_run:
  assumes "require_perm p next ac cx w = (r, w')"
  shows "(\<exists>resp. r = Inr resp \<and> turned_away resp \<and> w_db w' = w_db w) \<or> role_allows (ac_admin ac) p \<and> next ac cx w = (r, w')"
  using assms by (auto simp: require_perm_def refuse_def retM_def turned_away_writer split: if_splits)

lemma run_access_run:
  assumes "run_access S rq a x cx w = (r, w')" "\<not> access_given S rq (pg_time (w_now w)) (w_db w) a"
  shows "\<exists>resp. r = Inr resp \<and> turned_away resp \<and> w_db w' = w_db w"
proof (cases a)
  case (Public h)
  then show ?thesis using assms(2) by simp
next
  case (Session h)
  then show ?thesis
    using require_session_run [of S rq "h x" cx w r w'] assms by (auto simp: run_access_def signed_in_def list_ex_iff)
next
  case (Needs p h)
  then show ?thesis
    using require_session_run [of S rq "require_perm p (h x)" cx w r w'] assms
    by (fastforce simp: run_access_def signed_in_def list_ex_iff dest!: require_perm_run)
qed

subsection \<open>The properties\<close>

text \<open>C6. The back office is closed to everyone it does not know: unless a request comes with the token
  of a live session of an active administrator, carries that session's CSRF token when it is not a read,
  is on the short list when the administrator still has to change the first password, and the role has the
  permission of its route (\<open>admin_may\<close>; logging in and out are public), the answer is 401, 403, 404 or 405
  with no body and no cookie, and the database is the same afterwards.\<close>
theorem admin_access:
  assumes "serve_admin S site en rq w = (r, w')"
    and "\<not> admin_may S site en rq (pg_time (w_now w)) (w_db w)"
  shows "w_db w' = w_db w \<and> (\<exists>resp. r = Inr resp \<and> turned_away resp)"
proof -
  obtain cx v r0 where run: "dispatch_admin S site en rq cx v = (r0, w')" "w_db v = w_db w" "w_now v = w_now w"
    and r: "r = Inr (case r0 of Inr x \<Rightarrow> x | Inl e \<Rightarrow> error_writer \<lparr>hc_rid = [], hc_ip = [], hc_admin = None\<rparr> 500 ''INTERNAL'')"
    by (rule with_context_run [OF assms(1) [unfolded serve_admin_def]])
  have "\<exists>resp. r0 = Inr resp \<and> turned_away resp \<and> w_db w' = w_db v"
  proof (cases "find_route (hq_method rq) (hq_path rq) (admin_routes S site en rq)")
    case None
    then show ?thesis using run(1)
      by (auto simp: dispatch_admin_def Let_def no_admin_route_def retM_def turned_away_def)
  next
    case (Some p)
    obtain a x where p: "p = (a, x)" by fastforce
    show ?thesis
      by (rule run_access_run [where a = a and x = x]) (use run Some p assms(2) in \<open>simp_all add: dispatch_admin_def Let_def admin_may_def\<close>)
  qed
  then show ?thesis using r run(2) by auto
qed

lemma find_route_entry: "find_route m path es = Some (a, x) \<Longrightarrow> \<exists>p. (m, p, a) \<in> set es"
  by (induction es) (force split: option.splits if_splits)+

lemma public_routes:
  assumes "find_route m path (admin_routes S site en rq) = Some (Public h, x)"
  shows "m = ''POST''"
  using find_route_entry [OF assms]
  by (auto simp: admin_routes_def account_routes_def card_routes_def agent_routes_def site_routes_def)

lemma admin_access_witness:
  "w_db (snd (serve_admin demo_svc demo_site [] (demo_request ''GET'' ''/admin/v1/stats'') (demo_world sold_db))) = sold_db"
proof -
  let ?rq = "demo_request ''GET'' ''/admin/v1/stats''"
  obtain r w' where run: "serve_admin demo_svc demo_site [] ?rq (demo_world sold_db) = (r, w')" by fastforce
  have "\<not> access_given demo_svc ?rq t d a" if "find_route ''GET'' path (admin_routes demo_svc demo_site [] ?rq) = Some (a, x)"
    for t d a x path using that public_routes
    by (cases a) (fastforce simp: signed_in_def granted_def demo_request_def list_ex_iff)+
  then have "\<not> admin_may demo_svc demo_site [] ?rq t d" for t d
    by (auto simp: admin_may_def demo_request_def split: option.splits)
  with admin_access [OF run] run show ?thesis by (simp add: demo_world_def)
qed

end
