(* ===== verification/Responses.thy ===== *)
theory Responses
  imports Access
begin

section \<open>Responses: what every answer looks like\<close>

text \<open>
  \<open>proper m\<close>: every answer of \<open>m\<close> is a 200 or 201 with a body, or one of the listed refusals with
  none. It composes along the monad from its last operation, so each handler has it by its shape.
\<close>

definition response_ok :: "'p http_response \<Rightarrow> bool" where
  "response_ok r \<longleftrightarrow>
     (if hs_status r = 200 \<or> hs_status r = 201 then hs_body r \<noteq> None \<and> hs_error r = None
      else hs_status r \<in> {400, 401, 403, 404, 405, 409, 423, 426, 429, 500} \<and> hs_body r = None \<and>
        hs_cookie r = None \<and> (hs_error r = None \<longrightarrow> hs_status r = 404 \<or> hs_status r = 405))"

definition proper :: "'p http_response srv \<Rightarrow> bool" where
  "proper m \<longleftrightarrow> (\<forall>w. case fst (m w) of Inl e \<Rightarrow> True | Inr r \<Rightarrow> response_ok r)"

lemma properI: "(\<And>w r w'. m w = (Inr r, w') \<Longrightarrow> response_ok r) \<Longrightarrow> proper m"
  unfolding proper_def by (auto split: sum.splits) (metis prod.collapse)

lemma properD: "proper m \<Longrightarrow> m w = (Inr r, w') \<Longrightarrow> response_ok r"
  unfolding proper_def by (metis fst_conv sum.case(2))

lemma proper_ends: "proper (throwM e)" "proper (bad_request cx)" "proper (ok_body x)" "proper (send p)" "proper (created p)"
  "proper (retM (write_json 200 q))" "proper (no_route b)" "proper (no_admin_route es path)"
  "proper (retM (session_cookie site tok (write_json 200 p)))" "proper (retM ((write_json 200 j)\<lparr>hs_cookie := Some c\<rparr>))"
  by (rule properI, auto simp: response_ok_def write_json_def error_writer_def session_cookie_def bad_request_def ok_body_def
      send_def created_def no_route_def no_admin_route_def mdefs)+

lemma error_writer_ok: "st \<in> {400, 401, 403, 404, 405, 409, 423, 426, 429, 500} \<Longrightarrow> response_ok (error_writer cx st code)"
  by (auto simp: response_ok_def error_writer_def)

lemma proper_refuse: "st \<in> {400, 401, 403, 404, 405, 409, 423, 426, 429, 500} \<Longrightarrow> proper (refuse cx st code)"
  by (rule properI) (auto simp: refuse_def retM_def error_writer_ok)

lemma proper_refusals: "proper (refuse cx 400 code)" "proper (refuse cx 401 code)" "proper (refuse cx 403 code)"
  "proper (refuse cx 404 code)" "proper (refuse cx 409 code)" "proper (refuse cx 429 code)" "proper (refuse cx 500 code)"
  by (simp_all add: proper_refuse)

lemma map_error_ok: "response_ok (map_error cx e)"
proof -
  have "fst (domain_status d) \<in> {400, 401, 403, 404, 405, 409, 423, 426, 429, 500}" for d by (cases d) simp_all
  then have "fst (error_status e) \<in> {400, 401, 403, 404, 405, 409, 423, 426, 429, 500}"
    by (cases e rule: error_status.cases) simp_all
  then show ?thesis by (auto simp: map_error_def error_writer_ok split: prod.splits)
qed

lemma proper_map_error: "proper (retM (map_error cx e))"
  by (rule properI) (auto simp: retM_def map_error_ok)

lemma proper_login_refused: "proper (retM (login_refused cx e))"
proof -
  have "response_ok (write_json 200 p)" for p :: admin_payload by (simp add: response_ok_def write_json_def)
  then have "response_ok (login_refused cx e)"
    unfolding login_refused_def by (simp add: map_error_ok error_writer_ok)
  then show ?thesis by (auto intro!: properI simp: retM_def)
qed

lemma proper_steps: "(\<And>x. proper (f x)) \<Longrightarrow> proper (bindM q f)" "proper k \<Longrightarrow> proper (seqM u k)"
  "proper m \<Longrightarrow> proper m' \<Longrightarrow> proper (if b then m else m')"
  "proper m \<Longrightarrow> (\<And>y. proper (j y)) \<Longrightarrow> proper (case x of None \<Rightarrow> m | Some y \<Rightarrow> j y)"
  "(\<And>e. proper (g e)) \<Longrightarrow> (\<And>y. proper (l y)) \<Longrightarrow> proper (case z of Inl e \<Rightarrow> g e | Inr y \<Rightarrow> l y)"
  "(\<And>a b. proper (h a b)) \<Longrightarrow> proper (case p of (a, b) \<Rightarrow> h a b)"
  "(\<And>x. proper (n x)) \<Longrightarrow> proper (Let v n)"
  by (rule properI, auto simp: mdefs split: prod.splits sum.splits option.splits if_splits dest: properD)+

lemma proper_answers: "(\<And>x. proper (f x)) \<Longrightarrow> proper (answer cx u f)"
  "(\<And>x. proper (k x)) \<Longrightarrow> proper (with_json bound fs r rq cx k)"
  "(\<And>x. proper (h x)) \<Longrightarrow> proper (with_text name rq cx h)"
  "(\<And>body ds. proper (j body ds)) \<Longrightarrow> proper (with_signed_body bound rq cx j)"
  "(\<And>u. proper (g u)) \<Longrightarrow> proper (with_user_req bound rq cx g)"
  "(\<And>x. proper (a x)) \<Longrightarrow> proper (answer_card errs cx m a)"
  "proper n \<Longrightarrow> proper (unless_banned cx n)" "proper n' \<Longrightarrow> proper (scope_limited l scope lm cx n')"
  unfolding answer_def with_json_def with_text_def with_signed_body_def with_user_req_def answer_card_def
    unless_banned_def scope_limited_def
  by (intro proper_steps proper_ends proper_map_error proper_refuse | assumption | (simp; fail))+

lemmas proper_rules = proper_answers proper_steps proper_ends proper_map_error proper_login_refused proper_refusals

lemma proper_client_handlers:
  "proper (handle_bootstrap S rq cx)" "proper (handle_activate S bound rq cx)"
  "proper (handle_redeem S bound rq cx)" "proper (handle_heartbeat S bound rq cx)"
  "proper (handle_deactivate S bound rq cx)" "proper (handle_user_register S bound rq cx)"
  "proper (handle_user_login S bound rq cx)" "proper (handle_user_bind_card S bound rq cx)"
  "proper (handle_user_change_pw S bound rq cx)" "proper (handle_user_recover S bound rq cx)"
  "proper (handle_announce rq cx)"
  unfolding handle_bootstrap_def handle_activate_def handle_redeem_def handle_heartbeat_def handle_deactivate_def
    handle_user_register_def handle_user_login_def handle_user_bind_card_def handle_user_change_pw_def
    handle_user_recover_def handle_announce_def answer_card_def
  by (intro proper_rules)+

lemma proper_user_step: "(\<And>x. proper (k x)) \<Longrightarrow>
    proper (case user_step key action days of None \<Rightarrow> bad_request cx | Some m \<Rightarrow> answer cx m k)"
  by (cases "user_step key action days") (simp_all add: proper_answers proper_ends)

lemma proper_account_handlers:
  "proper (handle_admin_login S site bound rq cx)" "proper (handle_admin_logout S rq cx)"
  "proper (handle_me ac cx)" "proper (handle_mfa_setup S ac cx)"
  "proper (handle_mfa_enable S rq ac cx)" "proper (handle_mfa_disable S rq ac cx)"
  "proper (handle_password_change S site rq ac cx)" "proper (handle_list_products ac cx)"
  "proper (handle_list_plans rq ac cx)" "proper (handle_create_product en rq ac cx)"
  "proper (handle_product_status key rq ac cx)" "proper (handle_create_plan site rq ac cx)"
  "proper (handle_plan_detail key cx)" "proper (handle_update_plan site key rq ac cx)"
  "proper (handle_delete_plan key ac cx)" "proper (handle_plan_status key rq ac cx)"
  unfolding handle_admin_login_def handle_admin_logout_def handle_me_def handle_mfa_setup_def handle_mfa_enable_def
    handle_mfa_disable_def handle_password_change_def handle_list_products_def handle_list_plans_def
    handle_create_product_def handle_product_status_def handle_create_plan_def handle_plan_detail_def
    handle_update_plan_def handle_delete_plan_def handle_plan_status_def
  by (intro proper_rules)+

lemma proper_card_handlers:
  "proper (handle_import_cards S rq ac cx)" "proper (handle_create_batch S ent rq ac cx)"
  "proper (handle_list_batches rq ac cx)" "proper (handle_list_cards rq ac cx)"
  "proper (handle_card_action key rq ac cx)" "proper (handle_bulk_card_action rq ac cx)"
  "proper (handle_reveal_card S key ac cx)" "proper (handle_set_card_note key rq ac cx)"
  "proper (handle_list_licenses rq ac cx)" "proper (handle_license_detail key ac cx)"
  "proper (handle_license_action key rq ac cx)" "proper (handle_license_note key rq ac cx)"
  "proper (handle_extend_license key rq ac cx)" "proper (handle_list_devices rq ac cx)"
  "proper (handle_unbind_device key rq ac cx)"
  unfolding handle_import_cards_def handle_create_batch_def send_batch_def handle_list_batches_def handle_list_cards_def
    handle_card_action_def handle_bulk_card_action_def handle_reveal_card_def reveal_def handle_set_card_note_def
    handle_list_licenses_def handle_license_detail_def or_empty_def handle_license_action_def handle_license_note_def
    handle_extend_license_def handle_list_devices_def handle_unbind_device_def
  by (intro proper_rules)+

lemma proper_agent_handlers:
  "proper (handle_list_agents cx)" "proper (handle_create_agent S rq ac cx)"
  "proper (handle_agent_products_get key ac cx)" "proper (handle_agent_products_post key rq ac cx)"
  "proper (handle_agent_account_get key ac cx)" "proper (handle_agent_account_post S key rq ac cx)"
  "proper (handle_agent_balance key rq ac cx)" "proper (handle_agent_transactions key cx)"
  "proper (handle_agent_status key rq ac cx)" "proper (handle_list_admins cx)"
  "proper (handle_create_admin S rq ac cx)" "proper (handle_admin_status key rq ac cx)"
  unfolding handle_list_agents_def handle_create_agent_def handle_agent_products_get_def handle_agent_products_post_def
    handle_agent_account_get_def handle_agent_account_post_def handle_agent_balance_def handle_agent_transactions_def
    handle_agent_status_def handle_list_admins_def handle_create_admin_def handle_admin_status_def
  by (intro proper_rules)+

lemma proper_site_handlers:
  "proper (handle_list_audit site rq cx)" "proper (handle_list_risk rq cx)"
  "proper (handle_list_bans cx)" "proper (handle_create_ban site rq ac cx)"
  "proper (handle_delete_ban rq ac cx)" "proper (handle_keys S cx)"
  "proper (handle_stats cx)" "proper (handle_list_users rq cx)"
  "proper (handle_user_detail key cx)" "proper (handle_user_action key rq ac cx)"
  "proper (handle_list_messages rq cx)" "proper (handle_create_message rq ac cx)"
  "proper (handle_set_message_enabled key rq cx)" "proper (handle_delete_message key cx)"
  "proper (handle_list_versions rq cx)" "proper (handle_create_version rq ac cx)"
  "proper (handle_delete_version key cx)" "proper (handle_list_rate_limits site cx)"
  "proper (handle_set_rate_limit rq ac cx)"
  unfolding handle_list_audit_def handle_list_risk_def handle_list_bans_def handle_create_ban_def handle_delete_ban_def
    handle_keys_def handle_stats_def handle_list_users_def handle_user_detail_def handle_user_action_def
    handle_list_messages_def handle_create_message_def handle_set_message_enabled_def handle_delete_message_def
    handle_list_versions_def handle_create_version_def handle_delete_version_def handle_list_rate_limits_def
    handle_set_rate_limit_def
  by (intro proper_user_step proper_rules)+


subsection \<open>Through the routers\<close>

lemma proper_context:
  assumes "\<And>cx. proper (next cx)"
  shows "proper (with_context nets rq next)"
proof (rule properI)
  fix w r w'
  assume "with_context nets rq next w = (Inr r, w')"
  then show "response_ok r"
  proof (rule with_context_run)
    fix cx v r0
    assume n: "next cx v = (r0, w')" and eq: "Inr r = Inr (case r0 of Inr x \<Rightarrow> x
      | Inl e \<Rightarrow> error_writer \<lparr>hc_rid = [], hc_ip = [], hc_admin = None\<rparr> 500 ''INTERNAL'')"
    show "response_ok r"
      by (cases r0) (use n eq properD [OF assms] in \<open>auto simp: error_writer_ok\<close>)
  qed
qed

definition entry_proper :: "access \<Rightarrow> bool" where
  "entry_proper a = (case a of Public h \<Rightarrow> (\<forall>cx. proper (h cx))
     | Session h \<Rightarrow> (\<forall>x ac cx. proper (h x ac cx)) | Needs p h \<Rightarrow> (\<forall>x ac cx. proper (h x ac cx)))"

lemma proper_entries: "list_all (\<lambda>(m, p, a). entry_proper a) (admin_routes S site en rq)"
  by (simp add: admin_routes_def account_routes_def card_routes_def agent_routes_def site_routes_def
      entry_proper_def proper_account_handlers proper_card_handlers proper_agent_handlers proper_site_handlers)

lemma proper_access: "entry_proper a \<Longrightarrow> proper (run_access S rq a x cx)"
  unfolding run_access_def entry_proper_def require_admin_session_def require_perm_def
  by (cases a) (auto intro!: proper_rules)

lemma proper_admin: "proper (serve_admin S site en rq)"
  unfolding serve_admin_def
proof (rule proper_context)
  fix cx
  have "proper (run_access S rq a x cx)"
    if "find_route m path (admin_routes S site en rq) = Some (a, x)" for m path a x
    using find_route_in [OF that] proper_entries [of S site en rq] by (auto simp: list_all_iff intro!: proper_access)
  then show "proper (dispatch_admin S site en rq cx)"
    unfolding dispatch_admin_def Let_def by (auto split: option.splits intro!: proper_ends)
qed

lemma proper_client_handler: "proper (client_handler S route bound rq cx)"
  by (cases route) (simp_all add: proper_client_handlers)

lemma client_response_ok: "serve_client S site l rq w = (Inr (r, l'), w') \<Longrightarrow> response_ok r"
  unfolding serve_client_def
  by (auto simp: bindM_Inr_iff retM_eq_iff split: option.splits
      dest!: properD [OF proper_context, rotated] intro!: proper_rules proper_client_handler)

lemma context_answers: "\<exists>x v. with_context nets rq k w = (Inr x, v)"
  by (cases "with_context nets rq k w") (metis with_context_run)

lemma limits_answer: "\<exists>k v. refresh_limits l w = (Inr k, v)"
  by (auto simp: refresh_limits_def mdefs go_now_def split: prod.splits sum.splits)

lemma answered: "\<exists>resp w'. serve_admin S site en rq w = (Inr resp, w')"
  "\<exists>resp l' w'. serve_client S site l rq w = (Inr (resp, l'), w')"
proof -
  show "\<exists>resp w'. serve_admin S site en rq w = (Inr resp, w')"
    unfolding serve_admin_def by (rule context_answers)
  show "\<exists>resp l' w'. serve_client S site l rq w = (Inr (resp, l'), w')"
  proof (cases "find (\<lambda>(m, p, _). m = hq_method rq \<and> p = hq_path rq) (client_routes site)")
    case None
    then show ?thesis using context_answers by (fastforce simp: serve_client_def bindM_Inr_iff retM_eq_iff)
  next
    case (Some e)
    obtain k v where k: "refresh_limits l w = (Inr k, v)" using limits_answer by blast
    obtain m p bound scope fallback route where e: "e = (m, p, bound, scope, fallback, route)" by (cases e)
    obtain x u where "with_context (c_proxies (si_cfg site)) rq
        (\<lambda>cx. scope_limited k scope fallback cx (client_handler S route bound rq cx)) v = (Inr x, u)"
      using context_answers by blast
    with Some k e show ?thesis by (simp add: serve_client_def bindM_def retM_def)
  qed
qed

subsection \<open>The property\<close>

text \<open>C23. Responses are well formed: whatever either server answers is a 200 or 201 with a body and no error,
  or a 400, 401, 403, 404, 405, 409, 423, 426, 429 or 500 with no body and no cookie, and with a stable error
  code except for the router's own 404 and 405.\<close>
theorem responses_well_formed:
  "(case fst (serve_admin S site en rq w) of Inl e \<Rightarrow> False | Inr r \<Rightarrow> response_ok r) \<and>
   (case fst (serve_client S site l rq w) of Inl e \<Rightarrow> False | Inr (r, l') \<Rightarrow> response_ok r)"
proof -
  obtain a v where "serve_admin S site en rq w = (Inr a, v)" using answered(1) by blast
  moreover obtain c l' u where "serve_client S site l rq w = (Inr (c, l'), u)" using answered(2) by blast
  ultimately show ?thesis using properD [OF proper_admin] client_response_ok by fastforce
qed

end
