(* ===== verification/Handlers.thy ===== *)
theory Handlers
  imports Demo
begin

section \<open>Handlers: from the services to every run of the deployment\<close>

text \<open>
  The locale \<open>operations\<close> is the interface between the services and the deployment: a preorder on
  databases that every service operation, and every statement a handler issues itself, respects. Inside
  it every handler, both routers, the worker, the start of the server and so every run respect the
  preorder too (\<open>on_step\<close>, \<open>on_runs\<close>). Each system-wide property interprets it with a preorder of its own.
\<close>

lemma user_step_cases:
  assumes "user_step key action days = Some m"
  obtains st where "m = set_end_user_status key st" | "m = reset_end_user_machine key"
    | "m = bindM (extend_end_user key days) (\<lambda>_. retM ())" "0 < days" "days \<le> 36500"
  using assms by (auto simp: user_step_def split: if_splits)

locale operations = db_preorder R for R +
  assumes device_ops: "evolves R (activate S body sig ip req)" "evolves R (redeem S body ds ip req)"
      "evolves R (heartbeat S ds body ip)" "evolves R (deactivate S ds body ip req)"
    and guesses: "evolves R (card_failure ip)" "evolves R (user_signup_burst ip)"
    and user_ops: "evolves R (user_register S code name pw sec ip)" "evolves R (user_sign_in S code name pw cs ip)"
      "evolves R (user_bind_card S tok input ip)" "evolves R (user_change_password S tok pw new_pw)"
      "evolves R (user_recover S code name sec new_pw ip)"
    and auth_ops: "evolves R (admin_login S name pw totp ip req)" "evolves R (bootstrap_admin S name pw totp)"
      "evolves R (mfa_setup S ac)" "evolves R (mfa_enable S ac code)" "evolves R (mfa_disable S ac pw)"
      "evolves R (admin_change_password S ac pw new_pw)" "evolves R (revoke_session key)"
    and audited: "evolves R (audit ac act tt tg b g det ip req)"
    and catalogue_ops: "evolves R (svc_create_product ent ac code name ip req)" "evolves R (product_status ac key st ip req)"
      "evolves R (svc_create_plan ac p ip req)" "evolves R (svc_update_plan ac key p ip req)"
      "evolves R (svc_delete_plan ac key ip req)" "evolves R (plan_status ac key st ip req)"
    and card_ops: "evolves R (import_cards S ac pid key cards kind note ip req)"
      "evolves R (create_card_batch S entropy ac rq ip req)" "evolves R (card_action ac key act reason ip req)"
      "evolves R (admin_set_card_note ac key note ip req)" "evolves R (license_action ac key act reason ip req)"
      "evolves R (admin_set_license_note ac key note ip req)" "evolves R (admin_extend_license ac key days reason ip req)"
      "evolves R (unbind_device ac key reason ip req)"
    and agent_ops: "evolves R (svc_create_agent S ac name parent u pw ip req)"
      "evolves R (set_agent_product_grant ac agent pid granted ip req)" "evolves R (update_agent_account S ac agent key u pw ip req)"
      "evolves R (agent_adjust_balance ac agent amt note ip req)" "evolves R (agent_status ac key st ip req)"
      "evolves R (create_admin S ac u name pw role ag ip req)" "evolves R (svc_set_admin_status ac key st ip req)"
      "evolves R (create_ban ac kind val reason til ip req)" "evolves R (delete_ban ac kind val ip req)"
    and user_rows: "evolves R (set_end_user_status key st)" "evolves R (reset_end_user_machine key)"
      "0 < days \<Longrightarrow> days \<le> 36500 \<Longrightarrow> evolves R (extend_end_user key days)"
    and notice_rows: "evolves R (create_soft_message key content who)" "evolves R (set_soft_message_enabled n en)"
      "evolves R (delete_soft_message n)" "evolves R (create_product_version key ver url notes en)"
      "evolves R (delete_product_version n)" "evolves R (upsert_api_rate_limit scope n)"
    and sweep_rows: "evolves R reap_sessions" "evolves R mark_expired_license_events" "evolves R (upsert_kex_key key pub alg en)"
begin

lemma reading: "evolves R (list_agent_product_grants ac agent)" "evolves R (get_agent_account ac agent)" "evolves R get_stats"
  "evolves R (resolve_session S tok)" "evolves R (get_product_id_by_code code)"
  unfolding list_agent_product_grants_def get_agent_account_def get_stats_def resolve_session_def only_super_def
    get_product_id_by_code_def
    or_no_rows_def
  by (intro store_rules)+

lemma lift: "evolves R (liftE r)"
  by (cases r) (simp_all add: liftE_def ret)

lemmas op_rules = http_rules reading lift device_ops guesses user_ops auth_ops audited catalogue_ops card_ops agent_ops
  user_rows notice_rows sweep_rows

lemma on_client_handlers:
  "evolves R (handle_bootstrap S rq cx)" "evolves R (handle_activate S bound rq cx)"
  "evolves R (handle_redeem S bound rq cx)" "evolves R (handle_heartbeat S bound rq cx)"
  "evolves R (handle_deactivate S bound rq cx)" "evolves R (handle_user_register S bound rq cx)"
  "evolves R (handle_user_login S bound rq cx)" "evolves R (handle_user_bind_card S bound rq cx)"
  "evolves R (handle_user_change_pw S bound rq cx)" "evolves R (handle_user_recover S bound rq cx)"
  "evolves R (handle_announce rq cx)"
  unfolding handle_bootstrap_def handle_activate_def handle_redeem_def handle_heartbeat_def handle_deactivate_def
    handle_user_register_def handle_user_login_def handle_user_bind_card_def handle_user_change_pw_def
    handle_user_recover_def handle_announce_def answer_card_def
  by (intro op_rules)+

lemma on_serve_client: "evolves R (serve_client S site l rq)"
proof -
  have "evolves R (client_handler S route bound rq cx)" for route bound cx
    by (cases route) (simp_all add: on_client_handlers)
  then show ?thesis unfolding serve_client_def by (intro op_rules)
qed

lemma on_bulk: "evolves R (bulk_loop ac action reason ip rid ks n failed)"
proof (induction ks arbitrary: n failed)
  case (Cons k ks)
  show ?case unfolding bulk_loop.simps by (intro op_rules Cons)
qed (simp add: ret)

lemma on_user_step: 
  assumes "\<And>x. evolves R (k x)"
  shows "evolves R (case user_step key action days of None \<Rightarrow> bad_request cx | Some m \<Rightarrow> answer cx m k)"
proof -
  have "evolves R m" if "user_step key action days = Some m" for m
    using that by (rule user_step_cases) (simp_all only:, (intro op_rules)+)
  then show ?thesis by (cases "user_step key action days") (simp_all add: answers assms)
qed

lemma on_account_handlers:
  "evolves R (handle_admin_login S site bound rq cx)" "evolves R (handle_admin_logout S rq cx)"
  "evolves R (handle_me ac cx)" "evolves R (handle_mfa_setup S ac cx)"
  "evolves R (handle_mfa_enable S rq ac cx)" "evolves R (handle_mfa_disable S rq ac cx)"
  "evolves R (handle_password_change S site rq ac cx)" "evolves R (handle_list_products ac cx)"
  "evolves R (handle_list_plans rq ac cx)" "evolves R (handle_create_product en rq ac cx)"
  "evolves R (handle_product_status key rq ac cx)" "evolves R (handle_create_plan site rq ac cx)"
  "evolves R (handle_plan_detail key cx)" "evolves R (handle_update_plan site key rq ac cx)"
  "evolves R (handle_delete_plan key ac cx)" "evolves R (handle_plan_status key rq ac cx)"
  unfolding handle_admin_login_def handle_admin_logout_def handle_me_def handle_mfa_setup_def handle_mfa_enable_def
    handle_mfa_disable_def handle_password_change_def handle_list_products_def handle_list_plans_def
    handle_create_product_def handle_product_status_def handle_create_plan_def handle_plan_detail_def
    handle_update_plan_def handle_delete_plan_def handle_plan_status_def
  by (intro op_rules)+

lemma on_card_handlers:
  "evolves R (handle_import_cards S rq ac cx)" "evolves R (handle_create_batch S ent rq ac cx)"
  "evolves R (handle_list_batches rq ac cx)" "evolves R (handle_list_cards rq ac cx)"
  "evolves R (handle_card_action key rq ac cx)" "evolves R (handle_bulk_card_action rq ac cx)"
  "evolves R (handle_reveal_card S key ac cx)" "evolves R (handle_set_card_note key rq ac cx)"
  "evolves R (handle_list_licenses rq ac cx)" "evolves R (handle_license_detail key ac cx)"
  "evolves R (handle_license_action key rq ac cx)" "evolves R (handle_license_note key rq ac cx)"
  "evolves R (handle_extend_license key rq ac cx)" "evolves R (handle_list_devices rq ac cx)"
  "evolves R (handle_unbind_device key rq ac cx)"
  unfolding handle_import_cards_def handle_create_batch_def send_batch_def handle_list_batches_def handle_list_cards_def
    handle_card_action_def handle_bulk_card_action_def handle_reveal_card_def reveal_def handle_set_card_note_def
    handle_list_licenses_def handle_license_detail_def or_empty_def handle_license_action_def handle_license_note_def
    handle_extend_license_def handle_list_devices_def handle_unbind_device_def
  by (intro op_rules on_bulk)+

lemma on_agent_handlers:
  "evolves R (handle_list_agents cx)" "evolves R (handle_create_agent S rq ac cx)"
  "evolves R (handle_agent_products_get key ac cx)" "evolves R (handle_agent_products_post key rq ac cx)"
  "evolves R (handle_agent_account_get key ac cx)" "evolves R (handle_agent_account_post S key rq ac cx)"
  "evolves R (handle_agent_balance key rq ac cx)" "evolves R (handle_agent_transactions key cx)"
  "evolves R (handle_agent_status key rq ac cx)" "evolves R (handle_list_admins cx)"
  "evolves R (handle_create_admin S rq ac cx)" "evolves R (handle_admin_status key rq ac cx)"
  unfolding handle_list_agents_def handle_create_agent_def handle_agent_products_get_def handle_agent_products_post_def
    handle_agent_account_get_def handle_agent_account_post_def handle_agent_balance_def handle_agent_transactions_def
    handle_agent_status_def handle_list_admins_def handle_create_admin_def handle_admin_status_def
  by (intro op_rules)+

lemma on_site_handlers:
  "evolves R (handle_list_audit site rq cx)" "evolves R (handle_list_risk rq cx)"
  "evolves R (handle_list_bans cx)" "evolves R (handle_create_ban site rq ac cx)"
  "evolves R (handle_delete_ban rq ac cx)" "evolves R (handle_keys S cx)"
  "evolves R (handle_stats cx)" "evolves R (handle_list_users rq cx)"
  "evolves R (handle_user_detail key cx)" "evolves R (handle_user_action key rq ac cx)"
  "evolves R (handle_list_messages rq cx)" "evolves R (handle_create_message rq ac cx)"
  "evolves R (handle_set_message_enabled key rq cx)" "evolves R (handle_delete_message key cx)"
  "evolves R (handle_list_versions rq cx)" "evolves R (handle_create_version rq ac cx)"
  "evolves R (handle_delete_version key cx)" "evolves R (handle_list_rate_limits site cx)"
  "evolves R (handle_set_rate_limit rq ac cx)"
  unfolding handle_list_audit_def handle_list_risk_def handle_list_bans_def handle_create_ban_def handle_delete_ban_def
    handle_keys_def handle_stats_def handle_list_users_def handle_user_detail_def handle_user_action_def
    handle_list_messages_def handle_create_message_def handle_set_message_enabled_def handle_delete_message_def
    handle_list_versions_def handle_create_version_def handle_delete_version_def handle_list_rate_limits_def
    handle_set_rate_limit_def
  by (intro on_user_step op_rules)+

lemmas on_handlers = on_account_handlers on_card_handlers on_agent_handlers on_site_handlers

lemma on_serve_admin: "evolves R (serve_admin S site en rq)"
  by (rule routed) (simp add: admin_routes_def account_routes_def card_routes_def agent_routes_def site_routes_def
      entry_evolves_def on_handlers)

lemma on_sweep: "evolves R run_sweep"
  unfolding run_sweep_def by (intro op_rules)

lemma kex_start: "evolves R (start_kex P ks)"
proof (induction ks)
  case (Cons k ks)
  then show ?case unfolding start_kex.simps by (intro op_rules)
qed (simp add: ret)

lemma on_start: "evolves R (start_server P site)"
  unfolding start_server_def ensure_initial_admin_def
  by (intro op_rules kex_start)

subsection \<open>Over every run\<close>

lemma on_step: "step S site s t \<Longrightarrow> R (sr_db s) (sr_db t)"
  by (erule stepE) (auto simp: sr_db_def R_refl dest: evolvesD [OF on_serve_client] evolvesD [OF on_serve_admin]
      evolvesD [OF on_sweep] evolvesD [OF on_start])

lemma on_runs: "runs_to S site s t \<Longrightarrow> R (sr_db s) (sr_db t)"
proof (induction rule: rtranclp_induct)
  case base
  show ?case by (rule R_refl)
next
  case (step u v)
  then show ?case using on_step R_trans by blast
qed

end

end
