(* ===== verification/ServerSales.thy ===== *)
theory ServerSales
  imports Handlers
begin

section \<open>The tables of sales over every run of the deployment\<close>

text \<open>
  The services are \<open>sales_safe\<close>, so by the interface of \<open>Handlers\<close> every run is: the invariant and
  the history relation of \<open>Sales\<close> hold over it. The properties below are what they mean for cards,
  licences and renewals.
\<close>

lemmas safe_rules = sl.http_rules sales_services quiet_safe sales_frames
  leaves_or_no_rows [where f = sales, THEN sales_safe_leaves]

text \<open>The services keep the contract, so every run does.\<close>

lemma safe_kex_row: "evolves sales_safe (upsert_kex_key key pub alg en)"
  by (rule sales_safe_leaves) (rule leaves_kex, simp add: sales_def)

interpretation sold: operations sales_safe
  by unfold_locales (intro safe_rules safe_kex_row; fail)+

lemma licence_of_card:
  assumes ok: "sales_ok d" and l: "l1 \<in> set (d_licenses d)" "l2 \<in> set (d_licenses d)" "li_card l1 = li_card l2"
  shows "l1 = l2"
proof -
  from licence_card [OF ok l(1)] licence_card [OF ok l(2)] obtain c1 c2 where
    c: "c1 \<in> set (d_cards d)" "issued c1 l1" "c2 \<in> set (d_cards d)" "issued c2 l2" by blast
  have "c1 = c2" using card_by_id [OF ok c(3) c(1)] c l(3) by (simp add: issued_def)
  with c have "li_id l1 = li_id l2" by (simp add: issued_def)
  moreover have "distinct (map li_id (d_licenses d))" using ok by (simp add: sales_ok_def linked_def)
  ultimately show ?thesis using l(1,2) distinct_map_eqD by metis
qed

subsection \<open>A deployment to run\<close>

lemma sold_ok: "sales_ok (sr_db demo_server)"
  by (simp add: sr_db_def demo_server_def demo_world_def sold_db_def empty_db_def sales_ok_def cards_wf_def linked_def
      redeemed_def card_ok_def sold_card_def used_renewal_card_def sold_license_def issued_def used_up_by_def
      card_terminal_def)

subsection \<open>What every run keeps\<close>

text \<open>C1. The tables of sales stay consistent on every run of the deployment, whatever requests come
  in and whichever statements, commits and Redis calls fail: card and licence name each other and
  agree on product, plan and agent; ids and lookup keys are unique; an unused card carries no trace
  of use; an active card has a licence; a card belongs to a licence or to an account, not to both;
  every renewal used up a card of its own.\<close>
theorem sales_invariant:
  assumes "sales_ok (sr_db s)" "runs_to S site s t"
  shows "sales_ok (sr_db t)"
  using sold.on_runs [OF assms(2)] assms(1) by (simp add: sales_safe_def)

lemma sales_invariant_witness: "sales_ok (sr_db demo_end)"
  by (rule sales_invariant [OF sold_ok demo_run])

text \<open>C2. One card never makes two licences: on every run, two licences of the same card are the same
  row, and that card exists, names the licence, and was sold as what the licence grants.\<close>
theorem one_licence_per_card:
  assumes "sales_ok (sr_db s)" "runs_to S site s t"
    and "l \<in> set (d_licenses (sr_db t))" "k \<in> set (d_licenses (sr_db t))" "li_card l = li_card k"
  shows "l = k \<and> list_ex (\<lambda>c. issued c l) (d_cards (sr_db t))"
proof -
  have ok: "sales_ok (sr_db t)" using sold.on_runs [OF assms(2)] assms(1) by (simp add: sales_safe_def)
  show ?thesis using licence_of_card [OF ok assms(3-5)] licence_card [OF ok assms(3)] by (auto simp: list_ex_iff)
qed

lemma one_licence_per_card_witness: "list_ex (\<lambda>c. issued c sold_license) (d_cards (sr_db demo_end))"
  using one_licence_per_card [OF sold_ok demo_run, where l = sold_license and k = sold_license] demo_end_sales by simp

text \<open>C3. A spent card stays spent: once a card was activated or is revoked, voided or depleted, every
  later state still has it, with the same id, lookup key, product, plan, agent and kind, the licence or
  account it went to, its first activation time, and, when it was in a terminal state, that state.\<close>
theorem spent_card_stays:
  assumes "sales_ok (sr_db s)" "runs_to S site s t" "c \<in> set (d_cards (sr_db s))" "spent c"
  shows "list_ex (card_next c) (d_cards (sr_db t))"
  using sold.on_runs [OF assms(2)] assms by (auto simp: sales_safe_def sales_next_def list_all_iff)

lemma spent_card_stays_witness:
  "list_ex (card_next sold_card) (d_cards (sr_db demo_end)) \<and> cd_license sold_card = Some ''l1''"
  using spent_card_stays [OF sold_ok demo_run, where c = sold_card]
  by (simp add: sold_card_def spent_def sr_db_def demo_server_def demo_world_def sold_db_def)

text \<open>C4. A licence is never lost, moved or shortened: every later state has it with the same card,
  product, plan and agent; revoked and voided are final; its policy version and its expiry never go
  back (a licence without an expiry may get one).\<close>
theorem licence_history:
  assumes "sales_ok (sr_db s)" "runs_to S site s t" "l \<in> set (d_licenses (sr_db s))"
  shows "list_ex (license_next l) (d_licenses (sr_db t))"
  using sold.on_runs [OF assms(2)] assms by (auto simp: sales_safe_def sales_next_def list_all_iff)

lemma licence_history_witness: "list_ex (license_next sold_license) (d_licenses (sr_db demo_end))"
  using licence_history [OF sold_ok demo_run, where l = sold_license]
  by (simp add: sr_db_def demo_server_def demo_world_def sold_db_def)

text \<open>C5. A renewal card renews once: the renewals only grow, no two of them name the same card, and
  the card of each is a depleted renewal card.\<close>
theorem renewal_card_used_once:
  assumes "sales_ok (sr_db s)" "runs_to S site s t"
  shows "take (length (d_renewals (sr_db s))) (d_renewals (sr_db t)) = d_renewals (sr_db s) \<and>
    distinct (map rn_card (d_renewals (sr_db t))) \<and>
    list_all (\<lambda>r. list_ex (used_up_by r) (d_cards (sr_db t))) (d_renewals (sr_db t))"
  using sold.on_runs [OF assms(2)] assms(1)
  by (auto simp: sales_safe_def sales_next_def sales_ok_def redeemed_def)

lemma renewal_card_used_once_witness: "distinct (map rn_card (d_renewals (sr_db demo_end)))"
  using renewal_card_used_once [OF sold_ok demo_run] by simp

end
