(* ===== verification/Isolation.thy ===== *)
theory Isolation
  imports Access ServerSales
begin

section \<open>Isolation: what an agent's login can touch\<close>

text \<open>
  Agents share the back office. \<open>touched K L G\<close> bounds what a run writes by ids (cards \<open>K\<close>, licences \<open>L\<close>,
  agents \<open>G\<close>); \<open>kept a\<close> bounds it by owner. A handler checks the owner of a row and then writes by id, so
  the step from one to the other needs what the sales invariant says: ids are unique, and a card's licence
  has the card's owner.
\<close>

subsection \<open>Bounds by id and by owner\<close>

definition others :: "db \<Rightarrow> product list \<times> plan list \<times> (string \<times> string) list \<times> device list \<times> renewal list \<times>
    end_user list \<times> end_user_log list \<times> ban list \<times> soft_message list \<times> product_version list \<times> api_limit list \<times> kex_row list" where
  "others d = (d_products d, d_plans d, d_grants d, d_devices d, d_renewals d, d_users d, d_user_logs d, d_bans d,
     d_messages d, d_versions d, d_limits d, d_kex d)"

definition rows_kept :: "('r \<Rightarrow> bool) \<Rightarrow> 'r list \<Rightarrow> 'r list \<Rightarrow> bool" where
  "rows_kept p t t' \<longleftrightarrow> list_all (\<lambda>r. p r \<longrightarrow> r \<in> set t') t"

definition touched :: "string set \<Rightarrow> string set \<Rightarrow> string set \<Rightarrow> db \<Rightarrow> db \<Rightarrow> bool" where
  "touched K L G d d' \<longleftrightarrow> rows_kept (\<lambda>c. cd_id c \<notin> K) (d_cards d) (d_cards d') \<and>
     rows_kept (\<lambda>l. li_id l \<notin> L) (d_licenses d) (d_licenses d') \<and>
     rows_kept (\<lambda>g. ag_id g \<notin> G) (d_agents d) (d_agents d') \<and> others d' = others d"

definition kept :: "string \<Rightarrow> db \<Rightarrow> db \<Rightarrow> bool" where
  "kept a d d' \<longleftrightarrow> rows_kept (\<lambda>c. cd_agent c \<noteq> Some a) (d_cards d) (d_cards d') \<and>
     rows_kept (\<lambda>l. li_agent l \<noteq> Some a) (d_licenses d) (d_licenses d') \<and>
     rows_kept (\<lambda>g. ag_id g \<noteq> a) (d_agents d) (d_agents d') \<and> others d' = others d"

definition iso :: "string \<Rightarrow> db \<Rightarrow> db \<Rightarrow> bool" where
  "iso a d d' \<longleftrightarrow> (sales_ok d \<longrightarrow> sales_ok d' \<and> kept a d d')"

lemma rows_kept_refl: "rows_kept p t t"
  by (simp add: rows_kept_def list_all_iff)

lemma rows_kept_trans: "rows_kept p t u \<Longrightarrow> rows_kept p u v \<Longrightarrow> rows_kept p t v"
  by (auto simp: rows_kept_def list_all_iff)

lemma rows_kept_append: "rows_kept p t (t @ u)"
  by (simp add: rows_kept_def list_all_iff)

lemma rows_kept_upd: "(\<And>r. q r \<Longrightarrow> \<not> p r) \<Longrightarrow> rows_kept p t (upd q f t)"
  by (auto simp: rows_kept_def list_all_iff in_upd_iff)

lemma rows_kept_mono: "rows_kept p t u \<Longrightarrow> (\<And>r. r \<in> set t \<Longrightarrow> q r \<Longrightarrow> p r) \<Longrightarrow> rows_kept q t u"
  by (auto simp: rows_kept_def list_all_iff)

interpretation tc: db_preorder "touched K L G" for K L G
  by unfold_locales (auto simp: touched_def rows_kept_refl intro: rows_kept_trans)

interpretation io: db_preorder "iso a" for a
  by unfold_locales (auto simp: iso_def kept_def rows_kept_refl intro: rows_kept_trans)

subsection \<open>Statements\<close>

definition bounded :: "db \<Rightarrow> card list \<times> license list \<times> agent list \<times> product list \<times> plan list \<times> (string \<times> string) list \<times>
    device list \<times> renewal list \<times> end_user list \<times> end_user_log list \<times> ban list \<times> soft_message list \<times>
    product_version list \<times> api_limit list \<times> kex_row list" where
  "bounded d = (d_cards d, d_licenses d, d_agents d, others d)"

lemma touched_leaves: "leaves bounded m \<Longrightarrow> evolves (touched K L G) m"
  unfolding evolves_def by (simp add: bounded_def touched_def rows_kept_refl)

lemma bounded_ignores:
  "bounded (d\<lparr>d_batches := x1\<rparr>) = bounded d" "bounded (d\<lparr>d_agent_txs := x2\<rparr>) = bounded d"
  "bounded (d\<lparr>d_events := x3\<rparr>) = bounded d" "bounded (d\<lparr>d_admins := x4\<rparr>) = bounded d"
  "bounded (d\<lparr>d_sessions := x5\<rparr>) = bounded d" "bounded (d\<lparr>d_audits := x6\<rparr>) = bounded d"
  "bounded (d\<lparr>d_risks := x7\<rparr>) = bounded d"
  by (simp_all add: bounded_def others_def)

lemmas touched_frames =
  leaves_batches(1) [where f = bounded, OF bounded_ignores(1), THEN touched_leaves]
  leaves_agent_txs [where f = bounded, OF bounded_ignores(2), THEN touched_leaves]
  leaves_events [where f = bounded, OF bounded_ignores(3), THEN touched_leaves]
  leaves_admins [where f = bounded, OF bounded_ignores(4), THEN touched_leaves]
  leaves_sessions [where f = bounded, OF bounded_ignores(5), THEN touched_leaves]
  leaves_audits [where f = bounded, OF bounded_ignores(6), THEN touched_leaves]
  leaves_risks [where f = bounded, OF bounded_ignores(7), THEN touched_leaves]
  leaves_lift [where f = bounded, THEN touched_leaves] leaves_checks [where f = bounded, THEN touched_leaves]
  leaves_import_seeds [where f = bounded, THEN touched_leaves] leaves_batch_seeds [where f = bounded, THEN touched_leaves]

lemma touched_update_cards: "(\<And>c. p c \<Longrightarrow> cd_id c \<in> K) \<Longrightarrow> evolves (touched K L G) (update_cards p f)"
  unfolding update_cards_def by (rule tc.exec)
    (auto simp: touched_def need_rows_def others_def rows_kept_refl split: if_splits intro!: rows_kept_upd)

lemma touched_cards: "key \<in> K \<Longrightarrow> evolves (touched K L G) (transition_card_status key from to)"
  "key \<in> K \<Longrightarrow> evolves (touched K L G) (transition_card_to_terminal key to)"
  "key \<in> K \<Longrightarrow> evolves (touched K L G) (set_card_note key note)"
  unfolding transition_card_status_def transition_card_to_terminal_def set_card_note_def
  by (auto intro!: touched_update_cards tc.assign rows_kept_upd simp: touched_def others_def rows_kept_refl)

lemma touched_licenses: "key \<in> L \<Longrightarrow> evolves (touched K L G) (transition_license key from to)"
  "key \<in> L \<Longrightarrow> evolves (touched K L G) (transition_license_terminal key to)"
  unfolding transition_license_def transition_license_terminal_def update_licenses_def
  by (auto intro!: tc.exec rows_kept_upd simp: touched_def others_def rows_kept_refl need_rows_def split: if_splits)

lemma touched_deduct: "key \<in> G \<Longrightarrow> evolves (touched K L G) (deduct_agent_balance key n)"
  unfolding deduct_agent_balance_def add_balance_def
  by (auto intro!: tc.if_case tc.ret tc.exec rows_kept_upd simp: touched_def others_def rows_kept_refl
      split: if_splits option.splits)

lemma touched_create_batch: "evolves (touched K L G) (create_batch b seeds)"
proof -
  have "evolves (touched K L G) (insert_card b s)" for b s
    unfolding insert_card_def
    by (auto intro!: tc.new_row rows_kept_append simp: touched_def others_def rows_kept_refl split: if_splits)
  then have "evolves (touched K L G) (insert_cards b ss)" for b ss
    by (induction ss) (simp_all add: tc.ret tc.bind)
  then show ?thesis unfolding create_batch_def by (intro tc.rules touched_frames)
qed

subsection \<open>Services\<close>

text \<open>The owner of a row a request may act on is the agent itself.\<close>

definition acts_for :: "string \<Rightarrow> admin_context \<Rightarrow> bool" where
  "acts_for a ac \<longleftrightarrow> is_agent ac \<and> ad_agent (ac_admin ac) = Some a"

lemma not_denied: "acts_for a ac \<Longrightarrow> \<not> agent_denied ac owner \<longleftrightarrow> owner = Some a"
  by (auto simp: acts_for_def agent_denied_def)

lemma touched_helpers: "evolves (touched K L G) (record_risk k s u t det)"
  "evolves (touched K L G) (audit ac act tt tg b g det2 ip req)" "evolves (touched K L G) (open_session S who)"
  unfolding record_risk_def audit_def open_session_def by (intro tc.store_rules touched_frames)+

lemma touched_login: "evolves (touched K L G) (login_failed who k s ip e)" "evolves (touched K L G) (authenticate S who pw totp ip)"
  unfolding login_failed_def authenticate_def by (intro tc.store_rules touched_frames touched_helpers)+

lemma touched_auth: "evolves (touched K L G) (admin_login S name pw totp ip req)" "evolves (touched K L G) (mfa_setup S ac)"
  "evolves (touched K L G) (mfa_enable S ac code)" "evolves (touched K L G) (mfa_disable S ac pw)"
  "evolves (touched K L G) (admin_change_password S ac old_pw new_pw)"
  unfolding admin_login_def mfa_setup_def mfa_enable_def mfa_disable_def admin_change_password_def or_no_rows_def
  by (intro tc.store_rules touched_frames touched_helpers touched_login)+

lemma touched_charge: "agent \<in> G \<Longrightarrow> evolves (touched K L G) (charge_agent ac agent pl n b)"
  unfolding charge_agent_def or_no_rows_def by (intro tc.store_rules touched_frames touched_deduct)

lemma touched_import: "evolves (touched K L G) (import_cards S ac pid plan_id cards kind note ip req)"
  unfolding import_cards_def by (intro tc.store_rules touched_frames touched_helpers touched_create_batch)

lemma touched_batch: "br_agent q \<in> G \<Longrightarrow> evolves (touched K L G) (create_card_batch S entropy ac q ip req)"
  unfolding create_card_batch_def
  by (intro tc.store_rules touched_frames touched_helpers touched_create_batch touched_charge)

lemma touched_kept: "touched {} {} {a} d d' \<Longrightarrow> kept a d d'"
  unfolding touched_def kept_def by (auto elim!: rows_kept_mono)

lemma iso_touched:
  assumes "evolves sales_safe m" "evolves (touched {} {} {a}) m"
  shows "evolves (iso a) m"
  using assms unfolding evolves_def iso_def sales_safe_def by (auto intro: touched_kept)

lemma kept_card:
  assumes ok: "sales_ok d" and r: "r \<in> set (d_cards d)" "cd_agent r = Some a"
    and "touched {cd_id r} (set_option (cd_license r)) {} d d'"
  shows "kept a d d'"
proof -
  have "cd_id c \<noteq> cd_id r" if "c \<in> set (d_cards d)" "cd_agent c \<noteq> Some a" for c
    using card_by_id [OF ok r(1) that(1)] r(2) that(2) by auto
  moreover have "li_id l \<notin> set_option (cd_license r)" if l: "l \<in> set (d_licenses d)" "li_agent l \<noteq> Some a" for l
  proof
    assume "li_id l \<in> set_option (cd_license r)"
    then have lic: "cd_license r = Some (li_id l)" by auto
    with ok r obtain k where "k \<in> set (d_licenses d)" "issued r k"
      by (fastforce simp: sales_ok_def linked_def list_all_iff list_ex_iff)
    with ok l lic have "k = l"
      by (auto simp: sales_ok_def linked_def issued_def dest: distinct_map_eqD)
    with \<open>issued r k\<close> r(2) l(2) show False by (simp add: issued_def)
  qed
  ultimately show ?thesis using assms(4) unfolding touched_def kept_def by (auto elim!: rows_kept_mono)
qed

lemma touched_card_tx:
  "evolves (touched {cd_id c} (set_option (cd_license c)) {}) (card_action_tx ac c st action reason req)"
proof -
  have "evolves (touched {cd_id c} L G) (move_card (cd_id c) st)" for L G
    by (cases st) (simp_all add: touched_cards)
  moreover have "evolves (touched K {l} G) (move_license ac l action reason req)" for K G l
    unfolding move_license_def by (intro tc.store_rules touched_frames touched_licenses) simp_all
  ultimately show ?thesis unfolding card_action_tx_def
    by (cases "cd_license c") (auto intro!: tc.seq tc.ret)
qed

text \<open>An operation that reads a card and writes only it and its licence, and only when it is the agent's.\<close>

lemma iso_after_card:
  assumes "evolves sales_safe (bindM (get_card_by_id k) f)"
    and owned: "\<And>c. cd_agent c = Some a \<Longrightarrow> cd_id c = k \<Longrightarrow> evolves (touched {cd_id c} (set_option (cd_license c)) {}) (f c)"
    and denied: "\<And>c. cd_agent c \<noteq> Some a \<Longrightarrow> f c = throwM e"
  shows "evolves (iso a) (bindM (get_card_by_id k) f)"
  unfolding evolves_def iso_def
proof (intro allI impI conjI)
  fix w :: world
  assume ok: "sales_ok (w_db w)"
  let ?w' = "snd (bindM (get_card_by_id k) f w)"
  show "sales_ok (w_db ?w')" using assms(1) ok by (simp add: evolves_def sales_safe_def)
  have unmoved: "kept a (w_db w) (w_db w)" by (simp add: kept_def rows_kept_refl)
  show "kept a (w_db w) (w_db ?w')"
  proof (cases "get_card_by_id k w")
    case (Pair q v)
    have same: "w_db v = w_db w" using evolvesD [OF same.store_reads(16) [where f = "\<lambda>d. d"] Pair] .
    show ?thesis
    proof (cases q)
      case (Inl err)
      with Pair have res: "?w' = v" by (simp add: bindM_def)
      show ?thesis unfolding res same by (rule unmoved)
    next
      case (Inr c)
      obtain r where r: "r \<in> set (d_cards (w_db w))" "c = card_view r" "cd_id r = k"
        using get_card_by_id_Inr [OF Pair [unfolded Inr]] by blast
      have view: "cd_agent c = cd_agent r" "cd_id c = cd_id r" "cd_license c = cd_license r"
        using r(2) by (simp_all add: card_view_def)
      have res: "?w' = snd (f c v)" using Pair Inr by (simp add: bindM_def)
      show ?thesis
      proof (cases "cd_agent c = Some a")
        case True
        have "touched {cd_id r} (set_option (cd_license r)) {} (w_db v) (w_db (snd (f c v)))"
          using owned [OF True] r(3) view by (simp add: evolves_def)
        then show ?thesis unfolding res same [symmetric]
          using kept_card [of "w_db v" r a] ok r(1) True view same by simp
      next
        case False
        show ?thesis unfolding res denied [OF False] throwM_def snd_conv same by (rule unmoved)
      qed
    qed
  qed
qed

lemma iso_card_action: "acts_for a ac \<Longrightarrow> evolves (iso a) (card_action ac k action reason ip req)"
  using sales_card_action [of ac k action reason ip req] unfolding card_action_def
  by (rule iso_after_card [where e = "Dom ErrCardNotFound"])
    (auto simp: not_denied intro!: tc.rules touched_frames touched_helpers touched_card_tx)

lemma iso_card_note: "acts_for a ac \<Longrightarrow> evolves (iso a) (admin_set_card_note ac k note ip req)"
  using sales_notes(2) [of ac k "note" ip req] unfolding admin_set_card_note_def
  by (rule iso_after_card [where e = "Dom ErrCardNotFound"])
    (auto simp: not_denied intro!: tc.rules touched_frames touched_helpers touched_cards)

subsection \<open>Handlers\<close>

lemma iso_bulk: "acts_for a ac \<Longrightarrow> evolves (iso a) (bulk_loop ac action reason ip rid ks n failed)"
proof (induction ks arbitrary: n failed)
  case (Cons k ks)
  then show ?case unfolding bulk_loop.simps by (intro io.rules iso_card_action) simp_all
qed (simp add: io.ret)

lemma iso_card_handlers:
  assumes "acts_for a ac"
  shows "evolves (iso a) (handle_card_action key rq ac cx)" "evolves (iso a) (handle_bulk_card_action rq ac cx)"
    "evolves (iso a) (handle_set_card_note key rq ac cx)"
  unfolding handle_card_action_def handle_bulk_card_action_def handle_set_card_note_def
  by (intro io.http_rules iso_bulk iso_card_action iso_card_note assms)+

lemma touched_handlers:
  "evolves (touched K L G) (handle_admin_login S site bound rq cx)" "evolves (touched K L G) (handle_admin_logout S rq cx)"
  "evolves (touched K L G) (handle_me ac cx)" "evolves (touched K L G) (handle_mfa_setup S ac cx)"
  "evolves (touched K L G) (handle_mfa_enable S rq ac cx)" "evolves (touched K L G) (handle_mfa_disable S rq ac cx)"
  "evolves (touched K L G) (handle_password_change S site rq ac cx)" "evolves (touched K L G) (handle_list_products ac cx)"
  "evolves (touched K L G) (handle_list_plans rq ac cx)" "evolves (touched K L G) (handle_plan_detail key cx)"
  "evolves (touched K L G) (handle_import_cards S rq ac cx)" "evolves (touched K L G) (handle_list_batches rq ac cx)"
  "evolves (touched K L G) (handle_list_cards rq ac cx)" "evolves (touched K L G) (handle_reveal_card S key ac cx)"
  "evolves (touched K L G) (handle_list_licenses rq ac cx)" "evolves (touched K L G) (handle_license_detail key ac cx)"
  "evolves (touched K L G) (handle_list_devices rq ac cx)"
  unfolding handle_admin_login_def handle_admin_logout_def handle_me_def handle_mfa_setup_def handle_mfa_enable_def
    handle_mfa_disable_def handle_password_change_def handle_list_products_def handle_list_plans_def handle_plan_detail_def
    handle_import_cards_def handle_list_batches_def handle_list_cards_def handle_reveal_card_def reveal_def
    handle_list_licenses_def handle_license_detail_def or_empty_def handle_list_devices_def
  by (intro tc.http_rules touched_frames touched_helpers touched_auth touched_import)+

lemma iso_create_batch: "acts_for a ac \<Longrightarrow> evolves (iso a) (handle_create_batch S entropy rq ac cx)"
proof (rule iso_touched)
  assume "acts_for a ac"
  then show "evolves (touched {} {} {a}) (handle_create_batch S entropy rq ac cx)"
    unfolding handle_create_batch_def send_batch_def acts_for_def
    by (auto intro!: tc.answers tc.decoded touched_batch tc.prod_case)
qed (rule sold.on_card_handlers)

lemma iso_handlers:
  "evolves (iso a) (handle_admin_login S site bound rq cx)" "evolves (iso a) (handle_admin_logout S rq cx)"
  "evolves (iso a) (handle_me ac cx)" "evolves (iso a) (handle_mfa_setup S ac cx)"
  "evolves (iso a) (handle_mfa_enable S rq ac cx)" "evolves (iso a) (handle_mfa_disable S rq ac cx)"
  "evolves (iso a) (handle_password_change S site rq ac cx)" "evolves (iso a) (handle_list_products ac cx)"
  "evolves (iso a) (handle_list_plans rq ac cx)" "evolves (iso a) (handle_plan_detail key cx)"
  "evolves (iso a) (handle_import_cards S rq ac cx)" "evolves (iso a) (handle_list_batches rq ac cx)"
  "evolves (iso a) (handle_list_cards rq ac cx)" "evolves (iso a) (handle_reveal_card S key ac cx)"
  "evolves (iso a) (handle_list_licenses rq ac cx)" "evolves (iso a) (handle_license_detail key ac cx)"
  "evolves (iso a) (handle_list_devices rq ac cx)"
  by (rule iso_touched, intro sold.on_account_handlers sold.on_card_handlers, rule touched_handlers)+

definition entry_isolated :: "string \<Rightarrow> access \<Rightarrow> bool" where
  "entry_isolated a e = (case e of Public h \<Rightarrow> \<forall>cx. evolves (iso a) (h cx)
     | Session h \<Rightarrow> \<forall>x ac cx. acts_for a ac \<longrightarrow> evolves (iso a) (h x ac cx)
     | Needs p h \<Rightarrow> p \<in> set (role_permissions AdminAgent) \<longrightarrow> (\<forall>x ac cx. acts_for a ac \<longrightarrow> evolves (iso a) (h x ac cx)))"

lemma isolated_entries: "list_all (\<lambda>(m, p, e). entry_isolated a e) (admin_routes S site en rq)"
  by (simp add: admin_routes_def account_routes_def card_routes_def agent_routes_def site_routes_def entry_isolated_def
      iso_handlers iso_card_handlers iso_create_batch)

text \<open>No session the request could use belongs to anyone but the agent.\<close>

definition only_agent :: "svc \<Rightarrow> http_request \<Rightarrow> string \<Rightarrow> time \<Rightarrow> db \<Rightarrow> bool" where
  "only_agent S rq a t d \<longleftrightarrow> \<not> signed_in S rq t d (\<lambda>ad. ad_role ad \<noteq> ''agent'' \<or> ad_agent ad \<noteq> Some a)"

lemma iso_refl: "iso a d d"
  by (rule io.R_refl)

lemma iso_access:
  assumes e: "entry_isolated a e" and only: "only_agent S rq a (pg_time (w_now w)) (w_db w)"
    and run: "run_access S rq e x cx w = (r, w')"
  shows "iso a (w_db w) (w_db w')"
proof -
  have agent: "acts_for a ac" if "granted S rq (pg_time (w_now w)) (ac_session ac) (ac_admin ac)"
      "ac_session ac \<in> set (d_sessions (w_db w))" "ac_admin ac \<in> set (d_admins (w_db w))" for ac
    using only that by (fastforce simp: only_agent_def signed_in_def list_ex_iff acts_for_def is_agent_def)
  have session: "iso a (w_db w) (w_db w')" if "require_admin_session S rq h cx w = (r, w')"
    and h: "\<And>ac cx. acts_for a ac \<Longrightarrow> evolves (iso a) (h ac cx)" for h
    using require_session_run [OF that(1)]
  proof (elim disjE exE conjE)
    fix ac v
    assume "h ac (cx\<lparr>hc_admin := Some ac\<rparr>) v = (r, w')" "w_db v = w_db w" "ac_session ac \<in> set (d_sessions (w_db w))"
      "ac_admin ac \<in> set (d_admins (w_db w))" "granted S rq (pg_time (w_now w)) (ac_session ac) (ac_admin ac)"
    then show ?thesis using evolvesD [OF h [OF agent]] by metis
  qed (simp add: iso_refl)
  show ?thesis
  proof (cases e)
    case (Public h)
    then show ?thesis using e run by (auto simp: entry_isolated_def run_access_def dest: evolvesD)
  next
    case (Session h)
    then show ?thesis using e run session [of "h x"] by (simp add: entry_isolated_def run_access_def)
  next
    case (Needs p h)
    have "evolves (iso a) (require_perm p (h x) ac cx)" if "acts_for a ac" for ac cx
    proof (cases "role_allows (ac_admin ac) p")
      case True
      then have "p \<in> set (role_permissions AdminAgent)"
        using that by (auto simp: role_allows_def acts_for_def is_agent_def role_has_iff split: option.splits if_splits)
      then show ?thesis using e Needs that True by (simp add: entry_isolated_def require_perm_def)
    qed (simp add: require_perm_def io.answers)
    then show ?thesis using run session [of "require_perm p (h x)"] Needs by (simp add: run_access_def)
  qed
qed

text \<open>C7. An agent's login reaches only what is the agent's: when every session a request could use belongs
  to agent \<open>a\<close>, then whatever the request is, each card and licence of another owner and each other
  agent's account is afterwards exactly as before, and so are the products, plans, grants, devices,
  renewals, users, bans, announcements, versions, rate limits and keys.\<close>
theorem agent_isolation:
  assumes ok: "sales_ok (w_db w)" and only: "only_agent S rq a (pg_time (w_now w)) (w_db w)"
    and run: "serve_admin S site en rq w = (r, w')"
  shows "kept a (w_db w) (w_db w')"
proof -
  obtain cx v r0 where v: "dispatch_admin S site en rq cx v = (r0, w')" "w_db v = w_db w" "w_now v = w_now w"
    by (rule with_context_run [OF run [unfolded serve_admin_def]])
  have "iso a (w_db v) (w_db w')"
  proof (cases "find_route (hq_method rq) (hq_path rq) (admin_routes S site en rq)")
    case None
    then show ?thesis using v(1) by (simp add: dispatch_admin_def Let_def no_admin_route_def retM_def iso_refl)
  next
    case (Some p)
    obtain e x where p: "p = (e, x)" by fastforce
    have "entry_isolated a e" using find_route_in [OF Some [unfolded p]] isolated_entries [of a S site en rq]
      by (auto simp: list_all_iff)
    then show ?thesis
      by (rule iso_access [where S = S and rq = rq and x = x and cx = cx and r = r0])
        (use v only Some p in \<open>simp_all add: dispatch_admin_def Let_def\<close>)
  qed
  then show ?thesis using ok v(2) by (simp add: iso_def)
qed

lemma agent_isolation_witness:
  "list_ex (\<lambda>c. c = sold_card) (d_cards (w_db (snd (serve_admin demo_svc demo_site []
     (signed_request ''tb'' ''POST'' ''/admin/v1/cards/c1/action'' []) (demo_world office_db)))))"
proof -
  let ?rq = "signed_request ''tb'' ''POST'' ''/admin/v1/cards/c1/action'' []"
  obtain r w' where run: "serve_admin demo_svc demo_site [] ?rq (demo_world office_db) = (r, w')" by fastforce
  have ok: "sales_ok (w_db (demo_world office_db))"
    using sold_ok by (simp add: sales_ok_def office_db_def demo_world_def demo_server_def sr_db_def)
  have "token_hash demo_svc ''tb'' \<noteq> token_hash demo_svc ''tt''"
    by (simp add: token_hash_def demo_svc_def plain_prims_def) code_simp
  then have "only_agent demo_svc ?rq ''b'' t (w_db (demo_world office_db))" for t
    by (auto simp: only_agent_def signed_in_def granted_def session_live_def office_db_def demo_world_def
        signed_request_def demo_session_def demo_admin_def list_ex_iff)
  then have "kept ''b'' (w_db (demo_world office_db)) (w_db w')" by (rule agent_isolation [OF ok _ run])
  then show ?thesis using run
    by (simp add: kept_def rows_kept_def office_db_def demo_world_def sold_db_def sold_card_def list_ex_iff)
qed

end
