(* ===== verification/Statements.thy ===== *)
theory Statements
  imports Handlers
begin

section \<open>Statements: from the store to the services\<close>

text \<open>
  The locale \<open>statements\<close> is the interface between the store and the services: a preorder on databases that
  every writing statement respects, and the two operations that move money as wholes (a balance and its
  ledger line are written by two statements of one transaction). All services respect it then; \<open>statements\<close>
  gives \<open>operations\<close> (\<open>sublocale\<close>), and so every run of the deployment.
\<close>

locale statements = db_preorder R for R +
  assumes put_products: "\<And>c n. evolves R (create_product c n)" "\<And>k s. evolves R (set_product_status k s)"
    and put_plans: "\<And>p. evolves R (create_plan p)" "\<And>k s. evolves R (set_plan_status k s)"
      "\<And>p. evolves R (update_plan p)"
      "\<And>k. evolves R (delete_plan k)"
    and put_batches: "\<And>b. evolves R (insert_batch b)" "\<And>k. evolves R (delete_batches_by_plan k)"
    and put_grants: "\<And>a p. evolves R (grant_agent_product a p)" "\<And>a p. evolves R (revoke_agent_product a p)"
    and put_agents: "\<And>n o1. evolves R (create_agent n o1)" "\<And>k s. evolves R (set_agent_status k s)"
    and put_cards: "\<And>b s. evolves R (insert_card b s)" "\<And>k st. evolves R (set_card_status k st)"
      "\<And>k st st2. evolves R (transition_card_status k st st2)"
      "\<And>k st. evolves R (transition_card_to_terminal k st)"
      "\<And>k l i. evolves R (set_card_activated k l i)" "\<And>k n. evolves R (set_card_note k n)"
      "\<And>k n. evolves R (mark_card_used_by_user k n)"
      "\<And>k. evolves R (void_and_delete_unused_cards k)"
    and put_licenses: "\<And>l. evolves R (create_license l)"
      "\<And>k ls ls2. evolves R (transition_license k ls ls2)" "\<And>k ls. evolves R (transition_license_terminal k ls)"
      "\<And>k. evolves R (consume_license_use k)" "\<And>k i. evolves R (extend_license k i)"
      "\<And>k n. evolves R (set_license_note k n)"
      "\<And>k. evolves R (touch_licenses_policy k)"
    and put_devices: "\<And>v. evolves R (create_device v)" "\<And>k n. evolves R (store_unbind_device k n)"
      "\<And>k i n s. evolves R (bump_device_heartbeat k i n s)" "\<And>k i. evolves R (accept_seq_stmt k i)"
      "\<And>k n s u. evolves R (rotate_device_pub k n s u)"
    and put_renewals: "\<And>k n i o1 o2. evolves R (insert_renewal k n i o1 o2)"
    and put_activations: "\<And>k n s u v. evolves R (insert_activation k n s u v)"
    and put_events: "\<And>k n s u det. evolves R (insert_license_event k n s u det)"
      "evolves R mark_expired_license_events"
    and put_users: "\<And>u. evolves R (create_end_user u)" "\<And>k i. evolves R (extend_end_user k i)"
      "\<And>k n. evolves R (bind_end_user_machine k n)" "\<And>k. evolves R (reset_end_user_machine k)"
      "\<And>k n. evolves R (set_end_user_password k n)" "\<And>k n. evolves R (set_end_user_status k n)"
      "\<And>k n. evolves R (set_end_user_note k n)"
      "\<And>k n. evolves R (touch_end_user_login k n)"
    and put_user_logs: "\<And>o1 n s o2 o3 det. evolves R (insert_end_user_log o1 n s o2 o3 det)"
    and put_messages: "\<And>k n s. evolves R (create_soft_message k n s)"
      "\<And>i b. evolves R (set_soft_message_enabled i b)"
      "\<And>i. evolves R (delete_soft_message i)"
    and put_versions: "\<And>k n s u b. evolves R (create_product_version k n s u b)"
      "\<And>i. evolves R (delete_product_version i)"
    and put_limits: "\<And>k i. evolves R (upsert_api_rate_limit k i)"
    and put_admins: "\<And>a. evolves R (store_create_admin a)" "\<And>k. evolves R (on_login_success k)"
      "\<And>k. evolves R (on_login_failed k)"
      "\<And>k o1 b. evolves R (set_admin_mfa k o1 b)" "\<And>k n b. evolves R (set_admin_password k n b)"
      "\<And>k n. evolves R (set_admin_status k n)"
      "\<And>k n. evolves R (update_admin_username k n)" "\<And>k n. evolves R (reset_admin_password k n)"
    and put_sessions: "\<And>s. evolves R (create_session s)" "\<And>k. evolves R (revoke_session k)"
      "\<And>k. evolves R (revoke_all_sessions k)"
      "evolves R reap_sessions"
    and put_audits: "\<And>a. evolves R (insert_audit a)"
    and put_risks: "\<And>k n s u det. evolves R (insert_risk_event k n s u det)"
    and put_bans: "\<And>k n s u o1. evolves R (store_create_ban k n s u o1)"
      "\<And>k n. evolves R (store_delete_ban k n)"
    and put_kex: "\<And>k n s b. evolves R (upsert_kex_key k n s b)"
    and charged: "\<And>entropy ac rq ip req. evolves R (create_card_batch S entropy ac rq ip req)"
      "\<And>ac agent amt note ip req. evolves R (agent_adjust_balance ac agent amt note ip req)"
begin

lemma lifted: "evolves R (liftE r)" "evolves R fresh_id" "evolves R (check_password S pw phc)" "evolves R m \<Longrightarrow> evolves R (or_no_rows e m)"
proof -
  have lift: "evolves R (liftE r)" for r :: "error + 'x" by (cases r) (simp_all add: liftE_def ret)
  then show "evolves R (liftE r)" .
  show "evolves R (check_password S pw phc)" unfolding check_password_def by (rule lift)
  show "evolves R fresh_id" by (simp add: evolves_def fresh_id_def R_refl)
  show "evolves R m \<Longrightarrow> evolves R (or_no_rows e m)" unfolding or_no_rows_def by (rule wrap)
qed

lemmas put_rules = store_rules lifted put_products put_plans put_batches put_grants put_agents put_cards put_licenses
  put_devices put_renewals put_activations put_events put_users put_user_logs put_messages put_versions put_limits
  put_admins put_sessions put_audits put_risks put_bans put_kex charged

lemma checks: "evolves R (refuse_banned kind val)" "evolves R (check_version ver low)"
  "evolves R (product_code_of pid)" "evolves R (only_super ac msg)" "evolves R (get_product_id_by_code code)"
  "evolves R (batch_plan plan_id pid)" "evolves R (agent_may_make ac pid)" "evolves R (hash_admin_password S pw)"
  "evolves R (hash_user_password S pw)" "evolves R (parse_user_token S tok)" "evolves R (heartbeat_reply S now lic dev pl)"
  "evolves R (user_reply S u code)" "evolves R (signed_device S ds named path body)"
  unfolding refuse_banned_def check_version_def product_code_of_def only_super_def get_product_id_by_code_def
    batch_plan_def agent_may_make_def require_grant_def hash_admin_password_def hash_user_password_def
    parse_user_token_def heartbeat_reply_def user_reply_def signed_device_def
  by (intro put_rules)+

lemma import_loop: "evolves R (import_seeds S pl pid kind seen pre raws)"
proof (induction raws arbitrary: seen pre)
  case (Cons raw raws)
  show ?case unfolding import_seeds.simps by (intro put_rules Cons)
qed (simp add: ret)

lemma pick_loop: "evolves R (pick_code es code)"
proof (induction es arbitrary: code)
  case (Cons e es)
  show ?case unfolding pick_code.simps by (intro put_rules Cons)
qed (simp add: ret)

lemma card_loop: "evolves R (insert_cards b ss)"
  by (induction ss) (simp_all add: ret bind put_cards)

lemma loops: "evolves R (create_batch b ss)"
  unfolding create_batch_def by (intro put_rules card_loop)

lemma helpers: "evolves R (record_risk k s u t det)" "evolves R (audit ac act tt tg b g det2 ip req)"
  "evolves R (log_user uid name kind pid oip det)" "evolves R (accept_device_seq dk n)" "evolves R (open_session S who)"
  unfolding record_risk_def audit_def log_user_def accept_device_seq_def open_session_def
  by (intro put_rules)+

lemma guards: "evolves R (check_activation_replay S ds pub ip)" "evolves R (check_replay S dev ds ip scope)"
  "evolves R (take_seat res)" "evolves R (renew_seat lic dev pl)" "evolves R (card_failure ip)" "evolves R (user_signup_burst ip)"
  "evolves R (login_failed who k s ip e)" "evolves R (authenticate S who pw totp ip)" "evolves R (check_machine u fp ip)"
  unfolding check_activation_replay_def check_replay_def check_seq_step_def seq_fallback_def take_seat_def
    renew_seat_def card_failure_def user_signup_burst_def login_failed_def authenticate_def check_machine_def
  by (intro put_rules helpers)+

lemma sales_steps: "evolves R (activate_fresh now c pl pr p fp ip req)" "evolves R (activate_bound now c pl pr p fp ip req)"
  "evolves R (redeem_tx now dev lookup req)" "evolves R (card_action_tx ac c st action reason req)"
  "evolves R (license_action_tx ac l target action reason req)"
proof -
  have "evolves R (move_card cid st)" for cid st by (cases st) (simp_all add: put_cards)
  then show "evolves R (card_action_tx ac c st action reason req)" unfolding card_action_tx_def move_license_def
    by (intro put_rules)
qed (unfold activate_fresh_def first_use_def build_result_def activate_bound_def activate_again_def activate_device_def
  redeem_tx_def check_renewal_card_def renew_with_def license_action_tx_def, (intro put_rules)+)

lemmas step_rules = put_rules checks import_loop pick_loop loops helpers guards sales_steps

lemma client_services: "evolves R (activate S body sig ip req)" "evolves R (redeem S body ds ip req)"
  "evolves R (heartbeat S ds body ip)" "evolves R (deactivate S ds body ip req)"
  "evolves R (user_register S code name pw sec ip)" "evolves R (user_sign_in S code name pw cs ip)"
  "evolves R (user_bind_card S tok input ip)" "evolves R (user_change_password S tok old_pw new_pw)"
  "evolves R (user_recover S code name sec new_pw ip)"
proof -
  have "evolves R (activate_tx S now p lookup fp ip req)" for now p lookup fp
    unfolding activate_tx_def by (intro step_rules) (auto split: card_status.split intro!: step_rules)
  then show "evolves R (activate S body sig ip req)" unfolding activate_def by (intro step_rules)
qed (unfold redeem_def heartbeat_def deactivate_def user_register_def user_sign_in_def user_bind_card_def bind_card_tx_def check_bind_card_def
    user_change_password_def user_recover_def, (intro step_rules)+)

lemma auth_services: "evolves R (admin_login S name pw totp ip req)" "evolves R (bootstrap_admin S name pw totp)"
  "evolves R (mfa_setup S ac)" "evolves R (mfa_enable S ac code)" "evolves R (mfa_disable S ac pw)"
  "evolves R (admin_change_password S ac old_pw new_pw)"
  unfolding admin_login_def bootstrap_admin_def mfa_setup_def mfa_enable_def mfa_disable_def admin_change_password_def
  by (intro step_rules)+

lemma catalogue_services: "evolves R (svc_create_product ent ac code name ip req)" "evolves R (product_status ac key st ip req)"
  "evolves R (svc_create_plan ac p ip req)" "evolves R (svc_update_plan ac key p ip req)"
  "evolves R (svc_delete_plan ac key ip req)" "evolves R (plan_status ac key st ip req)"
  unfolding svc_create_product_def product_status_def svc_create_plan_def svc_update_plan_def svc_delete_plan_def plan_status_def
  by (intro step_rules)+

lemma card_services: "evolves R (import_cards S ac pid key cards kind note ip req)" "evolves R (card_action ac key act reason ip req)"
  "evolves R (admin_set_card_note ac key note ip req)" "evolves R (license_action ac key act reason ip req)"
  "evolves R (admin_set_license_note ac key note ip req)" "evolves R (admin_extend_license ac key days reason ip req)"
  "evolves R (unbind_device ac key reason ip req)"
  unfolding import_cards_def card_action_def admin_set_card_note_def license_action_def admin_set_license_note_def
    admin_extend_license_def unbind_device_def
  by (intro step_rules)+

lemma agent_services: "evolves R (svc_create_agent S ac name parent u pw ip req)"
  "evolves R (set_agent_product_grant ac agent pid granted ip req)" "evolves R (update_agent_account S ac agent key u pw ip req)"
  "evolves R (agent_status ac key st ip req)" "evolves R (create_admin S ac u name pw role ag ip req)"
  "evolves R (svc_set_admin_status ac key st ip req)" "evolves R (create_ban ac kind val reason til ip req)"
  "evolves R (delete_ban ac kind val ip req)"
  unfolding svc_create_agent_def set_agent_product_grant_def update_agent_account_def reset_agent_password_def
    agent_status_def create_admin_def svc_set_admin_status_def create_ban_def delete_ban_def
  by (intro step_rules)+

end

sublocale statements \<subseteq> operations R
  by unfold_locales (intro step_rules client_services auth_services catalogue_services card_services agent_services; fail)+

end
