(* ===== verification/History.thy ===== *)
theory History
  imports Statements
begin

section \<open>History: what no run of the deployment rewrites\<close>

text \<open>
  The preorder \<open>history\<close>: the logs and the ledger only grow at their end; accounts, agents, devices,
  users, products and licences keep their place and what identifies them. Each statement of the store
  respects it, so by the interface \<open>statements\<close> every run does.
\<close>

subsection \<open>Tables whose rows stay and move along a relation\<close>

definition grows :: "('r \<Rightarrow> 'r \<Rightarrow> bool) \<Rightarrow> 'r list \<Rightarrow> 'r list \<Rightarrow> bool" where
  "grows q t t' \<longleftrightarrow> list_all2 q t (take (length t) t')"

lemma grows_refl: "(\<And>r. q r r) \<Longrightarrow> grows q t t"
  by (simp add: grows_def list.rel_refl)

lemma grows_length: "grows q t u \<Longrightarrow> length t \<le> length u"
  unfolding grows_def by (drule list_all2_lengthD) simp

lemma grows_nth: "grows q t u \<longleftrightarrow> length t \<le> length u \<and> (\<forall>i < length t. q (t ! i) (u ! i))"
  by (auto simp: grows_def list_all2_conv_all_nth)

lemma grows_trans: "transp q \<Longrightarrow> grows q t u \<Longrightarrow> grows q u v \<Longrightarrow> grows q t v"
  unfolding grows_nth by (meson order.trans order.strict_trans2 transpD)

lemma grows_append: "(\<And>r. q r r) \<Longrightarrow> grows q t (t @ u)"
  by (simp add: grows_def list.rel_refl)

lemma grows_upd: "(\<And>r. q r r) \<Longrightarrow> (\<And>r. p r \<Longrightarrow> q r (f r)) \<Longrightarrow> grows q t (upd p f t)"
  by (simp add: grows_nth upd_def)

lemma grows_same: "grows (=) t u \<longleftrightarrow> (\<exists>v. u = t @ v)"
  unfolding grows_def list.rel_eq by (metis append_eq_conv_conj append_take_drop_id)

definition same_admin :: "admin \<Rightarrow> admin \<Rightarrow> bool" where
  "same_admin a b \<longleftrightarrow> ad_id b = ad_id a \<and> ad_role b = ad_role a \<and> ad_agent b = ad_agent a \<and> ad_created b = ad_created a"

definition same_agent :: "agent \<Rightarrow> agent \<Rightarrow> bool" where
  "same_agent a b \<longleftrightarrow> ag_id b = ag_id a \<and> ag_name b = ag_name a \<and> ag_parent b = ag_parent a"

definition device_next :: "device \<Rightarrow> device \<Rightarrow> bool" where
  "device_next a b \<longleftrightarrow> dv_id b = dv_id a \<and> dv_license b = dv_license a \<and> dv_fp b = dv_fp a \<and>
     dv_bound b = dv_bound a \<and> dv_seq a \<le> dv_seq b \<and> (dv_status a = DeviceUnbound \<longrightarrow> dv_status b = DeviceUnbound)"

definition same_user :: "end_user \<Rightarrow> end_user \<Rightarrow> bool" where
  "same_user a b \<longleftrightarrow> eu_id b = eu_id a \<and> eu_product b = eu_product a \<and> eu_username b = eu_username a"

definition logs_grow :: "db \<Rightarrow> db \<Rightarrow> bool" where
  "logs_grow d d' \<longleftrightarrow> grows (=) (d_audits d) (d_audits d') \<and> grows (=) (d_events d) (d_events d') \<and>
     grows (=) (d_agent_txs d) (d_agent_txs d') \<and> grows (=) (d_renewals d) (d_renewals d') \<and>
     grows (=) (d_activations d) (d_activations d') \<and> grows (=) (d_risks d) (d_risks d') \<and>
     grows (=) (d_user_logs d) (d_user_logs d')"

definition rows_stay :: "db \<Rightarrow> db \<Rightarrow> bool" where
  "rows_stay d d' \<longleftrightarrow> grows same_admin (d_admins d) (d_admins d') \<and> grows same_agent (d_agents d) (d_agents d') \<and>
     grows device_next (d_devices d) (d_devices d') \<and> grows same_user (d_users d) (d_users d')"

definition history :: "db \<Rightarrow> db \<Rightarrow> bool" where
  "history d d' \<longleftrightarrow> logs_grow d d' \<and> rows_stay d d'"

lemma same_refl: "same_admin a a" "same_agent g g" "device_next v v" "same_user u u"
  by (simp_all add: same_admin_def same_agent_def device_next_def same_user_def)

lemma same_trans: "transp same_admin" "transp same_agent" "transp device_next" "transp same_user"
  by (auto simp: transp_def same_admin_def same_agent_def device_next_def same_user_def)

lemma logs_grow_trans: "logs_grow a b \<Longrightarrow> logs_grow b c \<Longrightarrow> logs_grow a c"
  unfolding logs_grow_def grows_same by (elim conjE exE) simp

lemma rows_stay_trans: "rows_stay a b \<Longrightarrow> rows_stay b c \<Longrightarrow> rows_stay a c"
  unfolding rows_stay_def
  using grows_trans [OF same_trans(1)] grows_trans [OF same_trans(2)] grows_trans [OF same_trans(3)]
    grows_trans [OF same_trans(4)] by blast

interpretation hi: db_preorder history
proof
  show "history d d" for d
    by (simp add: history_def logs_grow_def rows_stay_def grows_refl same_refl)
  show "history a b \<Longrightarrow> history b c \<Longrightarrow> history a c" for a b c
    unfolding history_def using logs_grow_trans rows_stay_trans by blast
qed

subsection \<open>Statements\<close>

lemmas history_defs = history_def logs_grow_def rows_stay_def

lemmas history_simps = history_defs grows_refl grows_append same_refl

lemma history_log: "evolves history (insert_audit a)" "evolves history (insert_license_event k n s u det)"
  "evolves history mark_expired_license_events" "evolves history (insert_agent_transaction g i j kind o1 o2 o3)"
  "evolves history (insert_renewal k n i e e')" "evolves history (insert_activation k n s u ip)"
  "evolves history (insert_risk_event k n s u det)" "evolves history (insert_end_user_log o1 n s o2 o3 det)"
  unfolding insert_audit_def insert_license_event_def mark_expired_license_events_def insert_agent_transaction_def
    insert_renewal_def insert_activation_def insert_risk_event_def insert_end_user_log_def
  by ((intro hi.exec hi.serial hi.new_row hi.assign hi.rules; auto simp: history_simps Let_def split: if_splits)+)

lemma history_admins: "evolves history (store_create_admin a)" "evolves history (on_login_success k)"
  "evolves history (on_login_failed k)" "evolves history (set_admin_mfa k o1 b)" "evolves history (set_admin_password k n b)"
  "evolves history (set_admin_status k n)" "evolves history (update_admin_username k n)" "evolves history (reset_admin_password k n)"
  unfolding store_create_admin_def on_login_success_def on_login_failed_def set_admin_mfa_def set_admin_password_def
    set_admin_status_def update_admin_username_def reset_admin_password_def upd_admin_def
  by ((intro hi.exec hi.serial hi.new_row hi.assign hi.rules; auto simp: history_simps need_rows_def same_admin_def failed_row_def
    Let_def split: if_splits option.splits intro!: grows_upd)+)

lemma history_agents: "evolves history (create_agent n o1)" "evolves history (set_agent_status k s)"
  "evolves history (deduct_agent_balance k i)" "evolves history (top_up_agent_balance k i)"
  unfolding create_agent_def set_agent_status_def deduct_agent_balance_def top_up_agent_balance_def add_balance_def
  by ((intro hi.exec hi.serial hi.new_row hi.assign hi.rules; auto simp: history_simps need_rows_def same_agent_def
    Let_def split: if_splits option.splits intro!: grows_upd)+)

lemma history_devices: "evolves history (create_device v)" "evolves history (store_unbind_device k n)"
  "evolves history (bump_device_heartbeat k i n s)" "evolves history (accept_seq_stmt k i)" "evolves history (rotate_device_pub k n s u)"
  unfolding create_device_def store_unbind_device_def bump_device_heartbeat_def accept_seq_stmt_def rotate_device_pub_def
  by ((intro hi.exec hi.serial hi.new_row hi.assign hi.rules; auto simp: history_simps need_rows_def device_next_def heartbeat_row_def unbind_row_def
    Let_def split: if_splits option.splits intro!: grows_upd)+)

lemma history_users: "evolves history (create_end_user u)" "evolves history (extend_end_user k i)"
  "evolves history (bind_end_user_machine k n)" "evolves history (reset_end_user_machine k)"
  "evolves history (set_end_user_password k n)" "evolves history (set_end_user_status k n)"
  "evolves history (set_end_user_note k n)" "evolves history (touch_end_user_login k n)"
  unfolding create_end_user_def extend_end_user_def bind_end_user_machine_def reset_end_user_machine_def
    set_end_user_password_def set_end_user_status_def set_end_user_note_def touch_end_user_login_def upd_user_def
  by ((intro hi.exec hi.serial hi.new_row hi.assign hi.rules; auto simp: history_simps need_rows_def same_user_def
    Let_def split: if_splits option.splits intro!: grows_upd)+)

text \<open>The other tables are free.\<close>

definition written :: "db \<Rightarrow> (audit_log list \<times> license_event list \<times> agent_tx list \<times> renewal list) \<times>
    (activation list \<times> risk_event list \<times> end_user_log list) \<times> admin list \<times> agent list \<times> device list \<times> end_user list" where
  "written d = ((d_audits d, d_events d, d_agent_txs d, d_renewals d), (d_activations d, d_risks d, d_user_logs d),
     d_admins d, d_agents d, d_devices d, d_users d)"

lemma history_leaves: "leaves written m \<Longrightarrow> evolves history m"
  unfolding evolves_def by (simp add: written_def history_simps)

lemma written_ignores:
  "written (d\<lparr>d_products := x1\<rparr>) = written d" "written (d\<lparr>d_plans := x2\<rparr>) = written d"
  "written (d\<lparr>d_batches := x3\<rparr>) = written d" "written (d\<lparr>d_grants := x4\<rparr>) = written d"
  "written (d\<lparr>d_cards := x5\<rparr>) = written d" "written (d\<lparr>d_licenses := x6\<rparr>) = written d"
  "written (d\<lparr>d_messages := x7\<rparr>) = written d" "written (d\<lparr>d_versions := x8\<rparr>) = written d"
  "written (d\<lparr>d_limits := x9\<rparr>) = written d" "written (d\<lparr>d_sessions := x10\<rparr>) = written d"
  "written (d\<lparr>d_bans := x11\<rparr>) = written d" "written (d\<lparr>d_kex := x12\<rparr>) = written d"
  by (simp_all add: written_def)

lemmas history_free = leaves_products [where f = written, OF written_ignores(1)] leaves_plans [where f = written, OF written_ignores(2)]
  leaves_batches [where f = written, OF written_ignores(3)] leaves_grants [where f = written, OF written_ignores(4)]
  leaves_cards [where f = written, OF written_ignores(5)] leaves_licenses [where f = written, OF written_ignores(6)]
  leaves_messages [where f = written, OF written_ignores(7)] leaves_versions [where f = written, OF written_ignores(8)]
  leaves_limits [where f = written, OF written_ignores(9)] leaves_sessions [where f = written, OF written_ignores(10)]
  leaves_bans [where f = written, OF written_ignores(11)] leaves_kex [where f = written, OF written_ignores(12)]

lemmas history_helpers = leaves_lift [where f = written, THEN history_leaves] leaves_checks [where f = written, THEN history_leaves]
  leaves_batch_seeds [where f = written, THEN history_leaves]

lemmas history_statements = history_log history_admins history_agents history_devices history_users
  history_free [THEN history_leaves]

lemma history_cards: "evolves history (create_batch b ss)"
proof -
  have "evolves history (insert_cards b ss)" for b by (induction ss) (simp_all add: hi.ret hi.bind history_statements)
  then show ?thesis unfolding create_batch_def by (intro hi.store_rules history_statements)
qed

lemma history_charged: "evolves history (create_card_batch S entropy ac rq ip req)"
  "evolves history (agent_adjust_balance ac agent amt note ip req)"
  unfolding create_card_batch_def agent_adjust_balance_def charge_agent_def audit_def or_no_rows_def
  by (intro hi.store_rules history_statements history_cards history_helpers)+

interpretation told: statements history
  by unfold_locales (rule history_statements history_charged)+

subsection \<open>The properties\<close>

text \<open>C8. The records are append-only: on every run of the deployment the audit log, the licence events, the
  agents' ledger, the renewals, the activations, the risk log and the user log only get new rows at the end;
  no request, failure or sweep changes or removes a line that was written.\<close>
theorem records_append_only:
  assumes "runs_to S site s t"
  shows "logs_grow (sr_db s) (sr_db t)"
  using told.on_runs [OF assms] by (simp add: history_def)

lemma records_append_only_witness: "logs_grow (sr_db demo_server) (sr_db demo_end)"
  by (rule records_append_only [OF demo_run])

text \<open>C9. What identifies a row is fixed for good: on every run, each administrator keeps its role and agent (no
  request can promote an account), each agent its name and parent, each user its product and name, and each
  device its licence and fingerprint; a device's sequence number never goes back, and an unbound device is
  never active again.\<close>
theorem identities_fixed:
  assumes "runs_to S site s t"
  shows "rows_stay (sr_db s) (sr_db t)"
  using told.on_runs [OF assms] by (simp add: history_def)

lemma identities_fixed_witness: "rows_stay (sr_db demo_server) (sr_db demo_end)"
  by (rule identities_fixed [OF demo_run])

end
