(* ===== verification/Locks.thy ===== *)
theory Locks
  imports History
begin

section \<open>Locks: the count of failed logins and the lock belong together\<close>

text \<open>
  The invariant \<open>locks_ok\<close> of the accounts of the back office. Only the statements on the table of
  administrators can break it; the interface \<open>statements\<close> carries it through every run.
\<close>

definition lock_ok :: "admin \<Rightarrow> bool" where
  "lock_ok a \<longleftrightarrow> 0 \<le> ad_failed a \<and> (ad_locked a \<noteq> None \<longleftrightarrow> 5 \<le> ad_failed a)"

definition locks_ok :: "db \<Rightarrow> bool" where
  "locks_ok d \<longleftrightarrow> list_all lock_ok (d_admins d)"

abbreviation keeps_locks :: "db \<Rightarrow> db \<Rightarrow> bool" where
  "keeps_locks \<equiv> \<lambda>d d'. locks_ok d \<longrightarrow> locks_ok d'"

lemma locks_leaves: "leaves d_admins m \<Longrightarrow> evolves keeps_locks m"
  unfolding evolves_def by (simp add: locks_ok_def)

lemma locks_upd: "list_all lock_ok t \<Longrightarrow> (\<And>r. lock_ok r \<Longrightarrow> lock_ok (f r)) \<Longrightarrow> list_all lock_ok (upd p f t)"
  by (auto simp: list_all_iff upd_def)

lemma locks_admins: "evolves keeps_locks (store_create_admin a)" "evolves keeps_locks (on_login_success k)"
  "evolves keeps_locks (on_login_failed k)" "evolves keeps_locks (set_admin_mfa k o1 b)" "evolves keeps_locks (set_admin_password k n b)"
  "evolves keeps_locks (set_admin_status k n)" "evolves keeps_locks (update_admin_username k n)" "evolves keeps_locks (reset_admin_password k n)"
  unfolding store_create_admin_def on_login_success_def on_login_failed_def set_admin_mfa_def set_admin_password_def
    set_admin_status_def update_admin_username_def reset_admin_password_def upd_admin_def
  by ((intro inv.exec inv.serial inv.new_row inv.assign inv.rules; auto simp: locks_ok_def lock_ok_def need_rows_def failed_row_def
    admin_row_def Let_def split: if_splits option.splits intro!: locks_upd)+)

text \<open>No other statement writes that table.\<close>

lemmas locks_free = leaves_products leaves_plans leaves_batches leaves_grants leaves_agents leaves_agent_txs leaves_cards
  leaves_licenses leaves_devices leaves_renewals leaves_activations leaves_events leaves_users leaves_user_logs leaves_messages
  leaves_versions leaves_limits leaves_sessions leaves_audits leaves_risks leaves_bans leaves_kex

lemmas locks_statements = locks_admins locks_free [where f = d_admins, simplified, THEN locks_leaves]

lemmas locks_helpers = leaves_lift [where f = d_admins, THEN locks_leaves] leaves_checks [where f = d_admins, THEN locks_leaves]
  leaves_batch_seeds [where f = d_admins, THEN locks_leaves]

lemma locks_cards: "evolves keeps_locks (create_batch b ss)"
proof -
  have "evolves keeps_locks (insert_cards b ss)" for b by (induction ss) (simp_all add: inv.ret inv.bind locks_statements)
  then show ?thesis unfolding create_batch_def by (intro inv.store_rules locks_statements)
qed

lemma locks_charged: "evolves keeps_locks (create_card_batch S entropy ac rq ip req)"
  "evolves keeps_locks (agent_adjust_balance ac agent amt note ip req)"
  unfolding create_card_batch_def agent_adjust_balance_def charge_agent_def audit_def or_no_rows_def
  by (intro inv.store_rules locks_statements locks_cards locks_helpers)+

interpretation locks: statements keeps_locks
  by unfold_locales (rule locks_statements locks_charged)+

text \<open>C18. An account of the back office carries a lock, running or run out, exactly when five failures or more are counted for it:
  from any state where this holds of every account (as of a database without accounts), on every run, whatever is requested
  and fails, it goes on holding and no count is negative. So the fifth failure and every later one sets a lock, and what takes
  it away (a login, a new password) clears the count with it.\<close>
theorem locks_counted:
  assumes "runs_to S site s t" "locks_ok (sr_db s)"
  shows "\<forall>a \<in> set (d_admins (sr_db t)). 0 \<le> ad_failed a \<and> (ad_locked a \<noteq> None \<longleftrightarrow> 5 \<le> ad_failed a)"
proof -
  have "locks_ok (sr_db s) \<longrightarrow> locks_ok (sr_db t)" using assms(1) by (rule locks.on_runs)
  then have "\<forall>a \<in> set (d_admins (sr_db t)). lock_ok a" using assms(2) unfolding locks_ok_def list_all_iff by blast
  then show ?thesis unfolding lock_ok_def .
qed

text \<open>A back office with a locked account, and the next day.\<close>

definition locked_office :: server where
  "locked_office = \<lparr>sr_world = demo_world (office_db\<lparr>d_admins := [(demo_admin ''boss'' ''superadmin'' None)\<lparr>ad_failed := 5, ad_locked := Some 0\<rparr>]\<rparr>),
     sr_limits = new_limiter\<rparr>"

definition next_day :: "server \<Rightarrow> server" where
  "next_day s = s\<lparr>sr_world := (sr_world s)\<lparr>w_now := w_now (sr_world s) + day\<rparr>\<rparr>"

lemma locks_counted_witness:
  "\<exists>a \<in> set (d_admins (sr_db (next_day locked_office))). 5 \<le> ad_failed a \<and> ad_locked a \<noteq> None"
proof -
  have run: "runs_to demo_svc demo_site locked_office (next_day locked_office)"
    using time_passes [of locked_office "w_now (sr_world locked_office) + day" demo_svc demo_site]
    by (intro r_into_rtranclp) (simp add: next_day_def day_def second_def)
  have "locks_ok (sr_db locked_office)"
    by (simp add: locked_office_def sr_db_def demo_world_def office_db_def demo_admin_def locks_ok_def lock_ok_def)
  from locks_counted [OF run this] show ?thesis
    by (simp add: next_day_def locked_office_def sr_db_def demo_world_def office_db_def demo_admin_def)
qed

end
