(* ===== verification/Ledger.thy ===== *)
theory Ledger
  imports Statements
begin

section \<open>Ledger: the agents' money\<close>

text \<open>
  An agent pays for its cards from a balance. \<open>books_ok\<close> says that the ledger explains every balance: it is the
  sum of the agent's lines and never negative, and each line carries the balance after it. A charge and a
  top-up write a balance and a line in one transaction, so only their committed runs are of interest
  (\<open>commits\<close>).
\<close>

definition account_total :: "string \<Rightarrow> agent_tx list \<Rightarrow> int" where
  "account_total a txs = sum_list (map tx_amount (filter (\<lambda>x. tx_agent x = a) txs))"

definition lines_ok :: "agent_tx list \<Rightarrow> bool" where
  "lines_ok txs \<longleftrightarrow> list_all (\<lambda>i. tx_after (txs ! i) = account_total (tx_agent (txs ! i)) (take (Suc i) txs)) [0..<length txs]"

definition books_ok :: "db \<Rightarrow> bool" where
  "books_ok d \<longleftrightarrow> distinct (map ag_id (d_agents d)) \<and>
     list_all (\<lambda>g. 0 \<le> ag_balance g \<and> ag_balance g = account_total (ag_id g) (d_agent_txs d)) (d_agents d) \<and>
     list_all (\<lambda>x. list_ex (\<lambda>g. ag_id g = tx_agent x) (d_agents d)) (d_agent_txs d) \<and> lines_ok (d_agent_txs d)"

lemma total_simps [simp]: "account_total a [] = 0" "account_total a (x # txs) = (if tx_agent x = a then tx_amount x else 0) + account_total a txs"
  "account_total a (txs @ us) = account_total a txs + account_total a us"
  by (simp_all add: account_total_def)

lemma lines_ok_snoc: "lines_ok (txs @ [x]) \<longleftrightarrow> lines_ok txs \<and> tx_after x = account_total (tx_agent x) txs + tx_amount x"
  by (auto simp: lines_ok_def list_all_iff nth_append)

lemma total_absent: "list_all (\<lambda>x. tx_agent x \<noteq> a) txs \<Longrightarrow> account_total a txs = 0"
  by (induction txs) auto

subsection \<open>What a committed run does\<close>

definition commits :: "(db \<Rightarrow> db \<Rightarrow> bool) \<Rightarrow> 'a srv \<Rightarrow> bool" where
  "commits R m \<longleftrightarrow> (\<forall>w. case m w of (Inl e, w') \<Rightarrow> True | (Inr x, w') \<Rightarrow> R (w_db w) (w_db w'))"

lemma commitsD: "commits R m \<Longrightarrow> m w = (Inr x, w') \<Longrightarrow> R (w_db w) (w_db w')"
  by (auto simp: commits_def dest: spec [of _ w])

lemma commitsI: "(\<And>w x w'. m w = (Inr x, w') \<Longrightarrow> R (w_db w) (w_db w')) \<Longrightarrow> commits R m"
  by (auto simp: commits_def split: prod.splits sum.splits)

context db_preorder
begin

lemma commits_evolves: "evolves R m \<Longrightarrow> commits R m"
  by (auto intro: commitsI dest: evolvesD)

lemma commits_bind: "commits R m \<Longrightarrow> (\<And>x. commits R (f x)) \<Longrightarrow> commits R (bindM m f)"
  by (rule commitsI) (auto simp: bindM_Inr_iff dest!: commitsD intro: R_trans)

lemma commits_seq: "commits R m \<Longrightarrow> commits R k \<Longrightarrow> commits R (seqM m k)"
  unfolding seqM_def by (rule commits_bind)

lemma commits_if: "commits R m \<Longrightarrow> commits R n \<Longrightarrow> commits R (if b then m else n)"
  by simp

lemma commits_prod: "(\<And>a b. commits R (f a b)) \<Longrightarrow> commits R (case x of (a, b) \<Rightarrow> f a b)"
  by (cases x) auto

lemma commits_tx: "commits R body \<Longrightarrow> evolves R (with_tx body)"
  by (rule tx) (rule commitsD)

lemmas commit_rules = commits_tx commits_prod commits_if commits_seq commits_bind

end

subsection \<open>Balance and line together\<close>

definition books_kept :: "db \<Rightarrow> db \<Rightarrow> bool" where
  "books_kept d d' \<longleftrightarrow> (books_ok d \<longrightarrow> books_ok d')"

interpretation bk: db_preorder books_kept
  by unfold_locales (auto simp: books_kept_def)

lemma books_move:
  assumes ok: "books_ok d" and g: "find (\<lambda>r. ag_id r = key) (d_agents d) = Some g" and pos: "0 \<le> ag_balance g + amt"
    and tx: "tx_agent x = key" "tx_amount x = amt" "tx_after x = ag_balance g + amt"
    and agents: "d_agents d' = upd (\<lambda>r. ag_id r = key) (\<lambda>r. r\<lparr>ag_balance := ag_balance r + amt\<rparr>) (d_agents d)"
    and txs: "d_agent_txs d' = d_agent_txs d @ [x]"
  shows "books_ok d'"
proof -
  have g': "g \<in> set (d_agents d)" "ag_id g = key" using find_Some_in [OF g] by auto
  have ids: "map ag_id (d_agents d') = map ag_id (d_agents d)" unfolding agents by (rule map_upd_eq) simp
  have one: "r = g" if "r \<in> set (d_agents d)" "ag_id r = key" for r
    using ok g' that by (auto simp: books_ok_def dest: distinct_map_eqD)
  have "list_all (\<lambda>r. 0 \<le> ag_balance r \<and> ag_balance r = account_total (ag_id r) (d_agent_txs d')) (d_agents d')"
    unfolding agents txs list_all_iff
  proof
    fix r assume "r \<in> set (upd (\<lambda>r. ag_id r = key) (\<lambda>r. r\<lparr>ag_balance := ag_balance r + amt\<rparr>) (d_agents d))"
    then obtain q where q: "q \<in> set (d_agents d)" "r = (if ag_id q = key then q\<lparr>ag_balance := ag_balance q + amt\<rparr> else q)"
      by (auto simp: in_upd_iff)
    then have "0 \<le> ag_balance q" "ag_balance q = account_total (ag_id q) (d_agent_txs d)"
      using ok by (auto simp: books_ok_def list_all_iff)
    then show "0 \<le> ag_balance r \<and> ag_balance r = account_total (ag_id r) (d_agent_txs d @ [x])"
      using q one [of q] pos tx by (cases "ag_id q = key") simp_all
  qed
  moreover have "list_all (\<lambda>x. list_ex (\<lambda>g. ag_id g = tx_agent x) (d_agents d')) (d_agent_txs d')"
  proof -
    have "list_ex (\<lambda>g. ag_id g = a) (d_agents d') \<longleftrightarrow> a \<in> set (map ag_id (d_agents d'))" for a
      by (auto simp: list_ex_iff)
    moreover have "list_ex (\<lambda>g. ag_id g = a) (d_agents d) \<longleftrightarrow> a \<in> set (map ag_id (d_agents d))" for a
      by (auto simp: list_ex_iff)
    ultimately show ?thesis using ok g' tx(1) by (auto simp: books_ok_def txs ids)
  qed
  moreover have "lines_ok (d_agent_txs d')"
    using ok g' tx by (auto simp: books_ok_def txs lines_ok_snoc list_all_iff)
  ultimately show ?thesis using ok ids by (simp add: books_ok_def)
qed

lemma inserted_line:
  assumes "insert_agent_transaction agent amt after kind b nt who w = (Inr u, w')"
  shows "\<exists>x. tx_agent x = agent \<and> tx_amount x = amt \<and> tx_after x = after \<and>
    w_db w' = (w_db w)\<lparr>d_agent_txs := d_agent_txs (w_db w) @ [x]\<rparr>"
proof -
  let ?x = "\<lparr>tx_agent = agent, tx_amount = amt, tx_after = after, tx_kind = kind, tx_batch = b, tx_note = nt, tx_by = who,
    tx_created = pg_time (w_now w)\<rparr>"
  have "w_db w' = (w_db w)\<lparr>d_agent_txs := d_agent_txs (w_db w) @ [?x]\<rparr>"
    using assms by (auto simp: insert_agent_transaction_def dest!: db_exec_Inr split: if_splits)
  then show ?thesis by (intro exI [of _ ?x]) simp
qed

lemma charge_agent_run:
  assumes "charge_agent ac agent pl quantity batch_id w = (Inr u, w')" "0 < pl_price pl"
  obtains g x where "find (\<lambda>r. ag_id r = agent) (d_agents (w_db w)) = Some g" "quantity * pl_price pl \<le> ag_balance g"
    "tx_agent x = agent" "tx_amount x = - (quantity * pl_price pl)" "tx_after x = ag_balance g - quantity * pl_price pl"
    "w_db w' = (add_balance agent (- (quantity * pl_price pl)) (w_db w))\<lparr>d_agent_txs := d_agent_txs (w_db w) @ [x]\<rparr>"
proof -
  let ?cost = "quantity * pl_price pl"
  from assms obtain after v nt who where ded: "deduct_agent_balance agent ?cost w = (Inr after, v)"
    and ins: "insert_agent_transaction agent (- ?cost) after ''batch_purchase'' (Some batch_id) nt who v = (Inr u, w')"
    by (auto simp: charge_agent_def or_no_rows_def mapErrM_def bindM_Inr_iff throwM_eq_iff Let_def
        split: if_splits prod.splits sum.splits)
  from ded obtain g where g: "find (\<lambda>r. ag_id r = agent) (d_agents (w_db w)) = Some g" "\<not> ag_balance g < ?cost"
    "after = ag_balance g - ?cost" "w_db v = add_balance agent (- ?cost) (w_db w)"
    by (auto simp: deduct_agent_balance_def throwM_eq_iff dest!: db_exec_Inr split: if_splits option.splits)
  obtain x where "tx_agent x = agent" "tx_amount x = - ?cost" "tx_after x = after"
    "w_db w' = (w_db v)\<lparr>d_agent_txs := d_agent_txs (w_db v) @ [x]\<rparr>"
    using inserted_line [OF ins] by blast
  with g show thesis by (intro that [of g x]) (simp_all add: add_balance_def)
qed

lemma books_charge: "commits books_kept (charge_agent ac agent pl quantity batch_id)"
proof (rule commitsI)
  fix w :: world and u w'
  assume run: "charge_agent ac agent pl quantity batch_id w = (Inr u, w')"
  let ?cost = "quantity * pl_price pl"
  show "books_kept (w_db w) (w_db w')"
  proof (cases "0 < pl_price pl")
    case False
    with run show ?thesis by (simp add: charge_agent_def retM_def bk.R_refl)
  next
    case True
    with run obtain g x where g: "find (\<lambda>r. ag_id r = agent) (d_agents (w_db w)) = Some g" "?cost \<le> ag_balance g"
      and x: "tx_agent x = agent" "tx_amount x = - ?cost" "tx_after x = ag_balance g - ?cost"
        "w_db w' = (add_balance agent (- ?cost) (w_db w))\<lparr>d_agent_txs := d_agent_txs (w_db w) @ [x]\<rparr>"
      by (rule charge_agent_run)
    show ?thesis unfolding books_kept_def
      by (intro impI, erule books_move [OF _ g(1), where amt = "- ?cost" and x = x])
        (use g x in \<open>simp_all add: add_balance_def\<close>)
  qed
qed

lemma books_adjust:
  "commits books_kept (bindM (or_no_rows (Dom ErrInsufficientBalance) (top_up_agent_balance agent amt)) (\<lambda>after.
     seqM (insert_agent_transaction agent amt after kind None nt who) (retM after)))"
proof (rule commitsI)
  fix w :: world and u w'
  assume "bindM (or_no_rows (Dom ErrInsufficientBalance) (top_up_agent_balance agent amt)) (\<lambda>after.
     seqM (insert_agent_transaction agent amt after kind None nt who) (retM after)) w = (Inr u, w')"
  then obtain after v y where top: "top_up_agent_balance agent amt w = (Inr after, v)"
    and ins: "insert_agent_transaction agent amt after kind None nt who v = (Inr y, w')"
    by (auto simp: or_no_rows_def mapErrM_def bindM_Inr_iff seqM_Inr_iff retM_eq_iff split: prod.splits sum.splits)
  from top obtain g where g: "find (\<lambda>r. ag_id r = agent) (d_agents (w_db w)) = Some g" "\<not> ag_balance g + amt < 0"
    "after = ag_balance g + amt" "w_db v = add_balance agent amt (w_db w)"
    by (auto simp: top_up_agent_balance_def dest!: db_exec_Inr split: if_splits option.splits)
  obtain x where x: "tx_agent x = agent" "tx_amount x = amt" "tx_after x = after"
    "w_db w' = (w_db v)\<lparr>d_agent_txs := d_agent_txs (w_db v) @ [x]\<rparr>"
    using inserted_line [OF ins] by blast
  show "books_kept (w_db w) (w_db w')" unfolding books_kept_def
    by (intro impI, erule books_move [OF _ g(1), where amt = amt and x = x])
      (use g x in \<open>simp_all add: add_balance_def\<close>)
qed

subsection \<open>Statements\<close>

lemma no_lines: "books_ok d \<Longrightarrow> \<not> exists_row (\<lambda>r. ag_id r = i) (d_agents d) \<Longrightarrow> account_total i (d_agent_txs d) = 0"
  by (rule total_absent) (auto simp: books_ok_def list_all_iff list_ex_iff exists_row_iff)

lemma books_new_agent:
  assumes ok: "books_ok d" and new: "\<not> exists_row (\<lambda>r. ag_id r = ag_id g) (d_agents d)" and "ag_balance g = 0"
  shows "books_ok (d\<lparr>d_agents := d_agents d @ [g]\<rparr>)"
  using assms no_lines [OF ok new] by (auto simp: books_ok_def list_all_iff list_ex_iff exists_row_iff)

text \<open>The books depend on the ids and balances of the agents only.\<close>

definition accounts :: "db \<Rightarrow> (string \<times> int) list" where
  "accounts d = map (\<lambda>g. (ag_id g, ag_balance g)) (d_agents d)"

lemma books_accounts:
  "books_ok d \<longleftrightarrow> distinct (map fst (accounts d)) \<and>
     list_all (\<lambda>(a, b). 0 \<le> b \<and> b = account_total a (d_agent_txs d)) (accounts d) \<and>
     list_all (\<lambda>x. list_ex (\<lambda>p. fst p = tx_agent x) (accounts d)) (d_agent_txs d) \<and> lines_ok (d_agent_txs d)"
  by (simp add: books_ok_def accounts_def comp_def list_all_iff list_ex_iff)

lemma books_agents: "evolves books_kept (create_agent name parent)" "evolves books_kept (set_agent_status key st)"
proof -
  show "evolves books_kept (create_agent name parent)"
    unfolding create_agent_def
    by (rule bk.new_row) (auto simp: books_kept_def Let_def intro!: books_new_agent split: if_splits)
  show "evolves books_kept (set_agent_status key st)"
    unfolding set_agent_status_def
    by (intro bk.exec) (auto simp: books_kept_def books_accounts accounts_def need_rows_def map_upd_eq split: if_splits)
qed

definition money :: "db \<Rightarrow> agent list \<times> agent_tx list" where
  "money d = (d_agents d, d_agent_txs d)"

lemma money_leaves: "leaves money m \<Longrightarrow> evolves books_kept m"
  unfolding evolves_def by (simp add: money_def books_kept_def books_ok_def)

lemma money_ignores:
  "money (d\<lparr>d_products := x1\<rparr>) = money d" "money (d\<lparr>d_plans := x2\<rparr>) = money d"
  "money (d\<lparr>d_batches := x3\<rparr>) = money d" "money (d\<lparr>d_grants := x4\<rparr>) = money d"
  "money (d\<lparr>d_cards := x5\<rparr>) = money d" "money (d\<lparr>d_licenses := x6\<rparr>) = money d"
  "money (d\<lparr>d_devices := x7\<rparr>) = money d" "money (d\<lparr>d_renewals := x8\<rparr>) = money d"
  "money (d\<lparr>d_activations := x9\<rparr>) = money d" "money (d\<lparr>d_events := x10\<rparr>) = money d"
  "money (d\<lparr>d_users := x11\<rparr>) = money d" "money (d\<lparr>d_user_logs := x12\<rparr>) = money d"
  "money (d\<lparr>d_messages := x13\<rparr>) = money d" "money (d\<lparr>d_versions := x14\<rparr>) = money d"
  "money (d\<lparr>d_limits := x15\<rparr>) = money d" "money (d\<lparr>d_admins := x16\<rparr>) = money d"
  "money (d\<lparr>d_sessions := x17\<rparr>) = money d" "money (d\<lparr>d_audits := x18\<rparr>) = money d"
  "money (d\<lparr>d_risks := x19\<rparr>) = money d" "money (d\<lparr>d_bans := x20\<rparr>) = money d"
  "money (d\<lparr>d_kex := x21\<rparr>) = money d"
  by (simp_all add: money_def)

lemmas money_free = leaves_products [where f = money, OF money_ignores(1)] leaves_plans [where f = money, OF money_ignores(2)]
  leaves_batches [where f = money, OF money_ignores(3)] leaves_grants [where f = money, OF money_ignores(4)]
  leaves_cards [where f = money, OF money_ignores(5)] leaves_licenses [where f = money, OF money_ignores(6)]
  leaves_devices [where f = money, OF money_ignores(7)] leaves_renewals [where f = money, OF money_ignores(8)]
  leaves_activations [where f = money, OF money_ignores(9)] leaves_events [where f = money, OF money_ignores(10)]
  leaves_users [where f = money, OF money_ignores(11)] leaves_user_logs [where f = money, OF money_ignores(12)]
  leaves_messages [where f = money, OF money_ignores(13)] leaves_versions [where f = money, OF money_ignores(14)]
  leaves_limits [where f = money, OF money_ignores(15)] leaves_admins [where f = money, OF money_ignores(16)]
  leaves_sessions [where f = money, OF money_ignores(17)] leaves_audits [where f = money, OF money_ignores(18)]
  leaves_risks [where f = money, OF money_ignores(19)] leaves_bans [where f = money, OF money_ignores(20)]
  leaves_kex [where f = money, OF money_ignores(21)]

lemmas books_statements = books_agents money_free [THEN money_leaves]

lemmas books_helpers = leaves_lift [where f = money, THEN money_leaves] leaves_checks [where f = money, THEN money_leaves]
  leaves_batch_seeds [where f = money, THEN money_leaves]

lemma books_cards: "evolves books_kept (create_batch b ss)"
proof -
  have "evolves books_kept (insert_cards b ss)" for b by (induction ss) (simp_all add: bk.ret bk.bind books_statements)
  then show ?thesis unfolding create_batch_def by (intro bk.store_rules books_statements)
qed

lemma books_charged: "evolves books_kept (create_card_batch S entropy ac rq ip req)"
  "evolves books_kept (agent_adjust_balance ac agent amt nt ip req)"
proof -
  have read: "commits books_kept (or_no_rows e (get_agent key))" for e key
    unfolding or_no_rows_def by (intro bk.commits_evolves bk.store_rules)
  have keep: "commits books_kept (retM x)" for x :: 'x by (intro bk.commits_evolves bk.ret)
  show "evolves books_kept (create_card_batch S entropy ac rq ip req)"
    unfolding create_card_batch_def audit_def
    by (intro bk.commit_rules bk.commits_evolves [OF books_cards] books_charge keep
        bk.store_rules(1-20) bk.bind bk.seq bk.wrap bk.if_case bk.sum_case bk.prod_case bk.let_case books_statements books_helpers)
  show "evolves books_kept (agent_adjust_balance ac agent amt nt ip req)"
    unfolding agent_adjust_balance_def audit_def
    by (intro bk.if_case bk.ret bk.bind bk.commits_tx bk.commits_seq read books_adjust bk.seq bk.wrap books_statements)
qed

interpretation books: statements books_kept
  by unfold_locales (rule books_statements books_charged)+

subsection \<open>Imports\<close>

lemmas money_rules = same.store_rules money_free leaves_lift [where f = money] leaves_checks [where f = money]
  leaves_import_seeds [where f = money]

lemma money_import: "leaves money (import_cards S ac pid plan_id cards kind nt ip req)"
proof -
  have "leaves money (insert_cards b ss)" for b ss by (induction ss) (simp_all add: same.ret same.bind money_free)
  then show ?thesis unfolding import_cards_def create_batch_def audit_def by (intro money_rules)
qed

definition fresh_card :: "string option \<Rightarrow> card \<Rightarrow> bool" where
  "fresh_card owner c \<longleftrightarrow> cd_agent c = owner \<and> cd_status c = CardUnused \<and> cd_license c = None"

lemma fresh_row: "fresh_card (cb_agent b) (card_row b s t i)"
  by (simp add: fresh_card_def card_row_def)

lemma insert_cards_run:
  "insert_cards b ss w = (Inr cs, w') \<Longrightarrow> \<exists>new. d_cards (w_db w') = d_cards (w_db w) @ new \<and>
     length new = length ss \<and> list_all (fresh_card (cb_agent b)) new"
proof (induction ss arbitrary: w cs)
  case Nil
  then show ?case by (auto simp: retM_eq_iff)
next
  case (Cons s ss)
  from Cons.prems obtain c v cs' where c: "insert_card b s w = (Inr c, v)" and rest: "insert_cards b ss v = (Inr cs', w')"
    by (auto simp: bindM_Inr_iff retM_eq_iff)
  from c obtain t i where row: "(w_db w)\<lparr>d_cards := d_cards (w_db w) @ [card_row b s t i]\<rparr> = w_db v"
    unfolding insert_card_def by (auto dest!: db_new_Inr split: if_splits)
  have "d_cards (w_db v) = d_cards (w_db w) @ [card_row b s t i]" unfolding row [symmetric] by simp
  moreover obtain new where "d_cards (w_db w') = d_cards (w_db v) @ new" "length new = length ss"
    "list_all (fresh_card (cb_agent b)) new" using Cons.IH [OF rest] by blast
  ultimately show ?case
    using fresh_row [of b s t i] by (intro exI [of _ "card_row b s t i # new"]) simp
qed

lemma import_seeds_length: "import_seeds S pl pid kind seen pre raws w = (Inr (ss, q), w') \<Longrightarrow> length ss = length raws"
proof (induction raws arbitrary: seen pre w ss q)
  case (Cons raw raws)
  then show ?case
    by (auto simp: Let_def bindM_Inr_iff retM_eq_iff throwM_eq_iff split: sum.splits if_splits prod.splits)
qed (simp add: retM_eq_iff)

lemma create_batch_run:
  assumes "create_batch b ss w = (Inr (row, cs), w')"
  shows "\<exists>new. d_cards (w_db w') = d_cards (w_db w) @ new \<and> length new = length ss \<and> list_all (fresh_card (cb_agent b)) new"
proof -
  from assms obtain v where b: "insert_batch b w = (Inr row, v)" and c: "insert_cards row ss v = (Inr cs, w')"
    by (auto simp: create_batch_def bindM_Inr_iff retM_eq_iff)
  have "cb_agent row = cb_agent b" "d_cards (w_db v) = d_cards (w_db w)"
    using b evolvesD [OF leaves_batches(1) [where f = d_cards] b]
    by (auto simp: insert_batch_def Let_def dest!: db_new_Inr split: if_splits)
  with insert_cards_run [OF c] show ?thesis by simp
qed

text \<open>C20. The ledger explains every balance, on every run: an agent's balance is the sum of its ledger lines and
  never negative, every line belongs to an agent and carries the balance it left, whatever charges, top-ups and
  adjustments ran and wherever a transaction failed.\<close>
theorem books_balance:
  assumes "books_ok (sr_db s)" "runs_to S site s t"
  shows "books_ok (sr_db t)"
  using books.on_runs [OF assms(2)] assms(1) by (simp add: books_kept_def)

definition rich_db :: db where
  "rich_db = sold_db\<lparr>d_agents := [\<lparr>ag_id = ''a'', ag_name = ''A'', ag_parent = None, ag_balance = 300, ag_status = ''active'',
       ag_created = 0\<rparr>],
     d_agent_txs := [\<lparr>tx_agent = ''a'', tx_amount = 500, tx_after = 500, tx_kind = ''topup'', tx_batch = None, tx_note = None,
       tx_by = None, tx_created = 0\<rparr>,
       \<lparr>tx_agent = ''a'', tx_amount = - 200, tx_after = 300, tx_kind = ''batch_purchase'', tx_batch = None, tx_note = None,
       tx_by = None, tx_created = 0\<rparr>]\<rparr>"

lemma rich_books: "books_ok rich_db"
  by (simp add: books_ok_def rich_db_def lines_ok_def upt_rec)

lemma books_balance_witness:
  "books_ok (w_db (snd (run_sweep ((demo_world rich_db)\<lparr>w_db_faults := [Late, Fine]\<rparr>))))"
proof -
  let ?s = "\<lparr>sr_world = (demo_world rich_db)\<lparr>w_db_faults := [Late, Fine]\<rparr>, sr_limits = new_limiter\<rparr>"
  let ?t = "?s\<lparr>sr_world := snd (run_sweep (sr_world ?s))\<rparr>"
  have run: "step demo_svc demo_site ?s ?t" by (rule sweep) (rule prod.collapse [symmetric])
  have ok: "books_ok (sr_db ?s)" using rich_books by (simp add: sr_db_def demo_world_def)
  have "runs_to demo_svc demo_site ?s ?t" using run by (rule r_into_rtranclp)
  from books_balance [OF ok this] show ?thesis by (simp add: sr_db_def)
qed

text \<open>C22. An import is free: whoever imports cards, a success adds one unused card per text, owned by no agent, and
  no agent's balance and no ledger line changes, whatever the plan's price is. (Only \<open>CreateCardBatch\<close> charges;
  the permission to import is one that agents have.)\<close>
theorem import_is_free:
  assumes "import_cards S ac pid plan_id cards kind nt ip req w = (Inr n, w')"
  shows "d_agents (w_db w') = d_agents (w_db w) \<and> d_agent_txs (w_db w') = d_agent_txs (w_db w) \<and>
    n = int (length cards) \<and> (\<exists>new. d_cards (w_db w') = d_cards (w_db w) @ new \<and> length new = length cards \<and>
      list_all (fresh_card None) new)"
proof -
  have cards_kept: "leaves d_cards (batch_plan a b)" "leaves d_cards (agent_may_make ac b)"
    "leaves d_cards (import_seeds S pl b kind [] [] cards)" "leaves d_cards (ignoreM (insert_audit r))" for a b pl kind r
    by (intro leaves_checks leaves_import_seeds same.wrap leaves_audits; simp)+
  from assms obtain pl pr v0 v1 v2 v3 kd seeds pre b cs x
    where bp: "batch_plan plan_id pid w = (Inr (pl, pr), v0)" and may: "agent_may_make ac (pr_id pr) v0 = (Inr x, v1)"
      and seeds: "import_seeds S pl (pr_id pr) kd [] [] cards v1 = (Inr (seeds, pre), v2)"
      and tx: "with_tx (create_batch (batch_row None (pr_id pr) (pl_id pl) (int (length seeds)) pre nt (ad_id (ac_admin ac))) seeds)
        v2 = (Inr (b, cs), v3)"
      and fin: "d_cards (w_db w') = d_cards (w_db v3)" "n = int (length seeds)"
    unfolding import_cards_def audit_def
    by (auto simp: Let_def bindM_Inr_iff seqM_Inr_iff retM_eq_iff throwM_eq_iff split: if_splits prod.splits
        dest!: evolvesD [OF cards_kept(4)])
  have same: "d_cards (w_db v2) = d_cards (w_db w)"
    using evolvesD [OF cards_kept(1) bp] evolvesD [OF cards_kept(2) may] evolvesD [OF cards_kept(3) seeds] by simp
  from tx obtain u u' where u: "create_batch (batch_row None (pr_id pr) (pl_id pl) (int (length seeds)) pre nt
      (ad_id (ac_admin ac))) seeds u = (Inr (b, cs), u')" "w_db u = w_db v2" "w_db v3 = w_db u'"
    by (rule with_tx_InrE)
  from create_batch_run [OF u(1)] obtain new where "d_cards (w_db u') = d_cards (w_db u) @ new" "length new = length seeds"
    "list_all (fresh_card None) new" by (auto simp: batch_row_def)
  moreover have "length seeds = length cards" by (rule import_seeds_length [OF seeds])
  ultimately show ?thesis
    using evolvesD [OF money_import assms] same u fin by (auto simp: money_def)
qed

text \<open>A shop where agent \<open>a\<close>, with 300 cents left, may sell a plan of 250 cents.\<close>

definition shop_plan :: plan where
  "shop_plan = \<lparr>pl_id = ''pl'', pl_product = ''p'', pl_code = ''month'', pl_name = ''Month'', pl_kind = ''duration'',
     pl_days = 30, pl_fixed_days = 0, pl_uses = 0, pl_devices = 1, pl_concurrent = 0, pl_features = [], pl_grace = 0,
     pl_lease_ttl = 3600, pl_heartbeat = 60, pl_cooldown = 0, pl_rebinds = 0, pl_min_version = [], pl_price = 250,
     pl_status = ''active'', pl_created = 0\<rparr>"

definition shop_db :: db where
  "shop_db = rich_db\<lparr>d_products := [\<lparr>pr_id = ''p'', pr_code = ''app'', pr_name = ''App'', pr_status = ''active'',
     pr_created = 0\<rparr>], d_plans := [shop_plan], d_grants := [(''a'', ''p'')]\<rparr>"

definition shop_agent :: admin_context where
  "shop_agent = \<lparr>ac_session = demo_session ''a1'' ''ta'', ac_admin = demo_admin ''a1'' ''agent'' (Some ''a'')\<rparr>"

definition shop_card :: string where
  "shop_card = replicate 26 CHR ''B''"

lemma shop_card_good: "normalize_card shop_card = Inr shop_card"
  by (rule normalize_card_fix) (simp_all add: shop_card_def card_alphabet_def)

lemmas run_defs = next_row_def get_plan_def get_product_def db_one_def db_exec_def db_step_def db_read_def db_new_def db_serial_def
  with_tx_def create_batch_def insert_batch_def insert_card_def exists_row_def agent_ref_ok_def product_plan_ok_def
  in_strs_def int4_def random_token_def liftE_def agent_has_product_def require_grant_def is_agent_def agent_may_make_def
  batch_plan_def card_seed_of_def encrypt_card_secret_def kind_or_license_def valid_kind_def batch_row_def audit_def
  card_row_def mdefs

lemma shop_card_prefix: "text_len 0 8 (card_prefix shop_card)"
  by (simp add: shop_card_def card_prefix_def card_group_first_def text_len_def runes_ascii ascii_def list_all_iff byte_def)

lemma shop_run:
  "fst (import_cards demo_svc shop_agent ''p'' ''pl'' [shop_card] ''license'' [] [] [] (demo_world shop_db)) = Inr 1"
  by (simp add: import_cards_def shop_agent_def demo_admin_def shop_db_def rich_db_def shop_card_prefix
    sold_db_def empty_db_def demo_world_def shop_card_good run_defs shop_plan_def Let_def demo_svc_def
    sold_card_def used_renewal_card_def card_lookup_def card_hmac_def plain_prims_def hex_encode_def)

lemma import_is_free_witness:
  "d_agents (w_db (snd (import_cards demo_svc shop_agent ''p'' ''pl'' [shop_card] ''license'' [] [] [] (demo_world shop_db)))) =
     d_agents shop_db \<and> pl_price shop_plan = 250"
  using import_is_free [OF prod_eqI [OF trans [OF shop_run fst_conv [symmetric]] snd_conv [symmetric]]]
  by (simp add: demo_world_def shop_plan_def)

subsection \<open>A charged batch\<close>

lemma batch_seeds_length: "batch_seeds S pl pid kind pts w = (Inr ss, w') \<Longrightarrow> length ss = length pts"
  by (induction pts arbitrary: w ss) (auto simp: bindM_Inr_iff retM_eq_iff)

lemma generated_length:
  assumes "generate_texts n pre entropy = Inr (texts, rest)"
  shows "length texts = nat n"
  using assms batch_loop_sound [where P = "\<lambda>_. True"]
  by (fastforce simp: generate_texts_def generate_card_batch_def generate_card_batch_with_prefix_def split: if_splits sum.splits)

text \<open>What agent \<open>a\<close> has left.\<close>

definition balance_of :: "string \<Rightarrow> db \<Rightarrow> int option" where
  "balance_of a d = map_option ag_balance (find (\<lambda>r. ag_id r = a) (d_agents d))"

lemma balance_moved: "find (\<lambda>r. ag_id r = a) (d_agents d) = Some g \<Longrightarrow>
    balance_of a (add_balance a amt d) = Some (ag_balance g + amt)"
proof -
  have "find (\<lambda>r. ag_id r = a) rs = Some g \<Longrightarrow>
      find (\<lambda>r. ag_id r = a) (upd (\<lambda>r. ag_id r = a) (\<lambda>r. r\<lparr>ag_balance := ag_balance r + amt\<rparr>) rs) =
        Some (g\<lparr>ag_balance := ag_balance g + amt\<rparr>)" for rs
    by (induction rs) (auto split: if_splits)
  then show "find (\<lambda>r. ag_id r = a) (d_agents d) = Some g \<Longrightarrow> ?thesis"
    by (simp add: balance_of_def add_balance_def)
qed

text \<open>The money a batch moves.\<close>

definition paid :: "string \<Rightarrow> int \<Rightarrow> db \<Rightarrow> db \<Rightarrow> bool" where
  "paid agent cost d d' \<longleftrightarrow> (\<exists>left x. balance_of agent d = Some (left + cost) \<and> 0 \<le> left \<and> balance_of agent d' = Some left \<and>
     tx_agent x = agent \<and> tx_amount x = - cost \<and> tx_after x = left \<and>
     money d' = (d_agents (add_balance agent (- cost) d), d_agent_txs d @ [x]))"

lemma charge_paid:
  assumes "charge_agent ac agent pl quantity batch_id w = (Inr u, w')"
  shows "d_cards (w_db w') = d_cards (w_db w)"
    and "if 0 < pl_price pl then paid agent (quantity * pl_price pl) (w_db w) (w_db w') else money (w_db w') = money (w_db w)"
proof -
  let ?cost = "quantity * pl_price pl"
  consider "\<not> 0 < pl_price pl" "w' = w" | "0 < pl_price pl"
    using assms by (auto simp: charge_agent_def retM_eq_iff split: if_splits)
  then have "d_cards (w_db w') = d_cards (w_db w) \<and> (if 0 < pl_price pl then paid agent ?cost (w_db w) (w_db w')
    else money (w_db w') = money (w_db w))"
  proof cases
    case 2
    obtain g x where g: "find (\<lambda>r. ag_id r = agent) (d_agents (w_db w)) = Some g" "?cost \<le> ag_balance g"
      and x: "tx_agent x = agent" "tx_amount x = - ?cost" "tx_after x = ag_balance g - ?cost"
        "w_db w' = (add_balance agent (- ?cost) (w_db w))\<lparr>d_agent_txs := d_agent_txs (w_db w) @ [x]\<rparr>"
      by (rule charge_agent_run [OF assms 2])
    have "paid agent ?cost (w_db w) (w_db w')" unfolding paid_def
      by (rule exI [of _ "ag_balance g - ?cost"], rule exI [of _ x])
        (use g x balance_moved [OF g(1), of "- ?cost"] in \<open>simp add: balance_of_def money_def add_balance_def\<close>)
    with 2 x(4) show ?thesis by (simp add: add_balance_def)
  qed simp
  then show "d_cards (w_db w') = d_cards (w_db w)"
    "if 0 < pl_price pl then paid agent ?cost (w_db w) (w_db w') else money (w_db w') = money (w_db w)" by simp_all
qed

lemma money_create_batch: "leaves money (create_batch b ss)"
proof -
  have "leaves money (insert_cards b ss)" for b by (induction ss) (simp_all add: same.ret same.bind money_free)
  then show ?thesis unfolding create_batch_def by (intro money_rules)
qed

lemma paid_cong: "money d = money e \<Longrightarrow> money d' = money e' \<Longrightarrow> paid agent cost d d' = paid agent cost e e'"
  by (simp add: paid_def money_def balance_of_def add_balance_def)

text \<open>C21. An agent pays for the cards made for it: a batch that succeeds adds exactly the ordered number of unused cards,
  all owned by the agent, and when the plan has a price, takes quantity times price from a balance that covers it and
  writes one ledger line with that amount and the balance left; nothing else moves in the accounts. A batch for nobody,
  or of a free plan, moves no money.\<close>
theorem batch_is_charged:
  assumes "create_card_batch S entropy ac rq ip req w = (Inr (b, texts), w')"
  shows "\<exists>pl new. find (\<lambda>r. pl_id r = br_plan rq) (d_plans (w_db w)) = Some pl \<and>
    d_cards (w_db w') = d_cards (w_db w) @ new \<and> int (length new) = br_quantity rq \<and> length texts = length new \<and>
    list_all (fresh_card (str_opt (br_agent rq))) new \<and>
    (if br_agent rq \<noteq> [] \<and> 0 < pl_price pl then paid (br_agent rq) (br_quantity rq * pl_price pl) (w_db w) (w_db w')
     else money (w_db w') = money (w_db w))"
proof -
  let ?view = "\<lambda>d. (d_cards d, money d)"
  have still: "leaves ?view (batch_plan x y)" "leaves ?view (agent_may_make ac y)" "leaves ?view (batch_seeds S pl x y texts)"
    "leaves ?view (liftE q)" "leaves ?view (ignoreM (insert_audit r))" for x y pl texts r and q :: "error + string list \<times> nat list"
    by (intro leaves_checks leaves_batch_seeds leaves_lift same.wrap leaves_audits; simp add: money_def)+
  let ?row = "\<lambda>pre. batch_row (str_opt (br_agent rq)) (br_product rq) (br_plan rq) (br_quantity rq) pre (br_note rq) (ad_id (ac_admin ac))"
  from assms obtain pl pr v0 v1 v2 v3 v4 pre kind seeds rest x y z
    where n: "1 \<le> br_quantity rq" and bp: "batch_plan (br_plan rq) (br_product rq) w = (Inr (pl, pr), v0)"
      and may: "agent_may_make ac (pr_id pr) v0 = (Inr x, v1)"
      and gen: "liftE (generate_texts (br_quantity rq) pre entropy) v1 = (Inr (texts, rest), v2)"
      and seeds: "batch_seeds S pl (br_product rq) kind texts v2 = (Inr seeds, v3)"
      and tx: "with_tx (bindM (create_batch (?row pre) seeds) (\<lambda>(b, cs). seqM (if br_agent rq = [] then retM ()
          else charge_agent ac (br_agent rq) pl (br_quantity rq) (cb_id b)) (retM b))) v3 = (Inr b, v4)"
      and aud: "ignoreM (insert_audit y) v4 = (Inr z, w')"
    unfolding create_card_batch_def audit_def
    by (auto simp: Let_def bindM_Inr_iff seqM_Inr_iff retM_eq_iff throwM_eq_iff split: if_splits prod.splits sum.splits)
  have same: "?view (w_db v3) = ?view (w_db w)" "?view (w_db w') = ?view (w_db v4)"
    using evolvesD [OF still(1) bp] evolvesD [OF still(2) may] evolvesD [OF still(4) gen] evolvesD [OF still(3) seeds]
      evolvesD [OF still(5) aud] by simp_all
  have pl: "find (\<lambda>r. pl_id r = br_plan rq) (d_plans (w_db w)) = Some pl"
    using bp by (auto simp: batch_plan_def get_plan_def next_row_def bindM_Inr_iff retM_eq_iff throwM_eq_iff dest!: db_one_Inr split: if_splits)
  have "generate_texts (br_quantity rq) pre entropy = Inr (texts, rest)"
    using gen by (auto simp: liftE_def retM_eq_iff throwM_eq_iff split: sum.splits)
  then have len: "length texts = nat (br_quantity rq)" "length seeds = nat (br_quantity rq)"
    using generated_length batch_seeds_length [OF seeds] by simp_all
  from tx obtain u u' where "bindM (create_batch (?row pre) seeds) (\<lambda>(b, cs). seqM (if br_agent rq = [] then retM ()
          else charge_agent ac (br_agent rq) pl (br_quantity rq) (cb_id b)) (retM b)) u = (Inr b, u')"
    and u: "w_db u = w_db v3" "w_db v4 = w_db u'" by (rule with_tx_InrE)
  then obtain cs u1 p where cb: "create_batch (?row pre) seeds u = (Inr (b, cs), u1)"
    and pay: "(if br_agent rq = [] then retM () else charge_agent ac (br_agent rq) pl (br_quantity rq) (cb_id b)) u1 = (Inr p, u')"
    by (auto simp: bindM_Inr_iff seqM_Inr_iff retM_eq_iff)
  obtain new where new: "d_cards (w_db u1) = d_cards (w_db u) @ new" "length new = length seeds"
    "list_all (fresh_card (str_opt (br_agent rq))) new" using create_batch_run [OF cb] by (auto simp: batch_row_def)
  have money: "money (w_db u1) = money (w_db w)" "money (w_db w') = money (w_db u')"
    using evolvesD [OF money_create_batch cb] u same by simp_all
  have paid: "d_cards (w_db u') = d_cards (w_db u1) \<and> (if br_agent rq \<noteq> [] \<and> 0 < pl_price pl
      then paid (br_agent rq) (br_quantity rq * pl_price pl) (w_db u1) (w_db u') else money (w_db u') = money (w_db u1))"
    using pay charge_paid [of ac "br_agent rq" pl "br_quantity rq" "cb_id b" u1 p u'] by (auto simp: retM_eq_iff split: if_splits)
  show ?thesis
    by (rule exI [of _ pl], rule exI [of _ new])
      (use pl new len n money paid u same paid_cong [OF money(1) money(2) [symmetric]] in \<open>auto split: if_splits\<close>)
qed

text \<open>The agent of the shop orders a card of 250 cents.\<close>

definition shop_order :: batch_request where
  "shop_order = \<lparr>br_product = ''p'', br_plan = ''pl'', br_agent = ''a'', br_kind = ''license'', br_quantity = 1, br_prefix = [],
     br_note = []\<rparr>"

lemma shop_texts: "generate_texts 1 [] (replicate 26 1) = Inr ([group_code 0 0 shop_card], [])"
  by (simp add: generate_texts_def generate_card_batch_def batch_loop.simps [of _ "Suc 0"] generate_card_code_def
      draw_chars_enough card_random_len_def card_alphabet_def shop_card_def)

lemma shop_code_good: "normalize_card (group_code 0 0 shop_card) = Inr shop_card"
  by (rule shown_normalizes) (simp_all add: shop_card_def card_alphabet_def)

lemma shop_order_run:
  "\<exists>b. fst (create_card_batch demo_svc (replicate 26 1) shop_agent shop_order [] [] (demo_world shop_db)) = Inr (b, [group_code 0 0 shop_card])"
  by (simp add: create_card_batch_def shop_order_def shop_agent_def demo_admin_def shop_db_def rich_db_def shop_card_prefix
    sold_db_def empty_db_def demo_world_def shop_code_good run_defs shop_plan_def Let_def demo_svc_def shop_texts [simplified]
    sold_card_def used_renewal_card_def card_lookup_def card_hmac_def plain_prims_def hex_encode_def
    charge_agent_def validate_card_prefix_fix [of "[]"] or_no_rows_def deduct_agent_balance_def insert_agent_transaction_def str_opt_def
    add_balance_def int64_max_def text_len_def runes_ascii ascii_def)

lemma batch_is_charged_witness:
  "paid ''a'' 250 shop_db (w_db (snd (create_card_batch demo_svc (replicate 26 1) shop_agent shop_order [] [] (demo_world shop_db))))"
proof -
  obtain b where run: "fst (create_card_batch demo_svc (replicate 26 1) shop_agent shop_order [] [] (demo_world shop_db)) =
    Inr (b, [group_code 0 0 shop_card])" using shop_order_run by blast
  from batch_is_charged [OF prod_eqI [OF trans [OF run fst_conv [symmetric]] snd_conv [symmetric]]]
  show ?thesis by (auto simp: shop_order_def demo_world_def shop_db_def shop_plan_def)
qed

end
