(* ===== verification/RateWindow.thy ===== *)
theory RateWindow
  imports Cache "HOL-Library.Multiset"
begin

section \<open>The rate limiter and the window it stands for\<close>

text \<open>
  \<open>RateLimit\<close> of \<open>internal/cache/cache.go\<close> promises "at most \<open>limit\<close> calls of a key in a window".
  The specification is a log of the calls let through: a call passes when fewer than \<open>limit\<close> of
  them are younger than the window. The script works on a sorted set that it prunes and lets
  expire; a simulation shows that nobody can tell the two apart.
\<close>

definition window_limit :: "int \<Rightarrow> int \<Rightarrow> int \<Rightarrow> int list \<Rightarrow> (bool \<times> int) \<times> int list" where
  "window_limit win now limit hits =
    (let n = int (length (filter (\<lambda>u. now - win < u) hits)) in
     if limit \<le> n then ((False, 0), hits) else ((True, limit - n), hits @ [now]))"

text \<open>
  The simulation: the young scores are the young calls, no score lies in the future, and the
  key outlives every young call.
\<close>

definition tracks :: "string \<Rightarrow> int \<Rightarrow> int \<Rightarrow> int list \<Rightarrow> redis \<Rightarrow> bool" where
  "tracks key win t hits r \<longleftrightarrow> (case r_zsets r key of (z, e) \<Rightarrow>
     list_all (\<lambda>p. 0 \<le> snd p) z \<and> list_all (\<lambda>u. u \<le> t \<and> (t - win < u \<longrightarrow> (\<exists>x. e = Some x \<and> u + win \<le> x))) hits \<and>
     filter_mset (\<lambda>u. t - win < u) (mset (map snd z)) = filter_mset (\<lambda>u. t - win < u) (mset hits))"

definition members :: "string \<Rightarrow> redis \<Rightarrow> string set" where
  "members key r = fst ` set (fst (r_zsets r key))"

lemma tracks_later:
  assumes "tracks key win t hits r" "t \<le> t'"
  shows "tracks key win t' hits r"
proof -
  have later: "filter_mset (\<lambda>u. t' - win < u) m = filter_mset (\<lambda>u. t' - win < u) (filter_mset (\<lambda>u. t - win < u) m)" for m
    using assms(2) by (auto simp: filter_filter_mset intro!: filter_mset_cong)
  have "filter_mset (\<lambda>u. t' - win < u) (mset (map snd z)) = filter_mset (\<lambda>u. t' - win < u) (mset hits)"
    if "filter_mset (\<lambda>u. t - win < u) (mset (map snd z)) = filter_mset (\<lambda>u. t - win < u) (mset hits)" for z :: "(string \<times> int) list"
    by (subst (1 2) later) (simp only: that)
  with assms show ?thesis by (fastforce simp: tracks_def list_all_iff)
qed

text \<open>What the script keeps, and so what it counts, is what the specification counts.\<close>

lemma tracks_young:
  assumes "tracks key win t hits r"
  shows "mset (map snd (z_rem_range (t - win) (z_get t key r))) = mset (filter (\<lambda>u. t - win < u) hits)"
proof -
  obtain z e where z: "r_zsets r key = (z, e)" by fastforce
  show ?thesis
  proof (cases "live_at t e")
    case True
    have "z_rem_range (t - win) z = filter (\<lambda>p. t - win < snd p) z"
      using assms by (auto simp: z_rem_range_def tracks_def z list_all_iff intro!: filter_cong)
    with True assms show ?thesis
      by (simp add: z_get_def z tracks_def image_mset_filter_mset_swap [of snd] flip: filter_mset_image_mset)
  next
    case False
    with assms have "filter (\<lambda>u. t - win < u) hits = []"
      by (force simp: tracks_def z list_all_iff live_at_def filter_empty_conv)
    then show ?thesis using False by (simp add: z_get_def z z_rem_range_def)
  qed
qed

text \<open>One run of the script: the same answer, and the simulation goes on.\<close>

lemma tracks_script:
  assumes "tracks k win t hits r" "0 \<le> t" "m \<notin> members k r"
  shows "fst (rl_script t k win limit m r) = snd (fst (window_limit win t limit hits))"
    and "tracks k win t (snd (window_limit win t limit hits)) (snd (rl_script t k win limit m r))"
    and "members k (snd (rl_script t k win limit m r)) \<subseteq> insert m (members k r)"
proof -
  obtain z e where z: "r_zsets r k = (z, e)" by fastforce
  let ?z = "z_rem_range (t - win) (z_get t k r)"
  note kept = tracks_young [OF assms(1)]
  then have n: "length ?z = length (filter (\<lambda>u. t - win < u) hits)" by (metis length_map size_mset)
  have sub: "set ?z \<subseteq> set z" by (auto simp: z_rem_range_def z_get_def z split: if_splits)
  then have fresh: "filter (\<lambda>p. fst p \<noteq> m) ?z = ?z"
    using assms(3) by (intro filter_True) (force simp: members_def z)
  have young: "filter_mset (\<lambda>u. t - win < u) (mset (map snd ?z)) = filter_mset (\<lambda>u. t - win < u) (mset hits)"
    unfolding kept by (simp add: filter_filter_mset)
  show "fst (rl_script t k win limit m r) = snd (fst (window_limit win t limit hits))"
    using n by (simp add: rl_script_def window_limit_def Let_def)
  show "tracks k win t (snd (window_limit win t limit hits)) (snd (rl_script t k win limit m r))"
    using n assms young sub
    by (auto simp: rl_script_def window_limit_def Let_def tracks_def z_put_def z_add_def fresh list_all_iff z z_exp_def live_at_def)
  show "members k (snd (rl_script t k win limit m r)) \<subseteq> insert m (members k r)"
    using sub by (auto simp: rl_script_def Let_def members_def z_put_def z_add_def z)
qed

lemma tracks_empty: "r_zsets r k = ([], None) \<Longrightarrow> tracks k win t [] r \<and> members k r = {}"
  by (simp add: tracks_def members_def)

text \<open>The calls of a run: instant, limit in force and the random member drawn.\<close>

lemma rate_limit_window:
  assumes "fst (rl_script t (''rl:'' @ key) (dur div 1000000) limit m r) = snd (fst (window_limit (dur div 1000000) t limit hits))"
  shows "fst (rate_limit t key limit dur m r) = fst (window_limit (dur div 1000000) t limit hits)"
    "snd (rate_limit t key limit dur m r) = snd (rl_script t (''rl:'' @ key) (dur div 1000000) limit m r)"
proof -
  obtain n r' where run: "rl_script t (''rl:'' @ key) (dur div 1000000) limit m r = (n, r')" by fastforce
  show "snd (rate_limit t key limit dur m r) = snd (rl_script t (''rl:'' @ key) (dur div 1000000) limit m r)"
    unfolding rate_limit_def run by simp
  show "fst (rate_limit t key limit dur m r) = fst (window_limit (dur div 1000000) t limit hits)"
    using assms unfolding rate_limit_def run by (auto simp: window_limit_def Let_def)
qed

lemma window_run:
  assumes "tracks (''rl:'' @ key) (dur div 1000000) t0 hits r" "sorted (t0 # map fst xs)" "0 \<le> t0"
    "distinct (map (snd \<circ> snd) xs)" "members (''rl:'' @ key) r \<inter> set (map (snd \<circ> snd) xs) = {}"
  shows "outputs (\<lambda>(t, limit, m). rate_limit t key limit dur m) xs r =
    outputs (\<lambda>(t, limit, m). window_limit (dur div 1000000) t limit) xs hits"
  using assms
proof (induction xs arbitrary: t0 hits r)
  case (Cons x xs)
  obtain t limit m where x: "x = (t, limit, m)" by (cases x)
  have "tracks (''rl:'' @ key) (dur div 1000000) t hits r" "0 \<le> t" "m \<notin> members (''rl:'' @ key) r"
    using Cons.prems tracks_later [OF Cons.prems(1)] by (auto simp: x)
  note step = tracks_script [OF this, of limit]
  note one = rate_limit_window [OF step(1)]
  have "outputs (\<lambda>(t, limit, m). rate_limit t key limit dur m) xs (snd (rate_limit t key limit dur m r)) =
    outputs (\<lambda>(t, limit, m). window_limit (dur div 1000000) t limit) xs (snd (window_limit (dur div 1000000) t limit hits))"
    unfolding one(2) by (rule Cons.IH [OF step(2)]) (use Cons.prems step(3) in \<open>auto simp: x\<close>)
  then show ?case by (simp only: outputs_Cons x prod.case one(1))
qed simp

text \<open>C19. The Redis script is a sliding window: on an unused key, for any sequence of calls at instants that do not
  decrease, each with its own random member and its own limit, what \<open>RateLimit\<close> answers (admitted or not, and how many
  calls remain) is what the log of the admitted calls gives, in which a call passes exactly when fewer than \<open>limit\<close> of
  the admitted ones are younger than the window.\<close>
theorem rate_limit_refines_window:
  assumes "r_zsets r (''rl:'' @ key) = ([], None)" "sorted (0 # map fst xs)" "distinct (map (snd \<circ> snd) xs)"
  shows "outputs (\<lambda>(t, limit, m). rate_limit t key limit dur m) xs r =
    outputs (\<lambda>(t, limit, m). window_limit (dur div 1000000) t limit) xs []"
  using tracks_empty [OF assms(1)] by (intro window_run [where ?t0.0 = 0] assms(2,3)) simp_all

lemma rate_limit_refines_window_witness:
  "outputs (\<lambda>(t, limit, m). rate_limit t ''ip:1'' limit (60 * 1000000000) m)
     [(0, 2, ''a''), (1000, 2, ''b''), (2000, 2, ''c''), (60000, 2, ''d''), (61000, 3, ''e'')] empty_redis =
   [(True, 2), (True, 1), (False, 0), (True, 1), (True, 2)]"
  by (subst rate_limit_refines_window) (simp_all add: empty_redis_def window_limit_def Let_def)

end
