(* ===== verification/JsonRound.thy ===== *)
theory JsonRound
  imports Json
begin

section \<open>What the encoder writes, the decoder reads\<close>

text \<open>
  Objects as the program marshals them (strings, integers, lists of strings) parse back to the values
  they were written from, in order, for any text that follows; a string comes back with each byte that is
  not UTF-8 replaced by U+FFFD, so a valid one comes back as it was. A written value carries
  its own end: \<open>reads t v\<close> says that \<open>t\<close> parses to \<open>v\<close> and leaves what comes after, with fuel for its
  length.
\<close>

named_theorems written \<open>texts of values that parse back\<close>

subsection \<open>Strings\<close>

lemma hex_val_digit: "n < 16 \<Longrightarrow> hex_val (hex_digit n) = Some n"
  by (auto simp: hex_val_def hex_digit_def Let_def)

lemma hex4_digits: "r < 65536 \<Longrightarrow> hex4 (hex_digit (r div 4096 mod 16) # hex_digit (r div 256 mod 16) #
    hex_digit (r div 16 mod 16) # hex_digit (r mod 16) # s) = Some (r, s)"
proof -
  assume r: "r < 65536"
  have "r div 4096 * 16 + r div 256 mod 16 = r div 256" using div_mult_mod_eq [of "r div 256" 16] by (simp flip: div_mult2_eq)
  moreover have "r div 256 * 16 + r div 16 mod 16 = r div 16" using div_mult_mod_eq [of "r div 16" 16] by (simp flip: div_mult2_eq)
  moreover have "r div 16 * 16 + r mod 16 = r" by (rule div_mult_mod_eq)
  moreover have "r div 4096 mod 16 = r div 4096" using r by simp
  moreover have "r div 4096 < 16" using r by (simp add: less_mult_imp_div_less)
  ultimately show ?thesis by (simp add: hex_val_digit)
qed

definition quote_char :: char where "quote_char = mk_byte 34"

text \<open>One rune of an ASCII string, written and read: escaped with a letter, with a number, or as it is.\<close>

lemma str_letter: "byte e \<noteq> 117 \<Longrightarrow> simple_escape (byte e) = Some b \<Longrightarrow>
    str_body (Suc n) (mk_byte 92 # e # s) = map_option (\<lambda>(t, z). (mk_byte b # t, z)) (str_body n s)"
  by (simp split: option.splits)

lemma str_number: "unicode_escape u = Some (r, s) \<Longrightarrow>
    str_body (Suc n) (mk_byte 92 # mk_byte 117 # u) = map_option (\<lambda>(t, z). (encode_rune r @ t, z)) (str_body n s)"
  by (simp split: option.splits)

lemma str_plain: "32 \<le> byte c \<Longrightarrow> byte c < 128 \<Longrightarrow> byte c \<noteq> 34 \<Longrightarrow> byte c \<noteq> 92 \<Longrightarrow>
    str_body (Suc n) (c # s) = map_option (\<lambda>(t, z). (c # t, z)) (str_body n s)"
  by (simp add: decode_rune_ascii encode_rune_ascii split: option.splits)

lemma u_escape_read: "r < 55296 \<or> 57344 \<le> r \<and> r < 65536 \<Longrightarrow> u_escape r @ s = mk_byte 92 # mk_byte 117 # drop 2 (u_escape r @ s) \<and>
    unicode_escape (drop 2 (u_escape r @ s)) = Some (r, s)"
  using hex4_digits [of r s] by (auto simp: u_escape_def unicode_escape_def simp del: hex4.simps)

lemma letters: "byte (CHR ''b'') = 98" "byte (CHR ''f'') = 102" "byte (CHR ''n'') = 110" "byte (CHR ''r'') = 114" "byte (CHR ''t'') = 116"
  by (simp_all add: byte_def)

lemma str_body_rune:
  assumes "byte c < 128"
  shows "str_body (Suc n) (js_rune (byte c, [c]) @ s) = map_option (\<lambda>(t, z). (c # t, z)) (str_body n s)"
proof -
  consider (self) "byte c = 34 \<or> byte c = 92" | (letter) "byte c \<in> {8, 9, 10, 12, 13}"
    | (number) "byte c \<notin> {34, 92, 8, 9, 10, 12, 13}" "byte c < 32 \<or> byte c \<in> {60, 62, 38}"
    | (plain) "byte c \<notin> {34, 92, 60, 62, 38}" "32 \<le> byte c" by fastforce
  then show ?thesis
  proof cases
    case self
    then have "js_rune (byte c, [c]) = [mk_byte 92, c]" by (auto simp: js_rune_def)
    moreover have "byte c \<noteq> 117" "simple_escape (byte c) = Some (byte c)" using self by (auto simp: simple_escape_def)
    ultimately show ?thesis using str_letter [of c "byte c" n s] by simp
  next
    case letter
    obtain e where "js_rune (byte c, [c]) = [mk_byte 92, e]" "byte e \<noteq> 117" "simple_escape (byte e) = Some (byte c)"
      using letter by (elim insertE emptyE) (force simp: js_rune_def simple_escape_def letters)+
    with str_letter [of e "byte c" n s] show ?thesis by simp
  next
    case number
    then have "js_rune (byte c, [c]) = u_escape (byte c)" by (auto simp: js_rune_def)
    moreover have "byte c < 55296" using assms by simp
    then have u: "u_escape (byte c) @ s = mk_byte 92 # mk_byte 117 # drop 2 (u_escape (byte c) @ s) \<and>
        unicode_escape (drop 2 (u_escape (byte c) @ s)) = Some (byte c, s)" by (intro u_escape_read) simp
    moreover have "encode_rune (byte c) = [c]" using assms by (simp add: encode_rune_ascii)
    ultimately show ?thesis using str_number [OF conjunct2 [OF u], of n] by simp
  next
    case plain
    then have "js_rune (byte c, [c]) = [c]" using assms by (auto simp: js_rune_def rune_error_def)
    with str_plain [of c n s] plain assms show ?thesis by simp
  qed
qed

text \<open>Any rune, with the bytes it was read from: a byte that starts none is escaped as U+FFFD.\<close>

lemma decode_rune_prefix:
  "decode_rune (c # cs) = (r, w) \<Longrightarrow> 2 \<le> w \<Longrightarrow> w \<le> length (c # cs) \<and> decode_rune (take w (c # cs) @ z) = (r, w)"
  by (auto simp: decode_rune.simps Let_def split: list.splits if_splits)

lemma decode_rune_single: "decode_rune (c # cs) = (r, w) \<Longrightarrow> 128 \<le> byte c \<Longrightarrow> w < 2 \<Longrightarrow> r = rune_error \<and> w = 1"
  by (auto simp: decode_rune.simps Let_def split: list.splits if_splits)

lemma str_body_escape:
  assumes "r < 55296 \<or> 57344 \<le> r \<and> r < 65536"
  shows "str_body (Suc n) (u_escape r @ z) = map_option (\<lambda>(t, y). (encode_rune r @ t, y)) (str_body n z)"
  using u_escape_read [OF assms, of z] str_number [of "drop 2 (u_escape r @ z)" r z n] by simp

lemma str_body_seg:
  assumes "decode_rune (c # cs) = (r, w)"
  shows "str_body (Suc n) (js_rune (r, take (max 1 w) (c # cs)) @ z) = map_option (\<lambda>(t, y). (encode_rune r @ t, y)) (str_body n z)"
proof (cases "byte c < 128")
  case True
  then have "r = byte c" "w = 1" using assms by (simp_all add: decode_rune_ascii)
  then show ?thesis using str_body_rune [OF True, of n z] True by (simp add: encode_rune_ascii)
next
  case False
  then have r: "128 \<le> r" using decode_rune_non_ascii [of c cs] assms by simp
  show ?thesis
  proof (cases "w < 2 \<or> r = 8232 \<or> r = 8233")
    case True
    then have "js_rune (r, take (max 1 w) (c # cs)) = u_escape r" and "r < 55296 \<or> 57344 \<le> r \<and> r < 65536"
      using decode_rune_single [OF assms] False r by (auto simp: js_rune_def rune_error_def)
    then show ?thesis by (simp add: str_body_escape)
  next
    case wide: False
    note pre = decode_rune_prefix [OF assms, of z]
    from wide have w: "max 1 w = w" "2 \<le> w" by simp_all
    have js: "js_rune (r, take w (c # cs)) = take w (c # cs)"
      using r wide pre w by (auto simp: js_rune_def)
    obtain bs where bs: "take w (c # cs) = c # bs" using w by (cases w) auto
    then have "drop w (c # bs @ z) = z" "decode_rune (c # bs @ z) = (r, w)" using pre w by (auto dest: arg_cong [of _ _ length])
    then show ?thesis using False wide js w bs by (simp split: option.splits)
  qed
qed

declare str_body.simps(3) [simp del]

definition mended :: "string \<Rightarrow> string" where
  "mended s = concat (map encode_rune (runes s))"

definition utf8 :: "string \<Rightarrow> bool" where
  "utf8 s \<longleftrightarrow> mended s = s"

lemma ascii_utf8: "ascii s \<Longrightarrow> utf8 s"
proof -
  assume a: "ascii s"
  have "concat (map encode_rune (map byte s)) = s" using a by (induction s) (simp_all add: encode_rune_ascii)
  with a show ?thesis by (simp add: utf8_def mended_def runes_ascii)
qed

lemma show_string_eq: "show_string s = quote_char # concat (map js_rune (segs s)) @ [quote_char]"
  by (simp add: show_string_def quote_char_def)

lemma str_body_segs:
  "length (segs s) < n \<Longrightarrow> str_body n (concat (map js_rune (segs s)) @ quote_char # z) = Some (mended s, z)"
proof (induction s arbitrary: n rule: segs.induct)
  case 1
  then show ?case by (cases n) (simp_all add: str_body.simps(3) quote_char_def mended_def runes_def)
next
  case (2 c cs)
  obtain r w where d: "decode_rune (c # cs) = (r, w)" by (cases "decode_rune (c # cs)")
  then have segs: "segs (c # cs) = (r, take (max 1 w) (c # cs)) # segs (drop (max 1 w) (c # cs))" by (simp add: segs.simps)
  with 2(2) obtain m where n: "n = Suc m" "length (segs (drop (max 1 w) (c # cs))) < m" by (cases n) auto
  have "mended (c # cs) = encode_rune r @ mended (drop (max 1 w) (c # cs))" by (simp add: mended_def runes_def segs)
  with 2(1) [OF d [symmetric] n(2)] str_body_seg [OF d, of m] show ?case by (simp add: n segs)
qed

lemma segs_length: "length (segs s) \<le> length (concat (map js_rune (segs s)))"
proof (induction s rule: segs.induct)
  case (2 c cs)
  obtain r w where d: "decode_rune (c # cs) = (r, w)" by (cases "decode_rune (c # cs)")
  have "js_rune (r, take (max 1 w) (c # cs)) \<noteq> []" by (auto simp: js_rune_def u_escape_def)
  then have "1 \<le> length (js_rune (r, take (max 1 w) (c # cs)))" by (cases "js_rune (r, take (max 1 w) (c # cs))") simp_all
  with 2 [OF d [symmetric]] d show ?case by (simp add: segs.simps)
qed simp

subsection \<open>Values\<close>

text \<open>What may follow a value in a list or an object.\<close>

definition ends :: "string \<Rightarrow> bool" where
  "ends z \<longleftrightarrow> z \<noteq> [] \<and> hd z \<in> {CHR '','', CHR ''}'', CHR '']''}"

definition reads :: "string \<Rightarrow> json \<Rightarrow> bool" where
  "reads t v \<longleftrightarrow> t \<noteq> [] \<and> (\<forall>n z. length t \<le> n \<longrightarrow> ends z \<longrightarrow> p_val n (t @ z) = Some (v, z))"

lemma readsI: "t \<noteq> [] \<Longrightarrow> (\<And>n z. length t \<le> Suc n \<Longrightarrow> ends z \<Longrightarrow> p_val (Suc n) (t @ z) = Some (v, z)) \<Longrightarrow> reads t v"
  unfolding reads_def by (metis Suc_le_D length_0_conv not_less_eq_eq list.size(3) le_zero_eq not0_implies_Suc)

lemma readsD: "reads t v \<Longrightarrow> length t \<le> n \<Longrightarrow> ends z \<Longrightarrow> p_val n (t @ z) = Some (v, z)"
  by (simp add: reads_def)

declare p_val.simps [simp del] p_items.simps [simp del] p_members.simps [simp del]

lemma bytes_of: "byte (CHR ''{'') = 123" "byte (CHR ''['') = 91" "byte (CHR ''}'') = 125" "byte (CHR '']'') = 93"
  "byte (CHR '','') = 44" "byte (CHR '':'') = 58" "byte (CHR ''-'') = 45" "byte (CHR ''n'') = 110" "byte (CHR ''t'') = 116"
  "byte (CHR ''f'') = 102" "byte (CHR ''.'') = 46" "byte (CHR ''+'') = 43" "byte (CHR ''e'') = 101" "byte (CHR ''E'') = 69"
  by (simp_all add: byte_def)

lemma quote_props: "byte quote_char = 34" "quote_char \<noteq> CHR ''{''" "quote_char \<noteq> CHR ''[''" "quote_char \<noteq> CHR ''}''"
  "quote_char \<noteq> CHR '']''" "quote_char \<noteq> CHR '',''" "js_ws quote_char = False"
  by (simp_all add: quote_char_def mk_byte_eq_iff bytes_of js_ws_def)

lemma skip_ws_Cons: "\<not> js_ws c \<Longrightarrow> skip_ws (c # s) = c # s"
  by (simp add: skip_ws_def)

lemma skip_ends: "ends z \<Longrightarrow> skip_ws z = z"
  by (cases z) (auto simp: ends_def skip_ws_Cons js_ws_def bytes_of)

lemma reads_string: "reads (show_string s) (JsStr (mended s))"
proof (rule readsI)
  fix n z
  have "length (segs s) < Suc (length (concat (map js_rune (segs s)) @ z))" using segs_length [of s] by simp
  then show "p_val (Suc n) (show_string s @ z) = Some (JsStr (mended s), z)"
    using segs_length [of s]
    by (simp add: p_val.simps(2) show_string_eq skip_ws_Cons quote_props str_body_segs)
qed (simp add: show_string_def)

lemma reads_utf8 [written]: "utf8 s \<Longrightarrow> reads (show_string s) (JsStr s)"
  using reads_string [of s] by (simp add: utf8_def)

lemma num_end: "ends z \<Longrightarrow> takeWhile num_char (show_int i @ z) = show_int i \<and> dropWhile num_char (show_int i @ z) = z"
proof -
  assume z: "ends z"
  have "\<forall>c \<in> set (show_int i). num_char c" by (auto simp: num_char_def dest: show_int_chars)
  moreover have "z = hd z # tl z" "\<not> num_char (hd z)"
    using z by (auto simp: ends_def num_char_def is_digit_def bytes_of)
  ultimately show ?thesis by (metis takeWhile_append2 dropWhile_append2 takeWhile.simps(2) dropWhile.simps(2) append_Nil2)
qed

lemma show_nat_lead: "0 < n \<Longrightarrow> hd (show_nat n) \<noteq> CHR ''0''"
proof (induction n rule: show_nat.induct)
  case (1 n)
  have "digit d \<noteq> CHR ''0''" if "0 < d" "d < 10" for d
    using that by (auto simp: digit_def mk_byte_eq_iff byte_def)
  with 1 show ?case by (subst show_nat.simps) (simp add: hd_append)
qed

lemma show_nat_single: "hd (show_nat n) = CHR ''0'' \<Longrightarrow> length (show_nat n) = 1"
  using show_nat_lead [of n] by (cases "n = 0") (simp_all add: show_nat.simps)

lemma digits_all: "list_all is_digit s \<Longrightarrow> takeWhile is_digit s = s \<and> dropWhile is_digit s = []"
  by (simp add: list_all_iff)

lemma valid_show_int: "valid_number (show_int i)"
proof -
  have n: "valid_number (show_nat n)" "valid_number (CHR ''-'' # show_nat n)" for n
  proof -
    obtain c t where c: "show_nat n = c # t" by (cases "show_nat n") auto
    then have "c \<noteq> CHR ''-''" using show_nat_digits [of n] by (auto simp: is_digit_def bytes_of)
    then show "valid_number (show_nat n)" "valid_number (CHR ''-'' # show_nat n)"
      using show_nat_single [of n] by (auto simp: valid_number_def Let_def c digits_all [OF show_nat_digits [of n], unfolded c]
          simp del: takeWhile.simps dropWhile.simps)
  qed
  then show ?thesis by (simp add: show_int_def)
qed

lemma show_int_ne [simp]: "show_int i \<noteq> []"
  by (simp add: show_int_def)

lemma reads_int [written]: "reads (show_int i) (JsNum (show_int i))"
proof (rule readsI)
  fix n z assume z: "ends z"
  obtain c t where c: "show_int i = c # t" by (cases "show_int i") auto
  then have "is_digit c \<or> c = CHR ''-''" using show_int_chars [of c i] by simp
  then have k: "c \<noteq> CHR ''{''" "c \<noteq> CHR ''[''" "byte c \<noteq> 34" "c \<noteq> CHR ''n''" "c \<noteq> CHR ''t''" "c \<noteq> CHR ''f''" "\<not> js_ws c"
    by (auto simp: is_digit_def bytes_of js_ws_def)
  have "p_val (Suc n) (c # t @ z) = (if valid_number (takeWhile num_char (c # t @ z))
     then Some (JsNum (takeWhile num_char (c # t @ z)), dropWhile num_char (c # t @ z)) else None)"
    using k by (simp add: p_val.simps(2) skip_ws_Cons)
  then show "p_val (Suc n) (show_int i @ z) = Some (JsNum (show_int i), z)"
    using num_end [OF z, of i] valid_show_int [of i] by (simp add: c)
qed simp

subsection \<open>Lists and objects\<close>

lemma join_Cons: "join sep (x # y # xs) = x @ sep @ join sep (y # xs)" "join sep [x] = x"
  by (simp_all add: join_def)

lemma ends_simps [simp]: "ends (CHR '','' # z)" "ends (CHR ''}'' # z)" "ends (CHR '']'' # z)"
  by (simp_all add: ends_def)

lemma p_items_written:
  assumes "\<forall>(t, v) \<in> set xs. reads t v" "xs \<noteq> []" "length (join '','' (map fst xs)) < n"
  shows "p_items n (join '','' (map fst xs) @ CHR '']'' # z) = Some (map snd xs, z)"
  using assms
proof (induction xs arbitrary: n)
  case (Cons x xs)
  obtain t v where x: "x = (t, v)" by (cases x)
  with Cons.prems obtain m where n: "n = Suc m" "length (join '','' (map fst (x # xs))) \<le> m" by (cases n) auto
  have r: "reads t v" using Cons.prems x by auto
  have ws: "\<not> js_ws (CHR '']'')" "\<not> js_ws (CHR '','')" by (simp_all add: js_ws_def bytes_of)
  show ?case
  proof (cases xs)
    case Nil
    with n r show ?thesis by (simp add: x join_Cons p_items.simps(2) readsD skip_ws_Cons ws)
  next
    case (Cons y ys)
    have "p_items m (join '','' (map fst xs) @ CHR '']'' # z) = Some (map snd xs, z)"
      by (rule Cons.IH) (use Cons.prems n x Cons in \<open>auto simp: join_Cons\<close>)
    with n r Cons show ?thesis by (simp add: x join_Cons p_items.simps(2) readsD skip_ws_Cons ws)
  qed
qed simp

lemma reads_strings [written]:
  assumes "list_all utf8 xs" "xs \<noteq> []"
  shows "reads (show_strings xs) (JsArr (map JsStr xs))"
proof (rule readsI)
  fix n z assume n: "length (show_strings xs) \<le> Suc n"
  let ?ps = "map (\<lambda>x. (show_string x, JsStr x)) xs"
  have t: "map fst ?ps = map show_string xs" by (simp add: o_def)
  have "p_items n (join '','' (map fst ?ps) @ CHR '']'' # z) = Some (map snd ?ps, z)"
    by (rule p_items_written) (use assms n reads_utf8 in \<open>auto simp: list_all_iff show_strings_def o_def\<close>)
  then have items: "p_items n (join '','' (map show_string xs) @ CHR '']'' # z) = Some (map JsStr xs, z)"
    by (simp add: t o_def)
  obtain u where u: "join '','' (map show_string xs) = quote_char # u"
    using assms by (cases xs) (auto simp: join_def show_string_eq)
  have k: "\<not> js_ws (CHR ''['')" "CHR ''['' \<noteq> CHR ''{''" by (simp_all add: js_ws_def bytes_of)
  show "p_val (Suc n) (show_strings xs @ z) = Some (JsArr (map JsStr xs), z)"
    using items by (simp add: p_val.simps(2) show_strings_def skip_ws_Cons k u quote_props)
qed (simp add: show_strings_def)

text \<open>A member: its name, and its value as text and as read.\<close>

type_synonym js_member = "string \<times> string \<times> json"

definition member_text :: "js_member \<Rightarrow> string" where
  "member_text m = show_member (fst m) (fst (snd m))"

definition member_value :: "js_member \<Rightarrow> string \<times> json" where
  "member_value m = (fst m, snd (snd m))"

definition member_ok :: "js_member \<Rightarrow> bool" where
  "member_ok m \<longleftrightarrow> utf8 (fst m) \<and> reads (fst (snd m)) (snd (snd m))"

lemma p_members_written:
  assumes "list_all member_ok ms" "ms \<noteq> []" "length (join '','' (map member_text ms)) < n"
  shows "p_members n (join '','' (map member_text ms) @ CHR ''}'' # z) = Some (map member_value ms, z)"
  using assms
proof (induction ms arbitrary: n)
  case (Cons x ms)
  obtain k t v where x: "x = (k, t, v)" by (cases x)
  with Cons.prems obtain m where n: "n = Suc m" "length (join '','' (map member_text (x # ms))) \<le> m" by (cases n) auto
  have k: "mended k = k" and r: "reads t v" using Cons.prems x by (auto simp: member_ok_def utf8_def)
  have ws: "\<not> js_ws (CHR ''}'')" "\<not> js_ws (CHR '','')" "\<not> js_ws (CHR '':'')" by (simp_all add: js_ws_def bytes_of)
  let ?k = "concat (map js_rune (segs k))"
  have mt: "member_text x = quote_char # ?k @ quote_char # CHR '':'' # t"
    by (simp add: x member_text_def show_member_def show_string_eq)
  have body: "str_body (length (?k @ quote_char # y)) (?k @ quote_char # y) = Some (k, y)" for y
    by (subst str_body_segs) (use segs_length [of k] k in simp_all)
  have first: "p_members (Suc m) (member_text x @ y) = (case p_val m (t @ y) of None \<Rightarrow> None
     | Some (v, w) \<Rightarrow> (case skip_ws w of [] \<Rightarrow> None
       | e # u \<Rightarrow> if e = CHR ''}'' then Some ([(k, v)], u)
           else if e = CHR '','' then (case p_members m u of None \<Rightarrow> None | Some (ms, z) \<Rightarrow> Some ((k, v) # ms, z))
           else None))" for y
    using body [of "CHR '':'' # t @ y"] by (simp add: mt p_members.simps(2) skip_ws_Cons quote_props ws)
  have tl: "length t \<le> m" using n(2) by (cases ms) (simp_all add: join_Cons mt)
  have mv: "member_value x = (k, v)" by (simp add: x member_value_def)
  show ?case
  proof (cases ms)
    case Nil
    show ?thesis unfolding n(1) Nil by (simp add: first readsD [OF r tl] skip_ws_Cons ws join_Cons mv)
  next
    case (Cons y ys)
    have "p_members m (join '','' (map member_text ms) @ CHR ''}'' # z) = Some (map member_value ms, z)"
      by (rule Cons.IH) (use Cons.prems n Cons in \<open>auto simp: join_Cons\<close>)
    then show ?thesis unfolding n(1) Cons by (simp add: first readsD [OF r tl] skip_ws_Cons ws join_Cons mv)
  qed
qed simp

lemma parse_written:
  assumes "list_all member_ok ms" "ms \<noteq> []"
  shows "parse_all (show_object (map member_text ms)) = Some (JsObj (map member_value ms))"
    "parse_first (show_object (map member_text ms)) = Some (JsObj (map member_value ms))"
proof -
  let ?t = "join '','' (map member_text ms)"
  obtain k t v ns where ms: "ms = (k, t, v) # ns" using assms(2) by (metis neq_Nil_conv prod_cases3)
  obtain u where u: "?t = quote_char # u"
    by (cases ns) (simp_all add: ms join_Cons member_text_def show_member_def show_string_eq)
  have "p_val (Suc (2 * length (show_object (map member_text ms)))) (CHR ''{'' # quote_char # (u @ ''}'')) =
      (case p_members (2 * length (show_object (map member_text ms))) (quote_char # (u @ ''}'')) of
        None \<Rightarrow> None | Some (ms, z) \<Rightarrow> Some (JsObj ms, z))"
    by (simp add: p_val.simps(2) skip_ws_Cons quote_props js_ws_def bytes_of)
  also have "p_members (2 * length (show_object (map member_text ms))) (quote_char # (u @ ''}'')) = Some (map member_value ms, [])"
    using p_members_written [OF assms, of "2 * length (show_object (map member_text ms))" "[]"]
    by (simp add: show_object_def u)
  finally show "parse_all (show_object (map member_text ms)) = Some (JsObj (map member_value ms))"
    "parse_first (show_object (map member_text ms)) = Some (JsObj (map member_value ms))"
    by (simp_all add: parse_all_def parse_first_def show_object_def u skip_ws_def)
qed

lemma unmarshal_written:
  "list_all member_ok ms \<Longrightarrow> ms \<noteq> [] \<Longrightarrow>
    unmarshal fs (show_object (map member_text ms)) r = fill False fs (map member_value ms) (True, r)"
  by (simp add: unmarshal_def parse_written(1) to_struct_def)

lemma unmarshal_strict_written:
  "list_all member_ok ms \<Longrightarrow> ms \<noteq> [] \<Longrightarrow>
    unmarshal_strict fs (show_object (map member_text ms)) r = fill True fs (map member_value ms) (True, r)"
  by (simp add: unmarshal_strict_def parse_written(2) to_struct_def)

end
