(* ===== verification/Tokens.thy ===== *)
theory Tokens
  imports JsonRound Services
begin

section \<open>Tokens and envelopes come back\<close>

text \<open>
  Two formats cross the network in both directions: the signed tokens of
  \<open>internal/crypto/sigtoken.go\<close> and the envelopes of \<open>internal/crypto/envelope.go\<close>. Here the writers and
  the readers are put together: a token that was minted verifies to its claims, an envelope that was sealed
  opens to its plaintext.
\<close>

subsection \<open>Members of a struct\<close>

definition w_str :: "string \<Rightarrow> string \<Rightarrow> js_member list" where
  "w_str k s = [(k, show_string s, JsStr s)]"

definition w_str_omit :: "string \<Rightarrow> string \<Rightarrow> js_member list" where
  "w_str_omit k s = (if s = [] then [] else w_str k s)"

definition w_int :: "string \<Rightarrow> int \<Rightarrow> js_member list" where
  "w_int k n = [(k, show_int n, JsNum (show_int n))]"

definition w_int_omit :: "string \<Rightarrow> int \<Rightarrow> js_member list" where
  "w_int_omit k n = (if n = 0 then [] else w_int k n)"

definition w_strs_omit :: "string \<Rightarrow> string list \<Rightarrow> js_member list" where
  "w_strs_omit k xs = (if xs = [] then [] else [(k, show_strings xs, JsArr (map JsStr xs))])"

lemmas w_defs = w_str_def w_str_omit_def w_int_def w_int_omit_def w_strs_omit_def

lemma member_texts: "map member_text (w_str k s) = mem_str k s" "map member_text (w_str_omit k s) = mem_str_omit k s"
  "map member_text (w_int k n) = mem_int k n" "map member_text (w_int_omit k n) = mem_int_omit k n"
  "map member_text (w_strs_omit k xs) = mem_strs_omit k xs"
  by (simp_all add: w_defs member_text_def mem_str_def mem_str_omit_def mem_int_def mem_int_omit_def mem_strs_omit_def)

lemma members_utf8: "utf8 k \<Longrightarrow> utf8 s \<Longrightarrow> list_all member_ok (w_str k s)" "utf8 k \<Longrightarrow> utf8 s \<Longrightarrow> list_all member_ok (w_str_omit k s)"
  "utf8 k \<Longrightarrow> list_all member_ok (w_int k n)" "utf8 k \<Longrightarrow> list_all member_ok (w_int_omit k n)"
  "utf8 k \<Longrightarrow> list_all utf8 xs \<Longrightarrow> list_all member_ok (w_strs_omit k xs)"
  by (simp_all add: w_defs member_ok_def written)

lemma members_ok: "ascii k \<Longrightarrow> ascii s \<Longrightarrow> list_all member_ok (w_str k s)" "ascii k \<Longrightarrow> ascii s \<Longrightarrow> list_all member_ok (w_str_omit k s)"
  "ascii k \<Longrightarrow> list_all member_ok (w_int k n)" "ascii k \<Longrightarrow> list_all member_ok (w_int_omit k n)"
  "ascii k \<Longrightarrow> list_all ascii xs \<Longrightarrow> list_all member_ok (w_strs_omit k xs)"
  by (intro members_utf8; simp add: ascii_utf8 list_all_iff)+

lemma fill_append: "fill strict fs (a @ b) st = fill strict fs b (fill strict fs a st)"
  by (induction strict fs a st rule: fill.induct) (auto split: option.splits prod.splits)

definition int64 :: "int \<Rightarrow> bool" where
  "int64 n \<longleftrightarrow> int64_min \<le> n \<and> n \<le> int64_max"

lemma fill_members:
  "find_field fs k = Some (js_string k' f) \<Longrightarrow> fill b fs (map member_value (w_str k s)) (ok, r) = (ok, f s r)"
  "find_field fs k = Some (js_string k' f) \<Longrightarrow>
     fill b fs (map member_value (w_str_omit k s)) (ok, r) = (ok, if s = [] then r else f s r)"
  "find_field fs k = Some (js_int k' g) \<Longrightarrow> int64 n \<Longrightarrow> fill b fs (map member_value (w_int k n)) (ok, r) = (ok, g n r)"
  "find_field fs k = Some (js_int k' g) \<Longrightarrow> int64 n \<Longrightarrow>
     fill b fs (map member_value (w_int_omit k n)) (ok, r) = (ok, if n = 0 then r else g n r)"
  "find_field fs k = Some (js_strings k' h) \<Longrightarrow>
     fill b fs (map member_value (w_strs_omit k xs)) (ok, r) = (ok, if xs = [] then r else h xs r)"
  by (simp_all add: w_defs member_value_def js_string_def js_int_def js_strings_def int64_def parse_show_int js_elem_def list_all_iff o_def)

subsection \<open>Tokens\<close>

definition claims_members :: "claims \<Rightarrow> js_member list" where
  "claims_members c = w_str ''typ'' (lc_typ c) @ w_str ''kid'' (lc_kid c) @ w_str ''jti'' (lc_jti c) @ w_str ''lic'' (lc_lic c) @
     w_str ''prod'' (lc_prod c) @ w_str_omit ''dev'' (lc_dev c) @ w_strs_omit ''feat'' (lc_feat c) @ w_int ''iat'' (lc_iat c) @
     w_int ''exp'' (lc_exp c) @ w_int_omit ''lex'' (lc_lex c) @ w_int ''pol'' (lc_pol c) @ w_int_omit ''hbi'' (lc_hbi c) @
     w_int_omit ''grace'' (lc_grace c) @ w_str ''st'' (lc_status c) @ w_str_omit ''mver'' (lc_min_version c) @
     w_str_omit ''nnc'' (lc_nonce c)"

text \<open>Claims as Go has them: 64 bit numbers, and texts that are valid UTF-8, as PostgreSQL and the environment give them.\<close>

definition sound_claims :: "claims \<Rightarrow> bool" where
  "sound_claims c \<longleftrightarrow> list_all utf8 [lc_typ c, lc_kid c, lc_jti c, lc_lic c, lc_prod c, lc_dev c, lc_status c, lc_min_version c,
       lc_nonce c] \<and> list_all utf8 (lc_feat c) \<and>
     list_all int64 [lc_iat c, lc_exp c, lc_lex c, lc_pol c, lc_hbi c, lc_grace c]"

lemma key_ascii: "ascii ''typ''" "ascii ''kid''" "ascii ''jti''" "ascii ''lic''" "ascii ''prod''" "ascii ''dev''" "ascii ''feat''"
  "ascii ''iat''" "ascii ''exp''" "ascii ''lex''" "ascii ''pol''" "ascii ''hbi''" "ascii ''grace''" "ascii ''st''" "ascii ''mver''"
  "ascii ''nnc''" "ascii ''alg''" "ascii ''epk''" "ascii ''nonce''" "ascii ''ct''" "ascii ''device_id''"
  by (simp_all add: byte_def)

lemmas key_utf8 = key_ascii [THEN ascii_utf8]

lemma claims_members_ok: "sound_claims c \<Longrightarrow> list_all member_ok (claims_members c) \<and> claims_members c \<noteq> []"
  by (simp add: claims_members_def sound_claims_def members_utf8 key_utf8 w_str_def [of "''typ''"])
    (simp add: w_str_def member_ok_def written key_utf8)

lemma claims_text: "claims_json c = show_object (map member_text (claims_members c))"
  by (simp add: claims_json_def claims_members_def member_texts)

lemma claim_fields:
  "find_field claims_fields ''typ'' = Some (js_string ''typ'' (\<lambda>x. lc_typ_update (\<lambda>_. x)))"
  "find_field claims_fields ''kid'' = Some (js_string ''kid'' (\<lambda>x. lc_kid_update (\<lambda>_. x)))"
  "find_field claims_fields ''jti'' = Some (js_string ''jti'' (\<lambda>x. lc_jti_update (\<lambda>_. x)))"
  "find_field claims_fields ''lic'' = Some (js_string ''lic'' (\<lambda>x. lc_lic_update (\<lambda>_. x)))"
  "find_field claims_fields ''prod'' = Some (js_string ''prod'' (\<lambda>x. lc_prod_update (\<lambda>_. x)))"
  "find_field claims_fields ''dev'' = Some (js_string ''dev'' (\<lambda>x. lc_dev_update (\<lambda>_. x)))"
  "find_field claims_fields ''feat'' = Some (js_strings ''feat'' (\<lambda>x. lc_feat_update (\<lambda>_. x)))"
  "find_field claims_fields ''iat'' = Some (js_int ''iat'' (\<lambda>x. lc_iat_update (\<lambda>_. x)))"
  "find_field claims_fields ''exp'' = Some (js_int ''exp'' (\<lambda>x. lc_exp_update (\<lambda>_. x)))"
  "find_field claims_fields ''lex'' = Some (js_int ''lex'' (\<lambda>x. lc_lex_update (\<lambda>_. x)))"
  "find_field claims_fields ''pol'' = Some (js_int ''pol'' (\<lambda>x. lc_pol_update (\<lambda>_. x)))"
  "find_field claims_fields ''hbi'' = Some (js_int ''hbi'' (\<lambda>x. lc_hbi_update (\<lambda>_. x)))"
  "find_field claims_fields ''grace'' = Some (js_int ''grace'' (\<lambda>x. lc_grace_update (\<lambda>_. x)))"
  "find_field claims_fields ''st'' = Some (js_string ''st'' (\<lambda>x. lc_status_update (\<lambda>_. x)))"
  "find_field claims_fields ''mver'' = Some (js_string ''mver'' (\<lambda>x. lc_min_version_update (\<lambda>_. x)))"
  "find_field claims_fields ''nnc'' = Some (js_string ''nnc'' (\<lambda>x. lc_nonce_update (\<lambda>_. x)))"
  by (simp_all add: find_field_def claims_fields_def js_string_def js_int_def js_strings_def)

lemma claims_read:
  assumes "sound_claims c"
  shows "unmarshal claims_fields (claims_json c) no_claims = (True, c)"
proof -
  have n: "int64 (lc_iat c)" "int64 (lc_exp c)" "int64 (lc_lex c)" "int64 (lc_pol c)" "int64 (lc_hbi c)" "int64 (lc_grace c)"
    using assms by (simp_all add: sound_claims_def)
  note steps = fill_members(1) [OF claim_fields(1)] fill_members(1) [OF claim_fields(2)] fill_members(1) [OF claim_fields(3)]
    fill_members(1) [OF claim_fields(4)] fill_members(1) [OF claim_fields(5)] fill_members(2) [OF claim_fields(6)]
    fill_members(5) [OF claim_fields(7)] fill_members(3) [OF claim_fields(8) n(1)] fill_members(3) [OF claim_fields(9) n(2)]
    fill_members(4) [OF claim_fields(10) n(3)] fill_members(3) [OF claim_fields(11) n(4)] fill_members(4) [OF claim_fields(12) n(5)]
    fill_members(4) [OF claim_fields(13) n(6)] fill_members(1) [OF claim_fields(14)] fill_members(2) [OF claim_fields(15)]
    fill_members(2) [OF claim_fields(16)]
  have "fill False claims_fields (map member_value (claims_members c)) (True, no_claims) = (True, c)"
    unfolding claims_members_def map_append fill_append steps by (cases c) (simp add: no_claims_def)
  with claims_members_ok [OF assms] show ?thesis by (simp add: claims_text unmarshal_written)
qed

lemma minted_token_read:
  assumes "ed_ok P" "map_of keys active = Some seed" "sound_claims (c\<lparr>lc_kid := active\<rparr>)"
    and "mint_token (local_signer P keys active) c = Inr t"
  shows "verify_token P t now (local_signer P keys active) =
    (if lc_exp c < now then Inl (Crypto ErrTokenExpired) else if now + 60 < lc_iat c then Inl (Crypto ErrTokenNotYetValid)
     else Inr (c\<lparr>lc_kid := active\<rparr>))"
proof -
  have active: "sg_active (local_signer P keys active) = active" by (simp add: local_signer_def)
  have "ed_ok P \<and> map_of keys active \<noteq> None" using assms by simp
  from local.mint_signed [OF this assms(4), unfolded active] obtain sig pk where
    "split_on (CHR ''.'') t = [token_prefix, b64_encode (claims_json (c\<lparr>lc_kid := active\<rparr>)), b64_encode sig]" "length sig = 64"
    "sg_public (local_signer P keys active) active = Some pk" "p_ed_verify P pk (b64_encode (claims_json (c\<lparr>lc_kid := active\<rparr>))) sig"
    by blast
  then show ?thesis
    by (simp add: verify_token_def b64_decode_encode claims_read [OF assms(3)])
qed

text \<open>C30. A token comes back: when its texts are valid UTF-8 and its numbers fit in 64 bits, what the signer mints verifies, under
  the same key set, to exactly the claims it was made from with the name of the active key; before its issue time (less a
  minute) and after its expiry it is refused with the error of that case, and no other outcome exists. The signature scheme
  is assumed to accept its own signatures.\<close>
theorem minted_token_verifies:
  assumes "ed_ok P" "map_of keys active = Some seed" "sound_claims (c\<lparr>lc_kid := active\<rparr>)"
    and "mint_token (local_signer P keys active) c = Inr t"
  shows "verify_token P t now (local_signer P keys active) =
    (if lc_exp c < now then Inl (Crypto ErrTokenExpired) else if now + 60 < lc_iat c then Inl (Crypto ErrTokenNotYetValid)
     else Inr (c\<lparr>lc_kid := active\<rparr>))"
  using assms by (rule minted_token_read)

text \<open>A text with an umlaut, a line separator and an emoji: two, three and four bytes, the second one escaped.\<close>

definition fancy :: string where
  "fancy = map mk_byte [195, 164, 226, 128, 168, 240, 159, 152, 128]"

definition demo_claims :: claims where
  "demo_claims = no_claims\<lparr>lc_typ := ''lease'', lc_lic := ''l1'', lc_prod := ''app'', lc_feat := [''a<b'', fancy], lc_iat := 1000,
     lc_exp := 4600, lc_pol := -3, lc_status := ''active''\<rparr>"

lemma fancy_utf8: "utf8 fancy"
  by (simp add: utf8_def mended_def runes_def segs.simps decode_rune.simps fancy_def Let_def is_cont_def rune2_def rune3_def rune4_def
      encode_rune_def)

lemma minted_token_verifies_witness:
  "\<exists>t. mint_token (local_signer plain_prims [(''k'', ''seed'')] ''k'') demo_claims = Inr t \<and>
    verify_token plain_prims t 2000 (local_signer plain_prims [(''k'', ''seed'')] ''k'') = Inr (demo_claims\<lparr>lc_kid := ''k''\<rparr>) \<and>
    verify_token plain_prims t 4601 (local_signer plain_prims [(''k'', ''seed'')] ''k'') = Inl (Crypto ErrTokenExpired)"
proof -
  have c: "sound_claims (demo_claims\<lparr>lc_kid := ''k''\<rparr>)"
    by (simp add: sound_claims_def fancy_utf8 ascii_utf8 demo_claims_def no_claims_def byte_def int64_def int64_min_def int64_max_def)
  have ed: "ed_ok plain_prims" by (rule plain_prims_ed_ok)
  then obtain t where t: "mint_token (local_signer plain_prims [(''k'', ''seed'')] ''k'') demo_claims = Inr t"
    using local.mint_returns [of plain_prims "[(''k'', ''seed'')]" "''k''" demo_claims] by auto
  from minted_token_verifies [OF ed _ c t, of "''seed''"] t show ?thesis by (simp add: demo_claims_def no_claims_def)
qed

subsection \<open>Envelopes\<close>

definition envelope_members :: "envelope \<Rightarrow> js_member list" where
  "envelope_members e = w_str ''kid'' (en_kid e) @ w_str ''alg'' (en_alg e) @ w_str ''epk'' (en_epk e) @
     w_str ''nonce'' (en_nonce e) @ w_str ''ct'' (en_ct e)"

lemma envelope_names:
  "find_field envelope_fields ''kid'' = Some (js_string ''kid'' (\<lambda>x. en_kid_update (\<lambda>_. x)))"
  "find_field envelope_fields ''alg'' = Some (js_string ''alg'' (\<lambda>x. en_alg_update (\<lambda>_. x)))"
  "find_field envelope_fields ''epk'' = Some (js_string ''epk'' (\<lambda>x. en_epk_update (\<lambda>_. x)))"
  "find_field envelope_fields ''nonce'' = Some (js_string ''nonce'' (\<lambda>x. en_nonce_update (\<lambda>_. x)))"
  "find_field envelope_fields ''ct'' = Some (js_string ''ct'' (\<lambda>x. en_ct_update (\<lambda>_. x)))"
  by (simp_all add: find_field_def envelope_fields_def js_string_def)

lemma envelope_read:
  assumes "list_all utf8 [en_kid e, en_alg e, en_epk e, en_nonce e, en_ct e]"
  shows "unmarshal envelope_fields (envelope_json e) no_envelope = (True, e)"
proof -
  have json: "envelope_json e = show_object (map member_text (envelope_members e))"
    by (simp add: envelope_json_def envelope_members_def member_texts)
  have "list_all member_ok (envelope_members e)" "envelope_members e \<noteq> []"
    using assms by (simp_all add: envelope_members_def members_utf8 key_utf8) (simp add: w_str_def)
  moreover have "fill False envelope_fields (map member_value (envelope_members e)) (True, no_envelope) = (True, e)"
    unfolding envelope_members_def map_append fill_append fill_members(1) [OF envelope_names(1)] fill_members(1) [OF envelope_names(2)]
      fill_members(1) [OF envelope_names(3)] fill_members(1) [OF envelope_names(4)] fill_members(1) [OF envelope_names(5)]
    by (simp add: no_envelope_def)
  ultimately show ?thesis by (simp add: json unmarshal_written)
qed

lemma b64_ascii: "ascii (b64_encode x)"
  by (auto simp: ascii_def list_all_iff dest: b64_encode_chars)

text \<open>The text a client sends for a plaintext, once the key exchange has given the shared secret.\<close>

definition sealed_text :: "prims \<Rightarrow> kex_key \<Rightarrow> string \<Rightarrow> string \<Rightarrow> string \<Rightarrow> string \<Rightarrow> string \<Rightarrow> string \<Rightarrow> string" where
  "sealed_text P k epk shared alg plaintext ctx nonce = envelope_json \<lparr>en_kid = kk_kid k, en_alg = alg, en_epk = b64_encode epk,
     en_nonce = b64_encode nonce, en_ct = b64_encode (p_seal P alg (derive_envelope_key P shared epk (kex_pub P k)) nonce plaintext
       (envelope_aad (kk_kid k) alg ctx))\<rparr>"

lemma sealed_text_opens:
  assumes "aead_ok P" "p_ecdh P (kk_priv k) epk = Some shared" "length epk = 32" "length nonce = 12" "utf8 (kk_kid k)" "kk_kid k \<noteq> []"
    and "filter (\<lambda>q. kk_kid q = kk_kid k) keys = k # others" "alg = alg_gcm \<or> alg = alg_xc20p"
  shows "open_envelope P (sealed_text P k epk shared alg plaintext ctx nonce) [] keys ctx = Inr plaintext"
proof -
  have "utf8 alg" using assms(8) by (auto simp: alg_gcm_def alg_xc20p_def byte_def intro!: ascii_utf8)
  moreover have "kex_candidates [] (kk_kid k) keys = Some (k # others)" using assms(6,7) by (simp add: kex_candidates_def)
  ultimately show ?thesis using assms(1-5,8)
    by (simp add: open_envelope_def sealed_text_def envelope_read ascii_utf8 b64_ascii b64_decode_encode aead_ok_def)
qed

text \<open>C31. An envelope comes back: what a client seals for a server key and a purpose is opened by the server to the same
  plaintext, whichever other keys the server holds under other names, given that the key exchange agrees and the cipher
  opens what it sealed. The key has a name of its own in valid UTF-8, the client's public key has 32 bytes and the nonce 12.\<close>
theorem sealed_envelope_opens:
  assumes "aead_ok P" "p_ecdh P eph (kex_pub P k) = Some shared" "p_ecdh P (kk_priv k) (p_x_pub P eph) = Some shared"
    and "length (p_x_pub P eph) = 32" "length nonce = 12" "utf8 (kk_kid k)" "kk_kid k \<noteq> []"
    and "filter (\<lambda>q. kk_kid q = kk_kid k) keys = k # others"
    and "seal_envelope P (kk_kid k) eph (kex_pub P k) alg plaintext ctx nonce = Inr sent"
  shows "open_envelope P sent [] keys ctx = Inr plaintext"
proof -
  from assms(2,9) have "alg = alg_gcm \<or> alg = alg_xc20p" and "sent = sealed_text P k (p_x_pub P eph) shared alg plaintext ctx nonce"
    by (auto simp: seal_envelope_def sealed_text_def Let_def split: if_splits)
  with sealed_text_opens [OF assms(1,3-8)] show ?thesis by simp
qed

definition demo_kex :: kex_key where
  "demo_kex = \<lparr>kk_kid = ''x1'', kk_priv = ''priv'', kk_active = True\<rparr>"

lemma sealed_envelope_opens_witness:
  "\<exists>sent. seal_envelope plain_prims ''x1'' (replicate 32 (mk_byte 1)) (kex_pub plain_prims demo_kex) alg_gcm ''secret'' (aad_context ''redeem'')
     (replicate 12 (mk_byte 2)) = Inr sent \<and> open_envelope plain_prims sent [] [demo_kex] (aad_context ''redeem'') = Inr ''secret''"
proof -
  have k: "kk_kid demo_kex = ''x1''" by (simp add: demo_kex_def)
  obtain sent where sent: "seal_envelope plain_prims (kk_kid demo_kex) (replicate 32 (mk_byte 1)) (kex_pub plain_prims demo_kex) alg_gcm
      ''secret'' (aad_context ''redeem'') (replicate 12 (mk_byte 2)) = Inr sent"
    by (simp add: seal_envelope_def plain_prims_def)
  have "open_envelope plain_prims sent [] [demo_kex] (aad_context ''redeem'') = Inr ''secret''"
    by (rule sealed_envelope_opens [OF _ _ _ _ _ _ _ _ sent])
      (simp_all add: plain_prims_def aead_ok_def k byte_def ascii_utf8)
  with sent show ?thesis unfolding k by blast
qed

end
