(* ===== verification/Guards.thy ===== *)
theory Guards
  imports Statements Tokens
begin

section \<open>What a device must show, and what it then gets\<close>

text \<open>
  The requests of devices, read from their successes: what a heartbeat, a redemption and an activation
  that were answered had to present, and exactly what they changed. The clock of a request is the one
  instant \<open>w_now\<close> of its world; the lemmas of the first part say which operations leave it alone.
\<close>

subsection \<open>The clock of a request\<close>

lemma now_statements [keepI]:
  "keeps w_now (db_exec f)" "keeps w_now (db_new g)" "keeps w_now (db_serial h)" "keeps w_now (redis_call k)"
  "keeps w_now go_now" "keeps w_now random_token" "keeps w_now (db_read r)" "keeps w_now (db_one q)" "keeps w_now (db_write u)"
  by (auto simp: keeps_def db_exec_def db_new_def db_serial_def db_step_def redis_call_def go_now_def getsM_def random_token_def
      db_read_def db_one_def db_write_def Let_def split: prod.splits fault.splits sum.splits)

lemma keeps_prod [keepI]: "(\<And>a b. keeps obs (f a b)) \<Longrightarrow> keeps obs (case x of (a, b) \<Rightarrow> f a b)"
  by (cases x) simp

lemma now_checks [keepI]:
  "keeps w_now (record_risk kind sev subj text det)" "keeps w_now (liftE q)" "keeps w_now (get_license key)" "keeps w_now (get_plan key)"
  "keeps w_now (is_banned kind val)" "keeps w_now (accept_device_seq key sq)" "keeps w_now (get_device_by_pub pub)"
  unfolding record_risk_def insert_risk_event_def liftE_def get_license_def get_plan_def is_banned_def accept_device_seq_def
    accept_seq_stmt_def get_device_by_pub_def
  by (intro keepI)+

lemma now_guards:
  "keeps w_now (check_replay S dev ds ip scope)" "keeps w_now (check_activation_replay S ds pub ip)"
  "keeps w_now (refuse_banned kind val)" "keeps w_now (signed_device S ds named path body)"
  unfolding check_replay_def check_seq_step_def seq_fallback_def check_activation_replay_def refuse_banned_def signed_device_def
    or_no_rows_def
  by (intro keepI)+

lemma liftE_Inr: "liftE q w = (Inr x, w') \<longleftrightarrow> q = Inr x \<and> w' = w"
  by (cases q) (auto simp: liftE_def throwM_eq_iff retM_eq_iff)

subsection \<open>The signer of a request\<close>

text \<open>The device whose key signed the request: bound, and the signature verifies over method, path and body.\<close>

definition signer :: "svc \<Rightarrow> device_sig \<Rightarrow> string \<Rightarrow> string \<Rightarrow> device \<Rightarrow> bool" where
  "signer S ds path body dev \<longleftrightarrow> dv_pub dev = ds_pub ds \<and> dv_status dev = DeviceActive \<and>
     verify_pub (sv_prims S) ds (dv_pub dev) (dv_kty dev) (ds_message (sv_prims S) ds ''POST'' path body)"

lemma signed_device_Inr:
  assumes "signed_device S ds named path body w = (Inr dev, w')"
  shows "dev \<in> set (d_devices (w_db w))" "signer S ds path body dev" "named dev" "w_db w' = w_db w" "w_now w' = w_now w"
proof -
  from assms obtain v where g: "get_device_by_pub (ds_pub ds) w = (Inr dev, v)"
    and k: "dv_status dev = DeviceActive" "named dev"
      "verify_pub (sv_prims S) ds (dv_pub dev) (dv_kty dev) (ds_message (sv_prims S) ds ''POST'' path body)" "w' = v"
    by (auto simp: signed_device_def bindM_Inr_iff or_no_rows_Inr throwM_eq_iff retM_eq_iff split: if_splits)
  from db_one_Inr [OF g [unfolded get_device_by_pub_def]] obtain vs
    where vs: "newest_first dv_bound (filter (\<lambda>r. dv_pub r = ds_pub ds \<and> dv_status r = DeviceActive) (d_devices (w_db w))) = dev # vs"
      and v: "w_db v = w_db w" "w_now v = w_now w" by (auto split: list.splits)
  have "dev \<in> set (newest_first dv_bound (filter (\<lambda>r. dv_pub r = ds_pub ds \<and> dv_status r = DeviceActive) (d_devices (w_db w))))"
    unfolding vs by simp
  with v show "dev \<in> set (d_devices (w_db w))" "signer S ds path body dev" "named dev" "w_db w' = w_db w" "w_now w' = w_now w"
    using k by (simp_all add: signer_def)
qed

lemma check_replay_Inr:
  assumes "check_replay S dev ds ip scope w = (Inr u, w')"
  shows "\<not> stale (w_now w) (sv_skew S) (ds_ts ds)" "w_now w' = w_now w"
  using assms keepsD [OF now_guards(1) assms]
  by (auto simp: check_replay_def bindM_Inr_iff seqM_Inr_iff go_now_def getsM_eq_iff throwM_eq_iff split: if_splits)

subsection \<open>Heartbeats\<close>

definition live_license :: "time \<Rightarrow> license \<Rightarrow> bool" where
  "live_license now l \<longleftrightarrow> li_status l = LicenseActive \<and> \<not> expired_at now (li_expires l)"

text \<open>What a heartbeat may write: risk records, and the running columns of one device, whose number never falls.\<close>

definition bound_as :: "device \<Rightarrow> device" where
  "bound_as x = x\<lparr>dv_heartbeat := None, dv_seq := 0, dv_ip := None, dv_version := None\<rparr>"

definition pulse :: "string \<Rightarrow> device \<Rightarrow> device \<Rightarrow> bool" where
  "pulse k x y \<longleftrightarrow> bound_as y = bound_as x \<and> dv_seq x \<le> dv_seq y \<and> (dv_id x = k \<or> y = x)"

definition beat :: "string \<Rightarrow> db \<Rightarrow> db \<Rightarrow> bool" where
  "beat k d d' \<longleftrightarrow> d'\<lparr>d_devices := [], d_risks := []\<rparr> = d\<lparr>d_devices := [], d_risks := []\<rparr> \<and>
     list_all2 (pulse k) (d_devices d) (d_devices d')"

lemma bound_as_id: "bound_as y = bound_as x \<Longrightarrow> dv_id y = dv_id x"
  by (drule arg_cong [of _ _ dv_id]) (simp add: bound_as_def)

interpretation beats: db_preorder "beat k" for k
proof
  show "beat k d d" for d by (simp add: beat_def pulse_def list_all2_refl)
  show "beat k a c" if "beat k a b" "beat k b c" for a b c
    using that list_all2_trans [of "pulse k" "pulse k" "pulse k" "d_devices a" "d_devices b" "d_devices c"]
    by (fastforce simp: beat_def pulse_def dest: bound_as_id)
qed

lemma beat_upd:
  assumes "\<And>x. p x \<Longrightarrow> dv_id x = k \<and> bound_as (g x) = bound_as x \<and> dv_seq x \<le> dv_seq (g x)"
  shows "beat k d (d\<lparr>d_devices := upd p g (d_devices d)\<rparr>)"
  using assms by (simp add: beat_def upd_def list_all2_map2 list_all2_same pulse_def)

lemma beat_statements:
  "evolves (beat k) (accept_seq_stmt k sq)" "evolves (beat k) (bump_device_heartbeat k sq ip ver)"
  "evolves (beat k) (record_risk kind sev subj text det)"
proof -
  show "evolves (beat k) (accept_seq_stmt k sq)" unfolding accept_seq_stmt_def
    by (rule beats.exec) (auto split: if_splits intro!: beat_upd simp: bound_as_def)
  show "evolves (beat k) (bump_device_heartbeat k sq ip ver)" unfolding bump_device_heartbeat_def
    by (rule beats.exec) (auto split: if_splits intro!: beat_upd simp: bound_as_def heartbeat_row_def)
  have "beat k d (d\<lparr>d_risks := d_risks d @ [x]\<rparr>)" for d x by (simp add: beat_def pulse_def list_all2_refl)
  then show "evolves (beat k) (record_risk kind sev subj text det)" unfolding record_risk_def insert_risk_event_def
    by (intro beats.wrap beats.serial) (auto split: if_splits)
qed

lemma beat_checks: "evolves (beat (dv_id dev)) (check_replay S dev ds ip scope)" "evolves (beat (dv_id dev)) (renew_seat lic dev pl)"
  unfolding check_replay_def check_seq_step_def seq_fallback_def accept_device_seq_def renew_seat_def
  by (intro beats.rules beat_statements)+

lemma beat_other: "beat k d d' \<Longrightarrow> d_licenses d' = d_licenses d" "beat k d d' \<Longrightarrow> d_plans d' = d_plans d"
  by (auto simp: beat_def dest: arg_cong [of _ _ d_licenses] arg_cong [of _ _ d_plans])

lemma guarded_reads [keepI]: "keeps w_db (get_license key)" "keeps w_db (get_plan key)" "keeps w_db (refuse_banned kind val)"
  "keeps w_db (check_version ver low)" "keeps w_db (heartbeat_reply S now lic dev pl)" "keeps w_db (liftE q)"
  unfolding get_license_def get_plan_def refuse_banned_def check_version_def heartbeat_reply_def product_code_of_def get_product_def
    is_banned_def liftE_def
  by (intro keepI)+

text \<open>C10. A heartbeat is answered only for the device that signed it: the key of the request is that of a bound device, the one
  the body names, the signature verifies over the body as sent, the time stamp is within the skew, the licence of the device is
  active and has not expired, and a client that reports its version is not older than the plan's minimum. The lease is the
  signed statement of exactly these rows at this instant, and nothing is written except risk records and the running
  columns of that device, whose stored sequence number never falls.\<close>
theorem heartbeat_admits:
  assumes "heartbeat S ds body ip w = (Inr r, w')"
  shows "\<exists>dev lic pl jti code. dev \<in> set (d_devices (w_db w)) \<and> signer S ds ''/v1/heartbeat'' body dev \<and>
    dv_id dev = extract_device_id body \<and> \<not> stale (w_now w) (sv_skew S) (ds_ts ds) \<and>
    lic \<in> set (d_licenses (w_db w)) \<and> li_id lic = dv_license dev \<and> live_license (w_now w) lic \<and>
    pl \<in> set (d_plans (w_db w)) \<and> pl_id pl = li_plan lic \<and>
    (let ver = hr_version (read_heartbeat body) in ver \<noteq> [] \<longrightarrow> version_ok ver \<and>
      (pl_min_version pl \<noteq> [] \<longrightarrow> 0 \<le> compare_version ver (pl_min_version pl))) \<and>
    mint_token (sv_signer S) (heartbeat_claims (w_now w) jti code lic dev pl) = Inr (hb_lease r) \<and>
    beat (dv_id dev) (w_db w) (w_db w')"
proof -
  let ?ver = "hr_version (read_heartbeat body)"
  from assms obtain dev v1 u v2 lic v3 u3 v4 now v5 where
    sd: "signed_device S ds (\<lambda>dev. dv_id dev = extract_device_id body) ''/v1/heartbeat'' body w = (Inr dev, v1)"
    and rp: "check_replay S dev ds ip ''heartbeat'' v1 = (Inr u, v2)" and gl: "get_license (dv_license dev) v2 = (Inr lic, v3)"
    and bn: "refuse_banned ''device'' (dv_pub dev) v3 = (Inr u3, v4)" and nw: "go_now v4 = (Inr now, v5)"
    and rest: "(if li_status lic \<noteq> LicenseActive then throwM (map_license_err (li_status lic))
      else if expired_at now (li_expires lic) then throwM (Dom ErrLicenseExpired)
      else bindM (get_plan (li_plan lic)) (\<lambda>pl. let ver = ?ver in
        seqM (check_version ver (pl_min_version pl)) (seqM (renew_seat lic dev pl)
        (seqM (bump_device_heartbeat (dv_id dev) (ds_seq ds) ip ver) (heartbeat_reply S now lic dev pl))))) v5 = (Inr r, w')"
    unfolding heartbeat_def bindM_Inr_iff seqM_Inr_iff by blast
  note sd' = signed_device_Inr [OF sd] and rp' = check_replay_Inr [OF rp] and gl' = get_row_Inr [OF gl [unfolded get_license_def]]
  have now: "now = w_now w" "w_db v5 = w_db v2"
    using nw sd' rp' gl' keepsD [OF now_guards(3) bn] keepsD [OF guarded_reads(3) bn] by (auto simp: go_now_def getsM_eq_iff)
  from rest have live: "live_license now lic" by (auto simp: live_license_def throwM_eq_iff split: if_splits)
  with rest obtain pl v6 u6 v7 u7 v8 u8 v9 where pl: "get_plan (li_plan lic) v5 = (Inr pl, v6)"
    and ver: "check_version ?ver (pl_min_version pl) v6 = (Inr u6, v7)" and seat: "renew_seat lic dev pl v7 = (Inr u7, v8)"
    and bump: "bump_device_heartbeat (dv_id dev) (ds_seq ds) ip ?ver v8 = (Inr u8, v9)"
    and reply: "heartbeat_reply S now lic dev pl v9 = (Inr r, w')"
    by (auto simp: live_license_def Let_def bindM_Inr_iff seqM_Inr_iff)
  note pl' = get_row_Inr [OF pl [unfolded get_plan_def]]
  have b1: "beat (dv_id dev) (w_db w) (w_db v2)" using evolvesD [OF beat_checks(1) rp] sd' by simp
  have "w_db v7 = w_db v2" using keepsD [OF guarded_reads(4) ver] pl' now by simp
  with evolvesD [OF beat_checks(2) seat] evolvesD [OF beat_statements(2) bump] keepsD [OF guarded_reads(5) reply] b1
  have b2: "beat (dv_id dev) (w_db w) (w_db w')" by (metis beats.R_trans)
  obtain jti code where "mint_token (sv_signer S) (heartbeat_claims now jti code lic dev pl) = Inr (hb_lease r)"
    using reply unfolding heartbeat_reply_def Let_def bindM_Inr_iff liftE_Inr by (auto simp: retM_eq_iff)
  moreover have "?ver \<noteq> [] \<longrightarrow> version_ok ?ver \<and> (pl_min_version pl \<noteq> [] \<longrightarrow> 0 \<le> compare_version ?ver (pl_min_version pl))"
    using ver by (auto simp: check_version_def seqM_Inr_iff throwM_eq_iff guardM_Inr_iff split: if_splits)
  ultimately show ?thesis
    using sd' rp' gl' pl' now live b1 b2 beat_other [OF b1] unfolding Let_def by (metis (no_types, lifting))
qed

subsection \<open>Activation\<close>

text \<open>Everything but the risk records.\<close>

definition but_risks :: "db \<Rightarrow> db" where
  "but_risks d = d\<lparr>d_risks := []\<rparr>"

definition devices_of :: "string \<Rightarrow> db \<Rightarrow> nat" where
  "devices_of lic d = length (filter (\<lambda>r. dv_license r = lic \<and> dv_status r = DeviceActive) (d_devices d))"

lemma quiet_activation: "leaves but_risks (check_activation_replay S ds pub ip)" "leaves but_risks (refuse_banned kind val)"
  "leaves but_risks (take_seat res)" "leaves but_risks (liftE q)" "leaves but_risks go_now"
proof -
  have risk: "leaves but_risks (record_risk kind sev subj msg det)" for kind sev subj msg det
    unfolding record_risk_def by (intro same.wrap leaves_risks) (simp add: but_risks_def)
  show "leaves but_risks (check_activation_replay S ds pub ip)" "leaves but_risks (refuse_banned kind val)"
    "leaves but_risks (take_seat res)" "leaves but_risks (liftE q)" "leaves but_risks go_now"
    unfolding check_activation_replay_def refuse_banned_def take_seat_def liftE_def
    by (intro same.store_rules risk)+
qed

text \<open>The one transaction of an activation.\<close>

abbreviation activation_body :: "svc \<Rightarrow> time \<Rightarrow> activate_payload \<Rightarrow> string \<Rightarrow> string \<Rightarrow> string \<Rightarrow> activation_result srv" where
  "activation_body S now p canon ip req \<equiv>
     activate_tx S now p (card_lookup S canon) (fingerprint_hash S (ap_components p)) ip req"

lemma bind_cases:
  assumes "bindM m f w = (r, w')"
  obtains (failed) e where "m w = (Inl e, w')" "r = Inl e" | (went) x v where "m w = (Inr x, v)" "f x v = (r, w')"
  using assms by (cases "m w") (auto simp: bindM_def split: sum.splits)

text \<open>A run that did not stop with what it observed unchanged got past a step that leaves the observation.\<close>

lemma got_past:
  assumes "bindM m f w = (r, w')" "leaves F m" "\<not> (\<exists>e. r = Inl e \<and> F (w_db w') = F d)" "F (w_db w) = F d"
  obtains x v where "m w = (Inr x, v)" "f x v = (r, w')" "F (w_db v) = F d"
  using assms(1)
proof (cases rule: bind_cases)
  case (failed e)
  then show ?thesis using leaves_run [OF assms(2), of w "Inl e" w'] assms(3,4) by simp
next
  case (went x v)
  then show ?thesis using leaves_run [OF assms(2), of w "Inr x" v] assms(4) that by simp
qed

lemma take_seat_Inl: "take_seat res w = (Inl e, w') \<Longrightarrow> e = Dom ErrRateLimited"
  by (auto simp: take_seat_def record_risk_def mdefs split: prod.splits sum.splits if_splits)

lemma activate_end:
  assumes "bindM (with_tx body) (\<lambda>res. bindM (take_seat res) (\<lambda>_. retM res)) v = (r, w')"
  obtains q v' where "with_tx body v = (q, v')" "but_risks (w_db w') = but_risks (w_db v')"
    "case q of Inl e \<Rightarrow> r = Inl e | Inr x \<Rightarrow> r = Inr x \<or> r = Inl (Dom ErrRateLimited)"
  using assms
proof (cases rule: bind_cases)
  case (failed e)
  then show ?thesis by (intro that [of "Inl e" w']) simp_all
next
  case (went x u)
  from went(2) show ?thesis
  proof (cases rule: bind_cases)
    case (failed e)
    then show ?thesis using went(1) leaves_run [OF quiet_activation(3)] take_seat_Inl by (intro that [of "Inr x" u]) auto
  next
    case (went y z)
    then show ?thesis using \<open>with_tx body v = (Inr x, u)\<close> leaves_run [OF quiet_activation(3)]
      by (intro that [of "Inr x" u]) (auto simp: retM_eq_iff)
  qed
qed

lemma activation_checks_Inr:
  "check_activation_replay S ds pub ip w = (Inr u, w') \<Longrightarrow> \<not> stale (w_now w) (sv_skew S) (ds_ts ds) \<and> w_now w' = w_now w"
  "refuse_banned kind val w = (Inr u, w') \<Longrightarrow> w_now w' = w_now w"
  "go_now w = (Inr n, w') \<longleftrightarrow> n = w_now w \<and> w' = w"
proof -
  show "\<not> stale (w_now w) (sv_skew S) (ds_ts ds) \<and> w_now w' = w_now w" if "check_activation_replay S ds pub ip w = (Inr u, w')"
    using that keepsD [OF now_guards(2) that]
    by (auto simp: check_activation_replay_def bindM_Inr_iff go_now_def getsM_eq_iff throwM_eq_iff split: if_splits)
qed (auto simp: go_now_def getsM_eq_iff keepsD [OF now_guards(3)])

text \<open>Up to the transaction an activation writes nothing else.\<close>

lemma activate_cases:
  assumes "activate S body sig ip req w = (r, w')"
  obtains (refused) e where "r = Inl e" "but_risks (w_db w') = but_risks (w_db w)"
    | (ran) p ds canon v q v' where "open_request S body sig = Inr (p, ds)" "\<not> stale (w_now w) (sv_skew S) (ds_ts ds)"
        "normalize_card (ap_card p) = Inr canon" "but_risks (w_db v) = but_risks (w_db w)" "w_now v = w_now w"
        "with_tx (activation_body S (w_now w) p canon ip req) v = (q, v')" "but_risks (w_db w') = but_risks (w_db v')"
        "case q of Inl e \<Rightarrow> r = Inl e | Inr x \<Rightarrow> r = Inr x \<or> r = Inl (Dom ErrRateLimited)"
proof (cases "\<exists>e. r = Inl e \<and> but_risks (w_db w') = but_risks (w_db w)")
  case True
  then show ?thesis using refused by blast
next
  case False
  show ?thesis
    apply (rule got_past [OF assms [unfolded activate_def] quiet_activation(4) False refl])
    apply (clarsimp simp: liftE_Inr seqM_def)
    apply (erule got_past [OF _ quiet_activation(1) False], simp)
    apply (erule got_past [OF _ quiet_activation(4) False], simp)
    apply (clarsimp simp: liftE_Inr split: sum.splits)
    apply (erule got_past [OF _ quiet_activation(2) False], simp)
    apply (erule got_past [OF _ quiet_activation(2) False], simp)
    apply (erule got_past [OF _ quiet_activation(5) False], simp)
    apply (erule activate_end)
    apply (drule activation_checks_Inr(1))
    apply (drule activation_checks_Inr(2))+
    apply (clarsimp simp: activation_checks_Inr(3))
    by (rule ran, assumption, assumption, assumption, assumption, assumption, assumption, assumption, assumption)
qed

lemma with_tx_ends:
  assumes "with_tx body v = (q, v')"
  obtains (undone) e where "q = Inl e" "w_db v' = w_db v"
    | (kept) x u where "body (v\<lparr>w_db_faults := snd (next_fault (w_db_faults v))\<rparr>) = (Inr x, u)" "w_db v' = w_db u"
        "q = Inr x \<or> q = Inl (Store ErrConn)"
  using assms by (auto simp: with_tx_def Let_def rollback_def split: prod.splits sum.splits fault.splits if_splits)

text \<open>C12. Activation is all or nothing: whatever fails, wherever, either the request is answered with an error and
  nothing but risk records was written, or one run of the transaction was committed as a whole and the answer is its
  result, or the lost connection at its commit, or the refusal for a failing cache after it.\<close>
theorem activation_all_or_nothing:
  "case activate S body sig ip req w of (r, w') \<Rightarrow>
    (\<exists>e. r = Inl e) \<and> but_risks (w_db w') = but_risks (w_db w) \<or>
    (\<exists>p canon v x v'. normalize_card (ap_card p) = Inr canon \<and> but_risks (w_db v) = but_risks (w_db w) \<and>
      activate_tx S (w_now w) p (card_lookup S canon) (fingerprint_hash S (ap_components p)) ip req v = (Inr x, v') \<and>
      but_risks (w_db w') = but_risks (w_db v') \<and>
      (r = Inr x \<or> r = Inl (Store ErrConn) \<or> r = Inl (Dom ErrRateLimited)))"
proof -
  obtain r w' where run: "activate S body sig ip req w = (r, w')" by fastforce
  then show ?thesis
  proof (cases rule: activate_cases)
    case (refused e)
    then show ?thesis by (simp add: run)
  next
    case (ran p ds canon v q v')
    from ran(6) show ?thesis
    proof (cases rule: with_tx_ends)
      case (undone e)
      with ran show ?thesis by (simp add: run)
    next
      case (kept x u)
      with ran show ?thesis
        by (auto simp: run intro!: exI [of _ p] exI [of _ canon] exI [of _ "v\<lparr>w_db_faults := snd (next_fault (w_db_faults v))\<rparr>"])
    qed
  qed
qed

text \<open>What an activation again does not change of a device: all but its key.\<close>

definition seated :: "device \<Rightarrow> string \<times> string \<times> string \<times> device_status" where
  "seated r = (dv_id r, dv_license r, dv_fp r, dv_status r)"

lemma reactivated_rows: "leaves (\<lambda>d. map seated (d_devices d)) (activate_again c lic dev pl pr p ip)"
proof -
  have "leaves (\<lambda>d. map seated (d_devices d)) (rotate_device_pub key pub kty trust)" for key pub kty trust
    unfolding rotate_device_pub_def by (rule same.exec) (auto simp: need_rows_def Let_def map_upd_eq seated_def split: if_splits)
  then show ?thesis unfolding activate_again_def build_result_def
    by (intro same.store_rules leaves_activations) simp_all
qed

lemma activate_device_commit:
  assumes "activate_device c lic pl pr p fp ip req w = (Inr x, w')"
  shows "ar_license x = li_id lic \<and> \<not> ar_reactivated x \<and> int (devices_of (li_id lic) (w_db w)) < pl_devices pl \<and>
    (\<exists>dev. d_devices (w_db w') = d_devices (w_db w) @ [dev] \<and> dv_license dev = li_id lic \<and> dv_fp dev = fp \<and>
      dv_pub dev = ap_device_pub p \<and> dv_status dev = DeviceActive)"
proof -
  let ?use = "if pl_kind pl = ''uses'' then mapErrM (\<lambda>_. Dom ErrCardDepleted) (bindM (consume_license_use (li_id lic)) (\<lambda>_. retM ())) else retM ()"
  from assms obtain l0 v1 n v2 where g: "get_license (li_id lic) w = (Inr l0, v1)" and ct: "count_active_devices (li_id lic) v1 = (Inr n, v2)"
    and rest: "(if n \<ge> pl_devices pl then throwM (Dom ErrDeviceLimit) else seqM ?use
      (bindM (create_device (new_device (li_id lic) fp p ip)) (\<lambda>dev.
      seqM (insert_activation (li_id lic) (cd_id c) (dv_id dev) ''rebind'' ip)
      (seqM (insert_license_event (li_id lic) ''device_bound'' ''system'' req
        [(''device_id'', JStr (dv_id dev)), (''active_devices'', JInt (n + 1)), (''limit'', JInt (pl_devices pl))])
      (build_result lic dev pl pr False))))) v2 = (Inr x, w')"
    unfolding activate_device_def bindM_Inr_iff by blast
  note g' = get_row_Inr [OF g [unfolded get_license_def]] and ct' = db_read_Inr [OF ct [unfolded count_active_devices_def]]
  from rest have few: "n < pl_devices pl" by (auto simp: throwM_eq_iff split: if_splits)
  with rest obtain u3 v3 dev v4 u5 v5 u6 v6 where use: "?use v2 = (Inr u3, v3)" and cr: "create_device (new_device (li_id lic) fp p ip) v3 = (Inr dev, v4)"
    and ia: "insert_activation (li_id lic) (cd_id c) (dv_id dev) ''rebind'' ip v4 = (Inr u5, v5)"
    and ev: "insert_license_event (li_id lic) ''device_bound'' ''system'' req
        [(''device_id'', JStr (dv_id dev)), (''active_devices'', JInt (n + 1)), (''limit'', JInt (pl_devices pl))] v5 = (Inr u6, v6)"
    and br: "build_result lic dev pl pr False v6 = (Inr x, w')"
    unfolding seqM_Inr_iff bindM_Inr_iff by (simp add: seqM_Inr_iff bindM_Inr_iff) blast
  have "leaves d_devices ?use" by (intro same.store_rules same.wrap leaves_licenses) simp_all
  from leaves_run [OF this use] have same: "d_devices (w_db v3) = d_devices (w_db v2)" .
  obtain e where "w_db v6 = (w_db v5)\<lparr>d_events := d_events (w_db v5) @ [e]\<rparr>" by (rule insert_event_Inr [OF ev])
  moreover have "d_devices (w_db v5) = d_devices (w_db v4)" by (rule leaves_run [OF leaves_activations(1) ia]) simp
  ultimately have same': "d_devices (w_db w') = d_devices (w_db v4)" using build_result_Inr(1) [OF br] by simp
  obtain i where dev: "dev = device_row (new_device (li_id lic) fp p ip) (pg_time (w_now v3)) i"
    "w_db v4 = (w_db v3)\<lparr>d_devices := d_devices (w_db v3) @ [dev]\<rparr>" using create_device_Inr [OF cr] by metis
  have "int (devices_of (li_id lic) (w_db w)) = n" using g' ct' by (simp add: devices_of_def affected_def)
  then show ?thesis using same same' dev g' ct' few build_result_Inr(2,5) [OF br] by (simp add: device_row_def new_device_def)
qed

lemma activate_bound_commit:
  assumes "activate_bound now c pl pr p fp ip req w = (Inr x, w')"
  shows "cd_license c = Some (ar_license x) \<and> (\<exists>lic \<in> set (d_licenses (w_db w)). li_id lic = ar_license x \<and> live_license now lic) \<and>
    (if ar_reactivated x then map seated (d_devices (w_db w')) = map seated (d_devices (w_db w)) \<and>
       (\<exists>dev \<in> set (d_devices (w_db w)). dv_license dev = ar_license x \<and> dv_fp dev = fp)
     else int (devices_of (ar_license x) (w_db w)) < pl_devices pl \<and>
       (\<exists>dev. d_devices (w_db w') = d_devices (w_db w) @ [dev] \<and> dv_license dev = ar_license x \<and> dv_fp dev = fp \<and>
          dv_pub dev = ap_device_pub p \<and> dv_status dev = DeviceActive))"
proof -
  from assms obtain lid lic v1 r v2 where c: "cd_license c = Some lid" and g: "get_license lid w = (Inr lic, v1)"
    and live: "live_license now lic" and t: "tryM (get_device_by_fingerprint (li_id lic) fp) v1 = (Inr r, v2)"
    and rest: "(case r of Inr dev \<Rightarrow> activate_again c lic dev pl pr p ip
        | Inl e \<Rightarrow> if e \<noteq> Store ErrNoRows then throwM e else activate_device c lic pl pr p fp ip req) v2 = (Inr x, w')"
    by (auto simp: activate_bound_def bindM_Inr_iff throwM_eq_iff live_license_def split: option.splits if_splits)
  note g' = get_row_Inr [OF g [unfolded get_license_def]]
  obtain q where q: "get_device_by_fingerprint (li_id lic) fp v1 = (q, v2)" "r = q" using t by (auto simp: tryM_eq)
  show ?thesis
  proof (cases r)
    case (Inr dev)
    with q have "get_device_by_fingerprint (li_id lic) fp v1 = (Inr dev, v2)" by simp
    note d' = get_row_Inr [OF this [unfolded get_device_by_fingerprint_def]]
    have run: "activate_again c lic dev pl pr p ip v2 = (Inr x, w')" using rest Inr by simp
    have "ar_license x = li_id lic" "ar_reactivated x"
      using run unfolding activate_again_def by (auto simp: bindM_Inr_iff seqM_Inr_iff dest: build_result_Inr(2,5))
    with c g' d' live leaves_run [OF reactivated_rows run] show ?thesis by auto
  next
    case (Inl e)
    have "keeps w_db (get_device_by_fingerprint (li_id lic) fp)" unfolding get_device_by_fingerprint_def by (intro keepI)
    from keepsD [OF this q(1)] have d2: "w_db v2 = w_db w" using g' by simp
    from rest Inl have "activate_device c lic pl pr p fp ip req v2 = (Inr x, w')" by (auto simp: throwM_eq_iff split: if_splits)
    from activate_device_commit [OF this, unfolded d2] c g' live show ?thesis by auto
  qed
qed


lemma sales_ok_but_risks: "sales_ok (but_risks d) \<longleftrightarrow> sales_ok d"
  by (simp add: but_risks_def sales_ok_def)

lemma but_risks_sel: "but_risks d = but_risks e \<Longrightarrow> d_cards d = d_cards e \<and> d_plans d = d_plans e \<and> d_devices d = d_devices e \<and>
    d_licenses d = d_licenses e \<and> d_products d = d_products e"
  by (drule arg_cong [of _ _ "\<lambda>d. (d_cards d, d_plans d, d_devices d, d_licenses d, d_products d)"]) (simp add: but_risks_def)

text \<open>C11. What an activation is given for: an envelope that opened to a payload whose device key signed the request within the
  time skew, and a card on record under the typed text, of an active plan. An unused card must be a licence card and makes a
  licence with its first device. A card in use must have a licence that is active and has not expired; then either the licence
  has a device row with the machine's fingerprint, whatever the status of that row, and no device is added and none changes its
  licence, fingerprint or status (so that a machine that was unbound is answered as reactivated and stays unbound); or the
  licence has fewer active devices than its plan allows and exactly one is added, active, under the payload's key and
  fingerprint.\<close>
theorem activation_admits:
  assumes "activate S body sig ip req w = (Inr r, w')" "sales_ok (w_db w)"
  shows "\<exists>p ds c pl canon. open_request S body sig = Inr (p, ds) \<and> \<not> stale (w_now w) (sv_skew S) (ds_ts ds) \<and>
    normalize_card (ap_card p) = Inr canon \<and> c \<in> set (d_cards (w_db w)) \<and> cd_lookup c = card_lookup S canon \<and>
    pl \<in> set (d_plans (w_db w)) \<and> pl_id pl = cd_plan c \<and> pl_status pl = ''active'' \<and>
    (cd_status c = CardUnused \<and> cd_kind c = ''license'' \<and> \<not> ar_reactivated r \<and>
       ar_license r \<notin> li_id ` set (d_licenses (w_db w)) \<or>
     cd_status c = CardActive \<and> cd_license c = Some (ar_license r) \<and>
       (\<exists>lic \<in> set (d_licenses (w_db w)). li_id lic = ar_license r \<and> live_license (w_now w) lic)) \<and>
    (if ar_reactivated r then map seated (d_devices (w_db w')) = map seated (d_devices (w_db w)) \<and>
       (\<exists>dev \<in> set (d_devices (w_db w)). dv_license dev = ar_license r \<and> dv_fp dev = fingerprint_hash S (ap_components p))
     else (cd_status c = CardActive \<longrightarrow> int (devices_of (ar_license r) (w_db w)) < pl_devices pl) \<and>
       (\<exists>dev. d_devices (w_db w') = d_devices (w_db w) @ [dev] \<and> dv_license dev = ar_license r \<and>
          dv_fp dev = fingerprint_hash S (ap_components p) \<and> dv_pub dev = ap_device_pub p \<and> dv_status dev = DeviceActive))"
  using assms(1)
proof (cases rule: activate_cases)
  case (ran p ds canon v q v')
  from ran(8) have "q = Inr r" by (auto split: sum.splits)
  with ran(6) obtain u u' where tx: "activation_body S (w_now w) p canon ip req u = (Inr r, u')" "w_db u = w_db v" "w_db v' = w_db u'"
    by (auto elim: with_tx_InrE)
  note same = but_risks_sel [OF ran(4)] but_risks_sel [OF ran(7)]
  have ok: "sales_ok (w_db u)" using assms(2) ran(4) tx(2) sales_ok_but_risks by metis
  from tx(1) obtain c pl pr x where c: "c \<in> set (d_cards (w_db u))" "cd_lookup c = card_lookup S canon" and pl: "pl \<in> set (d_plans (w_db u))"
    "pl_id pl = cd_plan c" "pl_status pl = ''active''" and x: "w_db x = w_db u"
    and run: "cd_status c = CardUnused \<and> activate_fresh (w_now w) (card_view c) pl pr p (fingerprint_hash S (ap_components p)) ip req x = (Inr r, u') \<or>
      cd_status c = CardActive \<and> activate_bound (w_now w) (card_view c) pl pr p (fingerprint_hash S (ap_components p)) ip req x = (Inr r, u')"
    by (rule activate_tx_commit)
  from run show ?thesis
  proof (elim disjE conjE)
    assume unused: "cd_status c = CardUnused"
      and run: "activate_fresh (w_now w) (card_view c) pl pr p (fingerprint_hash S (ap_components p)) ip req x = (Inr r, u')"
    have cx: "sales_ok (w_db x)" "c \<in> set (d_cards (w_db x))" using ok c x by simp_all
    show ?thesis
    proof (rule activate_fresh_commit [OF run cx refl unused])
      fix L i dev e
      assume fresh: "i \<notin> li_id ` set (d_licenses (w_db x))" "cd_kind c = ''license''" "ar_license r = i" "\<not> ar_reactivated r"
          "dv_license dev = i" "dv_fp dev = fingerprint_hash S (ap_components p)" "dv_pub dev = ap_device_pub p" "dv_status dev = DeviceActive"
        and w: "w_db u' = (w_db x)\<lparr>d_cards := issue_card (cd_id c) (fresh_status pl) i (pg_time (w_now w)) (d_cards (w_db x)),
          d_licenses := d_licenses (w_db x) @ [L], d_devices := d_devices (w_db x) @ [dev], d_events := d_events (w_db x) @ [e]\<rparr>"
      have "d_devices (w_db w') = d_devices (w_db w) @ [dev]" using w x tx same by simp
      then show ?thesis
        by (intro exI [of _ p] exI [of _ ds] exI [of _ c] exI [of _ pl] exI [of _ canon] conjI)
          (use ran(1,2,3) c pl x tx same fresh unused in simp_all)
    qed
  next
    assume used: "cd_status c = CardActive"
      and run: "activate_bound (w_now w) (card_view c) pl pr p (fingerprint_hash S (ap_components p)) ip req x = (Inr r, u')"
    note bound = activate_bound_commit [OF run]
    have "devices_of l (w_db v) = devices_of l (w_db w)" for l using same by (simp add: devices_of_def)
    note same = same this
    show ?thesis
      by (intro exI [of _ p] exI [of _ ds] exI [of _ c] exI [of _ pl] exI [of _ canon] conjI)
        (use ran(1,2,3) c pl x tx same bound used in \<open>simp_all split: if_splits\<close>)
  qed
qed simp

subsection \<open>A device in the field\<close>

definition demo_device :: device where
  "demo_device = \<lparr>dv_id = ''d1'', dv_license = ''l1'', dv_fp = ''fp'', dv_pub = b64_encode (replicate 32 (mk_byte 7)), dv_kty = ''ed25519'',
     dv_trust = ''software'', dv_hw = [], dv_status = DeviceActive, dv_bound = 0, dv_unbound = None, dv_unbound_by = None,
     dv_heartbeat = None, dv_ip = None, dv_version = None, dv_seq = 4\<rparr>"

definition field_db :: db where
  "field_db = sold_db\<lparr>d_licenses := [sold_license\<lparr>li_expires := None\<rparr>], d_devices := [demo_device], d_plans := [\<lparr>pl_id = ''pl'', pl_product = ''p'',
     pl_code = ''month'', pl_name = ''Month'', pl_kind = ''duration'',
     pl_days = 30, pl_fixed_days = 0, pl_uses = 0, pl_devices = 1, pl_concurrent = 1, pl_features = [], pl_grace = 0,
     pl_lease_ttl = 3600, pl_heartbeat = 60, pl_cooldown = 0, pl_rebinds = 0, pl_min_version = [], pl_price = 250,
     pl_status = ''active'', pl_created = 0\<rparr>]\<rparr>"

definition demo_sig :: device_sig where
  "demo_sig = \<lparr>ds_pub = b64_encode (replicate 32 (mk_byte 7)), ds_ts = 1700000000, ds_nonce = ''n1'', ds_seq = 5,
     ds_sig = replicate 64 (mk_byte 0)\<rparr>"

definition demo_beat :: string where
  "demo_beat = show_object (mem_str ''device_id'' ''d1'')"

lemma demo_beat_read: "read_heartbeat demo_beat = \<lparr>hr_device = ''d1'', hr_version = []\<rparr>"
proof -
  have json: "demo_beat = show_object (map member_text (w_str ''device_id'' ''d1''))" by (simp add: demo_beat_def member_texts)
  moreover have "find_field heartbeat_fields ''device_id'' = Some (js_string ''device_id'' (\<lambda>x. hr_device_update (\<lambda>_. x)))"
    by (simp add: find_field_def heartbeat_fields_def js_string_def)
  moreover have "list_all member_ok (w_str ''device_id'' ''d1'')" "w_str ''device_id'' ''d1'' \<noteq> []"
    by (intro members_ok key_ascii) (simp_all add: byte_def w_str_def)
  ultimately show ?thesis
    unfolding read_heartbeat_def json by (simp add: unmarshal_written fill_members(1) no_heartbeat_def)
qed

lemma demo_heartbeat: "\<exists>r. fst (heartbeat demo_svc demo_sig demo_beat ''10.0.0.1'' (demo_world field_db)) = Inr r"
  by (simp add: heartbeat_def signed_device_def extract_device_id_def demo_beat_read mdefs or_no_rows_def get_device_by_pub_def
    db_one_def db_exec_def db_step_def demo_world_def field_db_def demo_device_def demo_sig_def newest_first_def
    verify_pub_def b64_decode_encode demo_svc_def plain_prims_def check_replay_def go_now_def stale_def unix_def second_def
    redis_call_def consume_nonce_def r_get_def r_set_def empty_redis_def now_ms_def check_seq_step_def check_seq_def seq_script_def seq_cur_def
    Let_def lua_num_small lua_print_small get_license_def get_plan_def next_row_def refuse_banned_def is_banned_def db_read_def
    expired_at_def sold_license_def check_version_def renew_seat_def renew_online_def online_script_def z_get_def z_put_def z_exp_def z_rem_range_def z_add_def
    bump_device_heartbeat_def heartbeat_reply_def random_token_def product_code_of_def get_product_def liftE_def mint_token_def
    local_signer_def local_sign_def heartbeat_claims_def sold_db_def empty_db_def affected_0)

lemma heartbeat_admits_witness:
  "signer demo_svc demo_sig ''/v1/heartbeat'' demo_beat demo_device \<and>
    beat ''d1'' field_db (w_db (snd (heartbeat demo_svc demo_sig demo_beat ''10.0.0.1'' (demo_world field_db))))"
proof -
  obtain r where run: "fst (heartbeat demo_svc demo_sig demo_beat ''10.0.0.1'' (demo_world field_db)) = Inr r"
    using demo_heartbeat by blast
  have d: "w_db (demo_world field_db) = field_db" "d_devices field_db = [demo_device]" by (simp_all add: demo_world_def field_db_def)
  from heartbeat_admits [OF prod_eqI [OF trans [OF run fst_conv [symmetric]] snd_conv [symmetric]]]
  show ?thesis unfolding d by (auto simp: extract_device_id_def demo_beat_read d)
qed

subsection \<open>A machine being activated\<close>

lemma length_b64: "length (b64_encode bs) = (4 * length bs + 2) div 3"
proof -
  have "length (b64_sextets ns) = (4 * length ns + 2) div 3" for ns by (induction ns rule: b64_sextets.induct) simp_all
  then show ?thesis by (simp add: b64_encode_def)
qed

lemma key_accepted: "length raw = 32 \<Longrightarrow> valid_device_pub (b64_encode raw)"
  using b64_encode_sextets [of raw] length_b64 [of raw]
  by (auto simp: valid_device_pub_def is_b64_text_def list_all_iff is_b64_def b64_encode_def b64_val_char)

lemma ascii_replicate: "byte c < 128 \<Longrightarrow> ascii (replicate n c)"
  by (simp add: ascii_def list_all_iff)

definition demo_payload :: activate_payload where
  "demo_payload = no_payload\<lparr>ap_card := replicate 26 CHR ''B'', ap_components := [replicate 64 CHR ''a''],
     ap_device_pub := b64_encode (replicate 32 (mk_byte 9))\<rparr>"

definition payload_members :: "js_member list" where
  "payload_members = w_str ''card'' (ap_card demo_payload) @ w_strs_omit ''components'' (ap_components demo_payload) @
     w_str ''device_pub'' (ap_device_pub demo_payload)"

lemma payload_read: "unmarshal_strict payload_fields (show_object (map member_text payload_members)) no_payload = (True, demo_payload)"
proof -
  have "list_all member_ok payload_members" unfolding payload_members_def list_all_append
    by (intro conjI members_ok) (simp_all add: demo_payload_def byte_def b64_ascii ascii_replicate)
  moreover have "payload_members \<noteq> []" by (simp add: payload_members_def w_str_def)
  moreover have "find_field payload_fields ''card'' = Some (js_string ''card'' (\<lambda>x. ap_card_update (\<lambda>_. x)))"
    "find_field payload_fields ''components'' = Some (js_strings ''components'' (\<lambda>x. ap_components_update (\<lambda>_. x)))"
    "find_field payload_fields ''device_pub'' = Some (js_string ''device_pub'' (\<lambda>x. ap_device_pub_update (\<lambda>_. x)))"
    by (simp_all add: find_field_def payload_fields_def js_string_def js_strings_def js_map_def)
  ultimately show ?thesis
    by (subst unmarshal_strict_written) (simp_all add: payload_members_def fill_append fill_members demo_payload_def no_payload_def)
qed

definition field_svc :: svc where
  "field_svc = demo_svc\<lparr>sv_kex := [demo_kex]\<rparr>"

definition activation_sig :: device_sig where
  "activation_sig = \<lparr>ds_pub = b64_encode (replicate 32 (mk_byte 9)), ds_ts = 1700000000, ds_nonce = ''n2'', ds_seq = 1,
     ds_sig = replicate 64 (mk_byte 0)\<rparr>"

lemma demo_components: "valid_components [replicate 64 CHR ''a'']"
  by (simp add: valid_components_def components_loop_iff trim_space_id ascii_def list_all_iff byte_def is_space_def is_hex_def
      hex_val_def Let_def)

lemma demo_request_opens: "\<exists>body. open_request field_svc body (Some activation_sig) = Inr (normalize_payload demo_payload, activation_sig)"
proof -
  let ?text = "show_object (map member_text payload_members)"
  let ?body = "sealed_text plain_prims demo_kex (replicate 32 (mk_byte 1)) (replicate 32 (mk_byte 0)) alg_gcm ?text
    (aad_context ''activate'') (replicate 12 (mk_byte 2))"
  have "open_envelope plain_prims ?body [] [demo_kex] (aad_context ''activate'') = Inr ?text"
    by (rule sealed_text_opens) (simp_all add: plain_prims_def aead_ok_def demo_kex_def byte_def ascii_utf8)
  moreover have "sv_prims field_svc = plain_prims" "sv_kex field_svc = [demo_kex]" by (simp_all add: field_svc_def demo_svc_def)
  moreover have "p_ed_verify plain_prims k m g \<longleftrightarrow> g = replicate 64 (mk_byte 0)" for k m g by (simp add: plain_prims_def)
  ultimately have "open_request field_svc ?body (Some activation_sig) = Inr (normalize_payload demo_payload, activation_sig)"
    using payload_read demo_components key_accepted [of "replicate 32 (mk_byte 9)"]
    by (simp add: open_request_def demo_payload_def no_payload_def normalize_payload_def verify_pub_def activation_sig_def b64_decode_encode)
  then show ?thesis by blast
qed

text \<open>The shop's card of agent \<open>a\<close>, before anyone used it.\<close>

definition unsold_db :: db where
  "unsold_db = field_db\<lparr>d_cards := [sold_card\<lparr>cd_lookup := card_lookup demo_svc (replicate 26 CHR ''B''), cd_status := CardUnused,
     cd_license := None, cd_activated := None\<rparr>], d_licenses := [], d_renewals := [], d_devices := [],
     d_products := [\<lparr>pr_id = ''p'', pr_code = ''app'', pr_name = ''App'', pr_status = ''active'', pr_created = 0\<rparr>],
     d_agents := [\<lparr>ag_id = ''a'', ag_name = ''A'', ag_parent = None, ag_balance = 0, ag_status = ''active'', ag_created = 0\<rparr>]\<rparr>"

lemma unsold_ok: "sales_ok unsold_db"
  by (simp add: sales_ok_def unsold_db_def field_db_def sold_db_def empty_db_def cards_wf_def linked_def redeemed_def card_ok_def sold_card_def)

lemma demo_code_good: "normalize_card (replicate 26 CHR ''B'') = Inr (replicate 26 CHR ''B'')"
  by (rule normalize_card_fix) (simp_all add: card_alphabet_def)

lemma field_svc_sel: "sv_skew field_svc = 120 * second" "sv_replay_window field_svc = 300 * second" "sv_prims field_svc = plain_prims"
  "card_lookup field_svc x = card_lookup demo_svc x"
  by (simp_all add: field_svc_def demo_svc_def card_lookup_def)

lemma activation_sig_sel: "ds_ts activation_sig = 1700000000" "ds_nonce activation_sig = ''n2''" "ds_seq activation_sig = 1"
  by (simp_all add: activation_sig_def)

lemma demo_activation:
  assumes "open_request field_svc body (Some activation_sig) = Inr (normalize_payload demo_payload, activation_sig)"
  shows "\<exists>r. fst (activate field_svc body (Some activation_sig) ''10.0.0.1'' ''q'' (demo_world unsold_db)) = Inr r"
  by (simp add: activate_def assms liftE_def mdefs normalize_payload_def demo_payload_def no_payload_def demo_code_good
    check_activation_replay_def go_now_def demo_world_def stale_def unix_def second_def activation_sig_sel
    field_svc_sel redis_call_def consume_nonce_def r_get_def r_set_def empty_redis_def now_ms_def check_seq_def seq_script_def
    seq_cur_def Let_def lua_num_small lua_print_small nonce_key_def seq_key_def refuse_banned_def is_banned_def db_read_def db_exec_def db_step_def
    unsold_db_def field_db_def sold_db_def empty_db_def affected_0 with_tx_def activate_tx_def or_no_rows_def get_card_by_lookup_def db_one_def
    card_view_def sold_card_def get_plan_def get_product_def next_row_def activate_fresh_def fresh_term_def new_license_def create_license_def
    first_use_def create_device_def new_device_def set_card_activated_def update_cards_def insert_license_event_def build_result_def random_token_def
    take_seat_def renew_online_def online_script_def z_get_def z_put_def z_exp_def z_rem_range_def z_add_def exists_row_iff product_plan_ok_def
    agent_ref_ok_def db_new_def db_serial_def device_checks_def in_strs_iff license_row_def device_row_def need_rows_def affected_def db_write_def card_prefix_def event_kinds_def)

lemma activation_admits_witness: "\<exists>body r w' dev. activate field_svc body (Some activation_sig) ''10.0.0.1'' ''q'' (demo_world unsold_db) = (Inr r, w') \<and>
    \<not> ar_reactivated r \<and> d_devices (w_db w') = [dev] \<and> dv_license dev = ar_license r \<and> dv_status dev = DeviceActive \<and>
    dv_pub dev = b64_encode (replicate 32 (mk_byte 9))"
proof -
  obtain body where opens: "open_request field_svc body (Some activation_sig) = Inr (normalize_payload demo_payload, activation_sig)"
    using demo_request_opens by blast
  obtain r w' where run: "activate field_svc body (Some activation_sig) ''10.0.0.1'' ''q'' (demo_world unsold_db) = (Inr r, w')"
    using demo_activation [OF opens] by (metis prod.collapse)
  have db: "w_db (demo_world unsold_db) = unsold_db" by (simp add: demo_world_def)
  have unsold: "d_devices unsold_db = []" "c \<in> set (d_cards unsold_db) \<Longrightarrow> cd_status c = CardUnused" for c
    by (simp_all add: unsold_db_def field_db_def sold_db_def empty_db_def)
  have key: "ap_device_pub (normalize_payload demo_payload) = b64_encode (replicate 32 (mk_byte 9))"
    by (simp add: normalize_payload_def demo_payload_def)
  have "\<exists>dev. \<not> ar_reactivated r \<and> d_devices (w_db w') = [dev] \<and> dv_license dev = ar_license r \<and> dv_status dev = DeviceActive \<and>
      dv_pub dev = b64_encode (replicate 32 (mk_byte 9))"
    using activation_admits [OF run] unsold_ok by (auto simp: db opens key unsold split: if_splits dest: unsold(2))
  with run show ?thesis by blast
qed

end
