(* ===== verification/Logins.thy ===== *)
theory Logins
  imports Guards
begin

section \<open>Logging in to the back office\<close>

text \<open>
  \<open>AdminLogin\<close> of \<open>internal/service/adminauth.go\<close>, read from its outcomes: what a successful login had to
  present and the one session it makes, and how far guessing gets. A login is neither a transaction nor
  does it lock the row: \<open>login_read\<close> is its part up to the look at the lock, \<open>login_rest\<close> what follows from
  the row that was read, and \<open>race\<close> runs any number of logins on one account with these parts interleaved
  in any order. The second part judges by the row that was read and then updates the row of the moment in one
  statement; so its judgement may be placed at its update, however long the hash took.
\<close>

subsection \<open>The two parts of a login\<close>

definition login_gate :: "admin \<Rightarrow> string \<Rightarrow> admin srv" where
  "login_gate a ip =
    (if ad_status a \<noteq> ''active'' then throwM (Service ErrBadCredentials)
     else bindM go_now (\<lambda>now.
      if locked_now now a then
        seqM (record_risk ''admin_login_locked'' ''high'' (ad_username a) ip []) (throwM (Service ErrAccountLocked))
      else retM a))"

definition login_read :: "string \<Rightarrow> string \<Rightarrow> admin srv" where
  "login_read name ip =
    bindM (or_no_rows (Service ErrBadCredentials) (get_admin_by_username name)) (\<lambda>a. login_gate a ip)"

definition login_judge :: "svc \<Rightarrow> admin \<Rightarrow> string \<Rightarrow> string \<Rightarrow> string \<Rightarrow> unit srv" where
  "login_judge S a pw totp ip =
    bindM (check_password S pw (ad_password a)) (\<lambda>ok.
    if \<not> ok then login_failed a ''admin_login_failed'' ''medium'' ip (Service ErrBadCredentials)
    else if ad_mfa a then
      (if totp = [] then throwM (Service ErrMFARequired)
       else (case ad_totp a of None \<Rightarrow> throwM (Text ''panic: nil TOTPSecret'')
        | Some secret \<Rightarrow> bindM go_now (\<lambda>now.
          if \<not> verify_totp (sv_prims S) secret totp (unix now) then
            login_failed a ''admin_mfa_failed'' ''high'' ip (Service ErrMFABad)
          else retM ())))
    else retM ())"

definition login_rest :: "svc \<Rightarrow> admin \<Rightarrow> string \<Rightarrow> string \<Rightarrow> string \<Rightarrow> string \<Rightarrow> login_result srv" where
  "login_rest S a pw totp ip req =
    seqM (login_judge S a pw totp ip)
    (seqM (on_login_success (ad_id a))
    (bindM (open_session S a) (\<lambda>(tok, csrf).
    seqM (ignoreM (insert_audit \<lparr>au_admin = Some (ad_id a), au_username = Some (ad_username a),
        au_action = ''auth.login'', au_target_type = None, au_target = None, au_before = None, au_after = None, au_detail = None,
        au_ip = Some ip, au_request = Some req, au_ts = 0\<rparr>))
      (retM \<lparr>lr_token = tok, lr_csrf = csrf, lr_admin = a\<rparr>))))"

text \<open>One after the other, with nothing between them, they are the login.\<close>

lemma authenticate_parts: "authenticate S a pw totp ip = bindM (login_gate a ip) (\<lambda>b. login_judge S b pw totp ip)"
proof
  fix w
  obtain c where c: "check_password S pw (ad_password a) w = (c, w)"
    using check_password_out by (metis prod.collapse)
  obtain q u where "record_risk ''admin_login_locked'' ''high'' (ad_username a) ip [] w = (q, u)"
    by (cases "record_risk ''admin_login_locked'' ''high'' (ad_username a) ip [] w")
  then show "authenticate S a pw totp ip w = bindM (login_gate a ip) (\<lambda>b. login_judge S b pw totp ip) w"
    by (cases c; cases q) (simp_all add: authenticate_def login_gate_def login_judge_def bindM_def seqM_def go_now_def getsM_def
        throwM_def retM_def c split: option.split)
qed

lemma admin_login_parts:
  "admin_login S name pw totp ip req = bindM (login_read name ip) (\<lambda>a. login_rest S a pw totp ip req)"
proof -
  have gate: "f a = g a \<Longrightarrow> bindM (login_gate a ip) f = bindM (login_gate a ip) g" for a and f g :: "admin \<Rightarrow> 'x srv"
    by (rule ext) (simp add: login_gate_def bindM_def seqM_def throwM_def retM_def go_now_def getsM_def split: prod.splits sum.splits)
  show ?thesis
    unfolding admin_login_def login_read_def login_rest_def seqM_def bindM_assoc authenticate_parts
    by (rule arg_cong2 [where f = bindM], rule refl, rule ext, rule gate, rule refl)
qed

subsection \<open>One attempt without faults\<close>

abbreviation account :: "string \<Rightarrow> world \<Rightarrow> admin option" where
  "account name w \<equiv> find (\<lambda>r. ad_username r = name) (d_admins (w_db w))"

definition wrong :: "error + login_result \<Rightarrow> bool" where
  "wrong r \<longleftrightarrow> r = Inl (Service ErrBadCredentials) \<or> r = Inl (Service ErrMFABad)"

lemma find_upd: "find p t = Some a \<Longrightarrow> (\<And>r. p (f r) = p r) \<Longrightarrow>
    find p (upd q f t) = Some (if q a then f a else a)"
  by (induction t) (auto split: if_splits)

lemma find_has: "find p t = Some a \<Longrightarrow> q a \<Longrightarrow> find q t \<noteq> None"
  by (auto simp: find_None_iff dest: find_Some_in)

lemma risk_quiet: "fst (record_risk kind sev subj text det w) = Inr ()"
  "d_admins (w_db (snd (record_risk kind sev subj text det w))) = d_admins (w_db w)"
  "w_db_faults w = [] \<Longrightarrow> w_db_faults (snd (record_risk kind sev subj text det w)) = []"
  "w_now (snd (record_risk kind sev subj text det w)) = w_now w"
  by (auto simp: record_risk_def insert_risk_event_def db_serial_def db_step_def ignoreM_def Let_def
      split: prod.splits fault.splits sum.splits if_splits)

text \<open>A world in which the database answers, as an attempt leaves it: the row of the account is \<open>b\<close>, the clock stands.\<close>

definition after :: "string \<Rightarrow> world \<Rightarrow> admin \<Rightarrow> world \<Rightarrow> bool" where
  "after name w b v \<longleftrightarrow> w_db_faults v = [] \<and> account name v = Some b \<and> w_now v = w_now w"

lemma login_read_run:
  assumes "w_db_faults w = []" "account name w = Some a" "ad_status a = ''active''"
  shows "if locked_now (w_now w) a then \<exists>v. login_read name ip w = (Inl (Service ErrAccountLocked), v) \<and> after name w a v
    else login_read name ip w = (Inr a, w)"
proof -
  let ?m = "record_risk ''admin_login_locked'' ''high'' (ad_username a) ip []"
  have found: "or_no_rows (Service ErrBadCredentials) (get_admin_by_username name) w = (Inr a, w)"
    using assms by (simp add: get_admin_by_username_def next_row_def db_one_def db_exec_def db_step_def or_no_rows_def mapErrM_def)
  obtain u where u: "?m w = (Inr (), u)" using risk_quiet(1) by (metis prod.collapse)
  then have s: "u = snd (?m w)" by simp
  have "after name w a u" unfolding s using risk_quiet(2,3,4) [where w = w] assms(1,2) by (simp add: after_def)
  then show ?thesis using found assms(3) u
    by (simp add: login_read_def login_gate_def bindM_def seqM_def go_now_def getsM_def throwM_def retM_def)
qed

lemma failed_attempt:
  assumes "w_db_faults w = []" "account name w = Some b" "ad_id b = ad_id a"
  shows "\<exists>v. login_failed a kind sev ip e w = (Inl e, v) \<and> after name w (failed_row (pg_time (w_now w)) b) v"
proof -
  let ?t = "pg_time (w_now w)" and ?v = "w\<lparr>w_db := upd_admin (ad_id a) (failed_row (pg_time (w_now w))) (w_db w)\<rparr>"
  have "find (\<lambda>r. ad_id r = ad_id a) (d_admins (w_db w)) \<noteq> None" by (rule find_has [OF assms(2)]) (rule assms(3))
  then obtain q where "fst (tryM (on_login_failed (ad_id a)) w) = Inr (Inr q)" and v: "snd (tryM (on_login_failed (ad_id a)) w) = ?v"
    using assms(1) by (auto simp: on_login_failed_def db_exec_def db_step_def tryM_def)
  then have run: "tryM (on_login_failed (ad_id a)) w = (Inr (Inr q), ?v)" by (simp add: prod_eq_iff)
  have row: "account name ?v = Some (failed_row ?t b)"
    by (simp add: upd_admin_def find_upd [OF assms(2)] failed_row_def assms(3))
  show ?thesis
    using risk_quiet [where w = ?v] row assms(1)
    by (auto simp: after_def login_failed_def bindM_def run seqM_def throwM_def prod_eq_iff split: prod.splits)
qed

text \<open>The row that is counted up is the one of the moment, the password and the code are those of the row that was read.\<close>

lemma login_judge_run:
  assumes "w_db_faults w = []" "account name w = Some b" "ad_id b = ad_id a" "login_judge S a pw totp ip w = (r, v)"
  shows "(r = Inr () \<and> v = w) \<or>
    (r \<in> {Inl (Service ErrBadCredentials), Inl (Service ErrMFABad)} \<and> after name w (failed_row (pg_time (w_now w)) b) v) \<or>
    (r = Inl (Service ErrMFARequired) \<or> (\<exists>t. r = Inl (Text t))) \<and> after name w b v"
proof -
  note fails = failed_attempt [OF assms(1-3)]
  obtain c u where c: "check_password S pw (ad_password a) w = (c, u)" by (cases "check_password S pw (ad_password a) w")
  note out = check_password_out [OF c]
  have same: "after name w b w" using assms by (simp add: after_def)
  show ?thesis
  proof (cases "c = Inr True")
    case True
    obtain v' where "login_failed a ''admin_mfa_failed'' ''high'' ip (Service ErrMFABad) w = (Inl (Service ErrMFABad) :: error + unit, v')"
      "after name w (failed_row (pg_time (w_now w)) b) v'" using fails by blast
    then show ?thesis using True assms(4) c out same
      by (auto simp: login_judge_def bindM_def go_now_def getsM_def throwM_def retM_def split: if_splits option.splits)
  next
    case False
    obtain v' where "login_failed a ''admin_login_failed'' ''medium'' ip (Service ErrBadCredentials) w =
        (Inl (Service ErrBadCredentials) :: error + unit, v')" "after name w (failed_row (pg_time (w_now w)) b) v'" using fails by blast
    then show ?thesis using False assms(4) c out same
      by (auto simp: login_judge_def bindM_def split: sum.splits)
  qed
qed

text \<open>After the judgement only the database refuses.\<close>

lemma open_session_refused: "open_session S a w = (Inl e, w') \<Longrightarrow> \<exists>x. e = Store x"
  by (auto simp: open_session_def fresh_id_def bindM_def seqM_def retM_def random_token_def go_now_def getsM_def create_session_def
      db_exec_def db_step_def Let_def split: prod.splits fault.splits sum.splits if_splits)

lemma login_rest_refused:
  assumes run: "login_rest S a pw totp ip req w = (Inl e, w')" and e: "\<nexists>x. e = Store x"
  shows "login_judge S a pw totp ip w = (Inl e, w')"
proof (cases "login_judge S a pw totp ip w")
  case (Pair r v)
  show ?thesis
  proof (cases r)
    case (Inl x)
    then show ?thesis using run Pair by (simp add: login_rest_def bindM_def seqM_def)
  next
    case (Inr x)
    obtain q u where o: "on_login_success (ad_id a) v = (q, u)" by (cases "on_login_success (ad_id a) v")
    then have q: "q = Inr () \<or> (\<exists>x. q = Inl (Store x))"
      by (auto simp: on_login_success_def db_write_def db_exec_def db_step_def Let_def split: prod.splits fault.splits)
    obtain t u' where t: "open_session S a u = (t, u')" by (cases "open_session S a u")
    from q have False
    proof
      assume "q = Inr ()"
      then show False using run e Pair Inr o t open_session_refused [of S a u]
        by (auto simp: login_rest_def bindM_def seqM_def ignoreM_def retM_def split: sum.splits)
    next
      assume "\<exists>x. q = Inl (Store x)"
      then show False using run e Pair Inr o by (auto simp: login_rest_def bindM_def seqM_def)
    qed
    then show ?thesis ..
  qed
qed

subsection \<open>Guessing\<close>

text \<open>
  Logins on one account, any number at a time. An attempt arrives (password, TOTP code, address, request id), so
  many nanoseconds after the event before, and its first part runs; if the gate lets it through it is in flight
  until it proceeds with the row it has read. \<open>race\<close> gives the results in the order in which they come and the
  largest number that was in flight.
\<close>

type_synonym flight = "admin \<times> string \<times> string \<times> string \<times> string"

datatype login_event = Arrives time string string string string | Proceeds time nat

primrec gap :: "login_event \<Rightarrow> time" where
  "gap (Arrives g pw totp ip req) = g"
| "gap (Proceeds g i) = g"

primrec arrival :: "login_event \<Rightarrow> bool" where
  "arrival (Arrives g pw totp ip req) = True"
| "arrival (Proceeds g i) = False"

fun race :: "svc \<Rightarrow> string \<Rightarrow> login_event list \<Rightarrow> flight list \<Rightarrow> world \<Rightarrow> (error + login_result) list \<times> nat" where
  "race S name [] fl w = ([], length fl)"
| "race S name (Arrives g pw totp ip req # es) fl w =
     (case login_read name ip (w\<lparr>w_now := w_now w + g\<rparr>) of
        (Inl e, v) \<Rightarrow> (case race S name es fl v of (rs, n) \<Rightarrow> (Inl e # rs, max (length fl) n))
      | (Inr a, v) \<Rightarrow> (case race S name es (fl @ [(a, pw, totp, ip, req)]) v of (rs, n) \<Rightarrow> (rs, max (length fl) n)))"
| "race S name (Proceeds g i # es) fl w =
     (if i < length fl then (case fl ! i of (a, pw, totp, ip, req) \<Rightarrow>
        (case login_rest S a pw totp ip req (w\<lparr>w_now := w_now w + g\<rparr>) of (r, v) \<Rightarrow>
         (case race S name es (take i fl @ drop (Suc i) fl) v of (rs, n) \<Rightarrow> (r # rs, max (length fl) n))))
      else race S name es fl (w\<lparr>w_now := w_now w + g\<rparr>))"

text \<open>A login that nobody interrupts.\<close>

lemma race_alone:
  "fst (race S name [Arrives g pw totp ip req, Proceeds 0 0] [] w) =
    [fst (admin_login S name pw totp ip req (w\<lparr>w_now := w_now w + g\<rparr>))]"
  by (simp add: admin_login_parts bindM_def split: prod.splits sum.splits)

definition refused :: "error + login_result \<Rightarrow> bool" where
  "refused r \<longleftrightarrow> (\<exists>e. r = Inl (Service e)) \<or> (\<exists>t. r = Inl (Text t))"

text \<open>How many wrong guesses an account still judges before the instant \<open>h\<close>, when at most \<open>n\<close> are in flight at a time.\<close>

definition budget :: "time \<Rightarrow> admin \<Rightarrow> nat \<Rightarrow> nat \<Rightarrow> int" where
  "budget h a k n = (if locked_now h a then int k else max 1 (5 - ad_failed a) + max 0 (int n - 1))"

definition lock_counted :: "admin \<Rightarrow> bool" where
  "lock_counted a \<longleftrightarrow> (ad_locked a = None \<or> 5 \<le> ad_failed a)"

lemma failed_counted: "lock_counted (failed_row t a)"
  by (simp add: lock_counted_def failed_row_def)

lemma budget_failed:
  assumes "t \<le> h" "h < t + 899 * second" "lock_counted a" "0 < k" "k \<le> n" "m \<le> n"
  shows "budget h (failed_row (pg_time t) a) (k - 1) m + 1 \<le> budget h a k n"
proof -
  have "h < pg_time t + 900 * second" using pg_time_le(2) [of t] assms(2) by (simp add: second_def)
  then show ?thesis using assms(3-6) by (auto simp: budget_def failed_row_def locked_now_def lock_counted_def split: option.splits)
qed

lemma budget_fewer: "k \<le> l \<Longrightarrow> m \<le> n \<Longrightarrow> budget h a k m \<le> budget h a l n"
  by (auto simp: budget_def)

lemma race_peak: "race S name es fl w = (rs, n) \<Longrightarrow> length fl \<le> n"
  by (induction S name es fl w arbitrary: rs n rule: race.induct) (auto split: prod.splits sum.splits if_splits)

lemma race_budget:
  assumes "w_db_faults w = []" "account name w = Some a" "ad_status a = ''active''" "lock_counted a"
    and "\<forall>f \<in> set fl. ad_id (fst f) = ad_id a" "\<forall>e \<in> set es. 0 \<le> gap e" "h = w_now w + sum_list (map gap es)"
    and "sum_list (map gap es) < 899 * second" "race S name es fl w = (rs, n)"
  shows "int (length (filter wrong (takeWhile refused rs))) \<le> budget h a (length fl) n"
  using assms
proof (induction es arbitrary: w a fl rs n)
  case (Cons e es)
  let ?w = "w\<lparr>w_now := w_now w + gap e\<rparr>"
  have w: "w_db_faults ?w = []" "account name ?w = Some a" using Cons.prems by simp_all
  have later: "0 \<le> sum_list (map gap es)" using Cons.prems(6) by (intro sum_list_nonneg) auto
  have peak: "length fl \<le> n" using race_peak [OF Cons.prems(9)] .
  have IH: "int (length (filter wrong (takeWhile refused qs))) \<le> budget h b (length gl) m"
    if "after name ?w b v" "ad_status b = ''active''" "lock_counted b" "\<forall>f \<in> set gl. ad_id (fst f) = ad_id b"
      "race S name es gl v = (qs, m)" for v b gl qs m
    using Cons.IH [OF _ _ that(2-4) _ _ _ that(5)] Cons.prems(6-8) that(1) later by (simp add: after_def add.assoc)
  have same: "after name ?w a ?w" using w by (simp add: after_def)
  have old: "ad_status a = ''active''" "lock_counted a" "\<forall>f \<in> set fl. ad_id (fst f) = ad_id a" using Cons.prems by simp_all
  show ?case
  proof (cases e)
    case (Arrives g pw totp ip req)
    note read = login_read_run [OF w old(1), of ip]
    show ?thesis
    proof (cases "locked_now (w_now ?w) a")
      case True
      then obtain v where v: "login_read name ip ?w = (Inl (Service ErrAccountLocked), v)" "after name ?w a v" using read by auto
      obtain qs m where q: "race S name es fl v = (qs, m)" by (cases "race S name es fl v")
      have "rs = Inl (Service ErrAccountLocked) # qs" "m \<le> n" using Cons.prems(9) Arrives v q by auto
      moreover have "refused (Inl (Service ErrAccountLocked))" "\<not> wrong (Inl (Service ErrAccountLocked))" by (simp_all add: refused_def wrong_def)
      ultimately show ?thesis using IH [OF v(2) old q] budget_fewer [of "length fl" "length fl" m n h a] by simp
    next
      case False
      then have v: "login_read name ip ?w = (Inr a, ?w)" using read by simp
      obtain qs m where q: "race S name es (fl @ [(a, pw, totp, ip, req)]) ?w = (qs, m)"
        by (cases "race S name es (fl @ [(a, pw, totp, ip, req)]) ?w")
      have "rs = qs" "m \<le> n" using Cons.prems(9) Arrives v q by auto
      moreover have "\<not> locked_now h a" using False later Cons.prems(7) by (auto simp: locked_now_def split: option.splits)
      ultimately show ?thesis using IH [OF same old(1,2) _ q] old(3) by (simp add: budget_def)
    qed
  next
    case (Proceeds g i)
    show ?thesis
    proof (cases "i < length fl")
      case True
      obtain b pw totp ip req where f: "fl ! i = (b, pw, totp, ip, req)" by (cases "fl ! i")
      let ?gl = "take i fl @ drop (Suc i) fl"
      obtain r v where run: "login_rest S b pw totp ip req ?w = (r, v)" by (cases "login_rest S b pw totp ip req ?w")
      obtain qs m where q: "race S name es ?gl v = (qs, m)" by (cases "race S name es ?gl v")
      have rs: "rs = r # qs" "m \<le> n" using Cons.prems(9) Proceeds True f run q by auto
      have fewer: "length ?gl = length fl - 1" "\<forall>f \<in> set ?gl. ad_id (fst f) = ad_id a"
        using True old(3) by (auto dest: in_set_takeD in_set_dropD)
      have b: "ad_id a = ad_id b" using old(3) nth_mem [OF True] f by force
      show ?thesis
      proof (cases "refused r")
        case refused: True
        then obtain x where x: "r = Inl x" "\<nexists>y. x = Store y" by (auto simp: refused_def)
        have "login_judge S b pw totp ip ?w = (Inl x, v)" by (rule login_rest_refused) (use run x in simp_all)
        from login_judge_run [OF w b this]
        consider (judged) "wrong r" "after name ?w (failed_row (pg_time (w_now ?w)) a) v"
          | (other) "\<not> wrong r" "after name ?w a v" using x by (auto simp: wrong_def)
        then show ?thesis
        proof cases
          case judged
          let ?b = "failed_row (pg_time (w_now ?w)) a"
          have "ad_status ?b = ''active''" "ad_id ?b = ad_id a" using old(1) by (simp_all add: failed_row_def)
          then have "int (length (filter wrong (takeWhile refused qs))) \<le> budget h ?b (length fl - 1) m"
            using IH [OF judged(2) _ failed_counted _ q] fewer by simp
          moreover have "budget h ?b (length fl - 1) m + 1 \<le> budget h a (length fl) n"
            using later Cons.prems(6-8) Proceeds True peak rs(2) old(2) by (intro budget_failed) auto
          ultimately show ?thesis using rs(1) refused judged(1) by simp
        next
          case other
          have "budget h a (length ?gl) m \<le> budget h a (length fl) n" using fewer(1) rs(2) by (intro budget_fewer) simp_all
          then show ?thesis using IH [OF other(2) old(1,2) fewer(2) q] rs(1) refused other(1) by simp
        qed
      next
        case False
        then show ?thesis using rs by (auto simp: budget_def le_max_iff_disj)
      qed
    next
      case False
      then have "race S name es fl ?w = (rs, n)" using Cons.prems(9) Proceeds by simp
      from IH [OF same old this] show ?thesis .
    qed
  qed
qed (auto simp: budget_def le_max_iff_disj)

lemma race_locked:
  assumes "w_db_faults w = []" "account name w = Some a" "ad_status a = ''active''" "\<forall>e \<in> set es. 0 \<le> gap e"
    and "locked_now (w_now w + sum_list (map gap es)) a"
  shows "fst (race S name es [] w) = map (\<lambda>_. Inl (Service ErrAccountLocked)) (filter arrival es)"
  using assms
proof (induction es arbitrary: w)
  case (Cons e es)
  let ?w = "w\<lparr>w_now := w_now w + gap e\<rparr>"
  have "0 \<le> sum_list (map gap es)" using Cons.prems(4) by (intro sum_list_nonneg) auto
  then have now: "locked_now (w_now ?w) a" using Cons.prems(5) by (auto simp: locked_now_def split: option.splits)
  have w: "w_db_faults ?w = []" "account name ?w = Some a" using Cons.prems by simp_all
  have IH: "fst (race S name es [] v) = map (\<lambda>_. Inl (Service ErrAccountLocked)) (filter arrival es)" if "after name ?w a v" for v
    using Cons.IH [of v] that Cons.prems(3-5) by (simp add: after_def add.assoc)
  show ?case
  proof (cases e)
    case (Arrives g pw totp ip req)
    obtain v where "login_read name ip ?w = (Inl (Service ErrAccountLocked), v)" "after name ?w a v"
      using login_read_run [OF w Cons.prems(3), of ip] now by auto
    then show ?thesis using IH [of v] Arrives by (auto split: prod.splits)
  next
    case (Proceeds g i)
    then show ?thesis using IH [of ?w] w by (simp add: after_def)
  qed
qed simp

text \<open>C17. Guessing is bounded: while the database answers, logins on one account may arrive and proceed in any order and any number
  of them at a time; of the wrong passwords and codes among them, within any quarter of an hour (less a second) at most five
  are judged before the first attempt with the right ones, and one more for each attempt beyond the first that is in flight
  at the same time. When the count had reached five before (it survives the end of a lock) one is judged instead of five; when the account
  stays locked throughout, only what was already in flight is judged, and every attempt that arrives is refused unseen. The row
  at the start may be any active one whose lock, if it has one, came with a count of five, as the code sets it.\<close>
theorem guesses_bounded:
  assumes "w_db_faults w = []" "account name w = Some a" "ad_status a = ''active''" "0 \<le> ad_failed a" "lock_counted a"
    and "\<forall>f \<in> set fl. ad_id (fst f) = ad_id a" "\<forall>e \<in> set es. 0 \<le> gap e" "sum_list (map gap es) < 899 * second"
    and "race S name es fl w = (rs, n)"
  shows "length (filter wrong (takeWhile refused rs)) \<le> (if locked_now (w_now w + sum_list (map gap es)) a then length fl
      else (if 5 \<le> ad_failed a then 1 else 5) + (n - 1)) \<and>
    (fl = [] \<and> locked_now (w_now w + sum_list (map gap es)) a \<longrightarrow>
      rs = map (\<lambda>_. Inl (Service ErrAccountLocked)) (filter arrival es))"
  using race_budget [OF assms(1-3,5-7) refl assms(8,9)] race_locked [OF assms(1-3,7), of S] assms(4,9)
  by (auto simp: budget_def split: if_splits)

text \<open>The bound grows with the attempts in flight because it must: as many wrong passwords as arrive together are all judged.\<close>

lemma arrive_together:
  assumes "w_db_faults w = []" "account name w = Some a" "ad_status a = ''active''" "\<not> locked_now (w_now w) a"
  shows "fst (race S name (replicate k (Arrives 0 pw totp ip req) @ es) fl w) = fst (race S name es (fl @ replicate k (a, pw, totp, ip, req)) w)"
proof (induction k arbitrary: fl)
  case (Suc k)
  have "login_read name ip w = (Inr a, w)" using login_read_run [OF assms(1-3), of ip] assms(4) by simp
  then show ?case using Suc [of "fl @ [(a, pw, totp, ip, req)]"] by (simp add: case_prod_beta)
qed simp

lemma proceed_together:
  assumes "check_password S pw (ad_password a) = retM False"
  shows "w_db_faults w = [] \<Longrightarrow> account name w = Some b \<Longrightarrow> ad_id b = ad_id a \<Longrightarrow>
    fst (race S name (replicate k (Proceeds 0 0)) (replicate k (a, pw, totp, ip, req)) w) = replicate k (Inl (Service ErrBadCredentials))"
proof (induction k arbitrary: w b)
  case (Suc k)
  obtain v where "login_failed a ''admin_login_failed'' ''medium'' ip (Service ErrBadCredentials) w =
      (Inl (Service ErrBadCredentials) :: error + unit, v)" and v: "after name w (failed_row (pg_time (w_now w)) b) v"
    using failed_attempt [OF Suc.prems] by blast
  then have "login_rest S a pw totp ip req w = (Inl (Service ErrBadCredentials), v)"
    by (simp add: login_rest_def login_judge_def assms seqM_def bindM_def retM_def)
  moreover have "fst (race S name (replicate k (Proceeds 0 0)) (replicate k (a, pw, totp, ip, req)) v) =
      replicate k (Inl (Service ErrBadCredentials))"
    using Suc.IH [of v] v Suc.prems(3) by (simp add: after_def failed_row_def)
  ultimately show ?case by (simp add: case_prod_beta)
qed simp

lemma parallel_guesses:
  assumes "w_db_faults w = []" "account name w = Some a" "ad_status a = ''active''" "\<not> locked_now (w_now w) a"
    and "verify_password (sv_prims S) pw (ad_password a) = Inr False"
  shows "fst (race S name (replicate k (Arrives 0 pw totp ip req) @ replicate k (Proceeds 0 0)) [] w) =
    replicate k (Inl (Service ErrBadCredentials))"
proof -
  have "check_password S pw (ad_password a) = retM False" using assms(5) by (simp add: check_password_def liftE_def)
  from proceed_together [OF this assms(1,2) refl] show ?thesis by (simp add: arrive_together [OF assms(1-4)])
qed

definition burst :: "nat \<Rightarrow> login_event list" where
  "burst k = replicate k (Arrives 0 ''guess'' [] ''10.0.0.1'' ''q'') @ replicate k (Proceeds 0 0)"

lemma guesses_bounded_witness:
  "\<exists>rs n. race demo_svc ''boss'' (concat (replicate 10 (burst 1))) [] (demo_world office_db) = (rs, n) \<and>
     length (filter wrong (takeWhile refused rs)) \<le> 5 + (n - 1)"
proof -
  obtain rs n where run: "race demo_svc ''boss'' (concat (replicate 10 (burst 1))) [] (demo_world office_db) = (rs, n)"
    by (cases "race demo_svc ''boss'' (concat (replicate 10 (burst 1))) [] (demo_world office_db)")
  have gaps: "\<forall>e \<in> set (concat (replicate 10 (burst 1))). gap e = 0" by (auto simp: burst_def)
  have "sum_list (map gap (concat (replicate 10 (burst 1)))) = 0" by (simp add: burst_def numeral_eq_Suc)
  then show ?thesis
    using guesses_bounded [OF _ _ _ _ _ _ _ _ run, of "demo_admin ''boss'' ''superadmin'' None"] run gaps
    by (auto simp: demo_world_def office_db_def demo_admin_def second_def lock_counted_def locked_now_def)
qed

subsection \<open>Getting in\<close>

text \<open>What authenticated: an active row that is not locked, the password, and the code when the second factor is on.\<close>

definition credentials :: "svc \<Rightarrow> time \<Rightarrow> admin \<Rightarrow> string \<Rightarrow> string \<Rightarrow> bool" where
  "credentials S now a pw totp \<longleftrightarrow> ad_status a = ''active'' \<and> \<not> locked_now now a \<and> password_ok S pw (ad_password a) \<and>
     (ad_mfa a \<longrightarrow> totp \<noteq> [] \<and> (\<exists>secret. ad_totp a = Some secret \<and> verify_totp (sv_prims S) secret totp (unix now)))"

lemma authenticate_Inr: "authenticate S a pw totp ip w = (Inr u, w') \<longleftrightarrow> credentials S (w_now w) a pw totp \<and> w' = w"
  by (auto simp: check_password_True authenticate_def credentials_def go_now_def bindM_Inr_iff getsM_eq_iff seqM_Inr_iff throwM_eq_iff retM_eq_iff
      login_failed_def split: option.splits)

lemma open_session_Inr:
  assumes "open_session S a w = (Inr (tok, csrf), w')"
  shows "\<exists>x. d_sessions (w_db w') = d_sessions (w_db w) @ [x] \<and> d_admins (w_db w') = d_admins (w_db w) \<and>
    se_admin x = ad_id a \<and> se_token x = token_hash S tok \<and> se_csrf x = csrf \<and> se_revoked x = None \<and>
    se_expires x = pg_time (w_now w + sv_session_ttl S)"
  using assms
  by (auto simp: open_session_def fresh_id_def bindM_def seqM_def retM_def random_token_def go_now_def getsM_def create_session_def
      db_exec_def db_step_def Let_def split: prod.splits fault.splits sum.splits if_splits)

lemma audit_quiet: "leaves d_sessions (ignoreM (insert_audit a))" "leaves d_admins (ignoreM (insert_audit a))"
  by (intro same.wrap leaves_audits; simp)+

text \<open>C16. Nobody gets into the back office without the credentials of the account: a login that succeeds names an active account
  that is not locked, with its password, and with a valid code when the second factor is on. It adds exactly one session, of
  that account, under the hash of the token in the reply and with the CSRF token in the reply, for the configured time; it clears
  the count of failures of that account and leaves every other account alone.\<close>
theorem admin_login_admits:
  assumes "admin_login S name pw totp ip req w = (Inr r, w')"
  shows "lr_admin r \<in> set (d_admins (w_db w)) \<and> ad_username (lr_admin r) = name \<and> credentials S (w_now w) (lr_admin r) pw totp \<and>
    (\<exists>x. d_sessions (w_db w') = d_sessions (w_db w) @ [x] \<and> se_admin x = ad_id (lr_admin r) \<and>
       se_token x = token_hash S (lr_token r) \<and> se_csrf x = lr_csrf r \<and> se_revoked x = None \<and>
       se_expires x = pg_time (w_now w + sv_session_ttl S)) \<and>
    d_admins (w_db w') = upd (\<lambda>b. ad_id b = ad_id (lr_admin r))
      (\<lambda>b. b\<lparr>ad_failed := 0, ad_locked := None, ad_last_login := Some (pg_time (w_now w))\<rparr>) (d_admins (w_db w))"
proof -
  from assms obtain a v1 u1 v2 u2 v3 tok csrf v4 u4 v5 where
    found: "get_admin_by_username name w = (Inr a, v1)" and auth: "authenticate S a pw totp ip v1 = (Inr u1, v2)"
    and ok: "on_login_success (ad_id a) v2 = (Inr u2, v3)" and session: "open_session S a v3 = (Inr (tok, csrf), v4)"
    and audited: "ignoreM (insert_audit \<lparr>au_admin = Some (ad_id a), au_username = Some (ad_username a), au_action = ''auth.login'',
        au_target_type = None, au_target = None, au_before = None, au_after = None, au_detail = None, au_ip = Some ip,
        au_request = Some req, au_ts = 0\<rparr>) v4 = (Inr u4, v5)"
    and r: "r = \<lparr>lr_token = tok, lr_csrf = csrf, lr_admin = a\<rparr>" "w' = v5"
    unfolding admin_login_def bindM_Inr_iff seqM_Inr_iff or_no_rows_Inr split_paired_Ex split_paired_All
    by (auto simp: bindM_Inr_iff seqM_Inr_iff retM_eq_iff)
  note a = get_row_Inr [OF found [unfolded get_admin_by_username_def]]
  from auth have v2: "credentials S (w_now v1) a pw totp" "v2 = v1" by (simp_all add: authenticate_Inr)
  have v3: "w_db v3 = upd_admin (ad_id a) (\<lambda>b. b\<lparr>ad_failed := 0, ad_locked := None, ad_last_login := Some (pg_time (w_now v1))\<rparr>) (w_db v1)"
    "w_now v3 = w_now v1"
    using ok v2 by (auto simp: on_login_success_def db_write_def db_exec_def db_step_def Let_def split: prod.splits fault.splits)
  have log: "d_sessions (w_db v5) = d_sessions (w_db v4)" "d_admins (w_db v5) = d_admins (w_db v4)"
    using audited evolvesD [OF audit_quiet(1)] evolvesD [OF audit_quiet(2)] by metis+
  show ?thesis
    using a v2 v3 open_session_Inr [OF session] log r
    by (auto simp: upd_admin_def)
qed

text \<open>An account with a password that derives to its own hash.\<close>

definition boss_hash :: string where
  "boss_hash = phc_text 19456 2 1 ''salt'' (CHR ''a'' # replicate 31 (mk_byte 0))"

definition boss :: admin where
  "boss = (demo_admin ''boss'' ''superadmin'' None)\<lparr>ad_password := boss_hash, ad_failed := 3\<rparr>"

definition desk_svc :: svc where
  "desk_svc = demo_svc\<lparr>sv_prims := toy_argon\<rparr>"

lemma boss_password: "password_ok desk_svc ''a'' boss_hash"
  by (simp add: password_ok_def boss_hash_def verify_phc id_key_def toy_argon_def desk_svc_def)

lemma demo_login: "\<exists>r. fst (admin_login desk_svc ''boss'' ''a'' [] ''10.0.0.1'' ''q'' (demo_world (office_db\<lparr>d_admins := [boss], d_sessions := []\<rparr>))) = Inr r"
proof -
  have "authenticate desk_svc boss ''a'' [] ''10.0.0.1'' w = (Inr (), w)" for w
    using boss_password by (simp add: authenticate_Inr credentials_def locked_now_def boss_def demo_admin_def)
  moreover have "or_no_rows e (get_admin_by_username ''boss'') w = (Inr boss, w)"
    if "w = demo_world (office_db\<lparr>d_admins := [boss], d_sessions := []\<rparr>)" for e w
    unfolding that by (simp add: mdefs or_no_rows_def get_admin_by_username_def next_row_def db_one_def db_exec_def db_step_def
        demo_world_def boss_def demo_admin_def)
  ultimately show ?thesis
    by (simp add: admin_login_def mdefs db_exec_def db_step_def demo_world_def on_login_success_def db_write_def upd_admin_def
      open_session_def random_token_def fresh_id_def go_now_def Let_def create_session_def exists_row_iff)
qed

lemma admin_login_admits_witness:
  "\<exists>r w' x. admin_login desk_svc ''boss'' ''a'' [] ''10.0.0.1'' ''q'' (demo_world (office_db\<lparr>d_admins := [boss], d_sessions := []\<rparr>)) = (Inr r, w') \<and>
     lr_admin r = boss \<and> d_sessions (w_db w') = [x] \<and> se_token x = token_hash desk_svc (lr_token r) \<and> map ad_failed (d_admins (w_db w')) = [0]"
proof -
  obtain r w' where run: "admin_login desk_svc ''boss'' ''a'' [] ''10.0.0.1'' ''q'' (demo_world (office_db\<lparr>d_admins := [boss], d_sessions := []\<rparr>)) = (Inr r, w')"
    using demo_login by (metis prod.collapse)
  have db: "w_db (demo_world d) = d" for d by (simp add: demo_world_def)
  from admin_login_admits [OF run] run show ?thesis by (auto simp: db)
qed

end
