(* ===== verification/Renewals.thy ===== *)
theory Renewals
  imports Guards
begin

section \<open>Renewing a licence with a card\<close>

text \<open>
  \<open>Redeem\<close> of \<open>internal/service/heartbeat.go\<close>, read from its success: the device that asked, the card that
  was spent, and exactly the rows that changed.
\<close>

subsection \<open>The rows of a renewal\<close>

text \<open>What a renewal reads and writes besides devices, events and risk records.\<close>

definition sale_rows :: "db \<Rightarrow> card list \<times> license list \<times> renewal list \<times> plan list" where
  "sale_rows d = (d_cards d, d_licenses d, d_renewals d, d_plans d)"

lemma sale_rows_beat: "beat k d d' \<Longrightarrow> sale_rows d' = sale_rows d"
  by (auto simp: beat_def dest: arg_cong [of _ _ sale_rows] simp: sale_rows_def)

lemma extend_license_Inr:
  assumes "extend_license k days w = (Inr e, w')"
  obtains l where "find (\<lambda>r. li_id r = k) (d_licenses (w_db w)) = Some l" "e = extended_expiry (pg_time (w_now w)) (li_expires l) days"
    "w_db w' = (w_db w)\<lparr>d_licenses := upd (\<lambda>r. li_id r = k)
       (\<lambda>r. r\<lparr>li_expires := Some e, li_updated := pg_time (w_now w)\<rparr>) (d_licenses (w_db w))\<rparr>" "w_now w' = w_now w"
  using assms
  by (auto simp: extend_license_def db_exec_def db_step_def Let_def split: prod.splits fault.splits sum.splits option.splits if_splits)

lemma renew_with_rows:
  assumes run: "renew_with now dev lic c pl lpl req w = (Inr x, w')"
    and only: "\<And>l. l \<in> set (d_licenses (w_db w)) \<Longrightarrow> li_id l = li_id lic \<Longrightarrow> l = lic"
  shows "\<exists>e jti n. e = extended_expiry (pg_time (w_now w)) (li_expires lic) (pl_days pl) \<and>
    x = \<lparr>rr_license = li_id lic, rr_expiry = Some e, rr_days = pl_days pl, rr_claims = redeem_claims now jti lic dev lpl, rr_lease = []\<rparr> \<and>
    rn_license n = li_id lic \<and> rn_card n = cd_id c \<and> rn_days n = pl_days pl \<and>
    sale_rows (w_db w') = (upd (\<lambda>r. cd_id r = cd_id c) (cd_status_update (\<lambda>_. CardDepleted)) (d_cards (w_db w)),
      upd (\<lambda>r. li_id r = li_id lic) (\<lambda>r. r\<lparr>li_expires := Some e, li_updated := pg_time (w_now w)\<rparr>) (d_licenses (w_db w)),
      d_renewals (w_db w) @ [n], d_plans (w_db w))"
proof -
  from run obtain e w1 u w2 v w3 y w4 jti w5 where
    ext: "extend_license (li_id lic) (pl_days pl) w = (Inr e, w1)" and
    dep: "set_card_status (cd_id c) CardDepleted w1 = (Inr u, w2)" and
    ren: "insert_renewal (li_id lic) (cd_id c) (pl_days pl) (li_expires lic) (Some e) w2 = (Inr v, w3)" and
    ev: "insert_license_event (li_id lic) ''renewed'' ''device'' req [(''card_prefix'', JStr (cd_prefix c)),
      (''days'', JInt (pl_days pl)), (''new_expiry'', JTime e)] w3 = (Inr y, w4)" and
    tok: "random_token w4 = (Inr jti, w5)" and
    x: "x = \<lparr>rr_license = li_id lic, rr_expiry = Some e, rr_days = pl_days pl, rr_claims = redeem_claims now jti lic dev lpl, rr_lease = []\<rparr>"
      "w' = w5"
    unfolding renew_with_def bindM_Inr_iff seqM_Inr_iff retM_eq_iff by blast
  obtain l where l: "find (\<lambda>r. li_id r = li_id lic) (d_licenses (w_db w)) = Some l"
      "e = extended_expiry (pg_time (w_now w)) (li_expires l) (pl_days pl)"
    and d1: "w_db w1 = (w_db w)\<lparr>d_licenses := upd (\<lambda>r. li_id r = li_id lic)
       (\<lambda>r. r\<lparr>li_expires := Some e, li_updated := pg_time (w_now w)\<rparr>) (d_licenses (w_db w))\<rparr>"
    by (rule extend_license_Inr [OF ext])
  have "l = lic" using only find_Some_in [OF l(1)] by simp
  obtain n where n: "w_db w3 = (w_db w2)\<lparr>d_renewals := d_renewals (w_db w2) @ [n]\<rparr>" "rn_card n = cd_id c" "rn_license n = li_id lic"
    "rn_days n = pl_days pl"
    using insert_renewal_Inr [OF ren] by metis
  have "sale_rows (w_db w4) = sale_rows (w_db w3)"
    using leaves_run [OF leaves_events(1) [where f = sale_rows] ev] by (simp add: sale_rows_def)
  moreover have "w_db w5 = w_db w4" using tok by (auto simp: random_token_def)
  ultimately show ?thesis
    using set_status_Inr [OF dep] d1 n l(2) \<open>l = lic\<close> x by (auto simp: sale_rows_def)
qed

subsection \<open>A redemption that succeeds\<close>

lemma sales_ok_rows: "sale_rows d = sale_rows e \<Longrightarrow> sales_ok d \<longleftrightarrow> sales_ok e"
  by (simp add: sale_rows_def sales_ok_def)

lemma parsed_Inr: "(case q of Inl _ \<Rightarrow> Inl e | Inr n \<Rightarrow> Inr n) = Inr x \<longleftrightarrow> q = Inr x"
  by (cases q) simp_all

lemma redeem_Inr:
  assumes "redeem S body ds ip req w = (Inr r, w')"
  obtains code dev v1 v2 canon v3 v4 res where "open_redeem S body = Inr code"
    "signed_device S ds (\<lambda>_. True) ''/v1/redeem'' body w = (Inr dev, v1)" "check_replay S dev ds ip ''redeem'' v1 = (Inr (), v2)"
    "normalize_card code = Inr canon" "refuse_banned ''card_prefix'' (card_prefix canon) v2 = (Inr (), v3)"
    "with_tx (redeem_tx (w_now v3) dev (card_lookup S canon) req) v3 = (Inr res, v4)"
    "mint_token (sv_signer S) (rr_claims res) = Inr (rr_lease r)" "rr_expiry r = rr_expiry res" "w' = v4"
proof -
  from assms obtain code where code: "open_redeem S body = Inr code"
    and r1: "bindM (signed_device S ds (\<lambda>_. True) ''/v1/redeem'' body) (\<lambda>dev. seqM (check_replay S dev ds ip ''redeem'')
      (bindM (liftE (case normalize_card code of Inl _ \<Rightarrow> Inl (Dom ErrCardInvalidFormat) | Inr n \<Rightarrow> Inr n)) (\<lambda>canon.
      seqM (refuse_banned ''card_prefix'' (card_prefix canon)) (bindM go_now (\<lambda>now.
      bindM (with_tx (redeem_tx now dev (card_lookup S canon) req)) (\<lambda>res.
      bindM (liftE (mint_token (sv_signer S) (rr_claims res))) (\<lambda>lease. retM (res\<lparr>rr_lease := lease\<rparr>)))))))) w = (Inr r, w')"
    unfolding redeem_def bindM_Inr_iff [of "liftE (open_redeem S body)"] liftE_Inr by blast
  from r1 obtain dev v1 u v2 where d: "signed_device S ds (\<lambda>_. True) ''/v1/redeem'' body w = (Inr dev, v1)"
      "check_replay S dev ds ip ''redeem'' v1 = (Inr u, v2)"
    and r2: "bindM (liftE (case normalize_card code of Inl _ \<Rightarrow> Inl (Dom ErrCardInvalidFormat) | Inr n \<Rightarrow> Inr n)) (\<lambda>canon.
      seqM (refuse_banned ''card_prefix'' (card_prefix canon)) (bindM go_now (\<lambda>now.
      bindM (with_tx (redeem_tx now dev (card_lookup S canon) req)) (\<lambda>res.
      bindM (liftE (mint_token (sv_signer S) (rr_claims res))) (\<lambda>lease. retM (res\<lparr>rr_lease := lease\<rparr>)))))) v2 = (Inr r, w')"
    unfolding bindM_Inr_iff [of "signed_device S ds (\<lambda>_. True) ''/v1/redeem'' body"] seqM_Inr_iff [of "check_replay S _ ds ip ''redeem''"] by blast
  from r2 obtain canon v3 where c: "normalize_card code = Inr canon" "refuse_banned ''card_prefix'' (card_prefix canon) v2 = (Inr (), v3)"
    and r3: "bindM (with_tx (redeem_tx (w_now v3) dev (card_lookup S canon) req)) (\<lambda>res.
      bindM (liftE (mint_token (sv_signer S) (rr_claims res))) (\<lambda>lease. retM (res\<lparr>rr_lease := lease\<rparr>))) v3 = (Inr r, w')"
    by (cases "normalize_card code") (auto simp: bindM_def seqM_def liftE_def go_now_def getsM_def retM_def throwM_def split: prod.splits sum.splits)
  from r3 obtain res v4 l where t: "with_tx (redeem_tx (w_now v3) dev (card_lookup S canon) req) v3 = (Inr res, v4)"
    "mint_token (sv_signer S) (rr_claims res) = Inr l" "r = res\<lparr>rr_lease := l\<rparr>" "w' = v4"
    unfolding bindM_Inr_iff liftE_Inr retM_eq_iff by blast
  show thesis by (rule that [OF code d(1) _ c t(1) _ _ t(4)]) (use d(2) t in simp_all)
qed

text \<open>C13. A renewal card buys its days, once, for the licence of the device that asks: the request was signed by a bound device within
  the time skew, its licence is active and has an expiry (past or not), the card on record under the typed text is an unused
  renewal card of the same product whose plan gives days, and the licence's plan is active. The licence then runs the card's days longer,
  counted from its expiry or from now, whichever is later; the card is depleted, one renewal names both, and no other card, licence
  or renewal changes. The lease in the reply is the signed statement of the licence as it was before.\<close>
theorem redeem_renews:
  assumes "redeem S body ds ip req w = (Inr r, w')" "sales_ok (w_db w)"
  shows "\<exists>dev code canon lic old c pl lpl e jti n. dev \<in> set (d_devices (w_db w)) \<and> signer S ds ''/v1/redeem'' body dev \<and>
    \<not> stale (w_now w) (sv_skew S) (ds_ts ds) \<and> open_redeem S body = Inr code \<and> normalize_card code = Inr canon \<and>
    lic \<in> set (d_licenses (w_db w)) \<and> li_id lic = dv_license dev \<and> li_status lic = LicenseActive \<and> li_expires lic = Some old \<and>
    c \<in> set (d_cards (w_db w)) \<and> cd_lookup c = card_lookup S canon \<and> cd_status c = CardUnused \<and> cd_kind c = ''renewal'' \<and>
    cd_product c = li_product lic \<and> pl \<in> set (d_plans (w_db w)) \<and> pl_id pl = cd_plan c \<and> 0 < pl_days pl \<and>
    pl_id lpl = li_plan lic \<and> pl_status lpl = ''active'' \<and>
    e = max old (pg_time (w_now w)) + pl_days pl * day \<and> rr_expiry r = Some e \<and>
    rn_license n = li_id lic \<and> rn_card n = cd_id c \<and> rn_days n = pl_days pl \<and>
    sale_rows (w_db w') = (upd (\<lambda>r. cd_id r = cd_id c) (cd_status_update (\<lambda>_. CardDepleted)) (d_cards (w_db w)),
      upd (\<lambda>r. li_id r = li_id lic) (\<lambda>r. r\<lparr>li_expires := Some e, li_updated := pg_time (w_now w)\<rparr>) (d_licenses (w_db w)),
      d_renewals (w_db w) @ [n], d_plans (w_db w)) \<and>
    mint_token (sv_signer S) (redeem_claims (w_now w) jti lic dev lpl) = Inr (rr_lease r)"
proof -
  obtain code dev v1 v2 canon v3 v4 res where op: "open_redeem S body = Inr code"
    and sd: "signed_device S ds (\<lambda>_. True) ''/v1/redeem'' body w = (Inr dev, v1)"
    and rp: "check_replay S dev ds ip ''redeem'' v1 = (Inr (), v2)" and canon: "normalize_card code = Inr canon"
    and bn: "refuse_banned ''card_prefix'' (card_prefix canon) v2 = (Inr (), v3)"
    and tx: "with_tx (redeem_tx (w_now v3) dev (card_lookup S canon) req) v3 = (Inr res, v4)"
    and lease: "mint_token (sv_signer S) (rr_claims res) = Inr (rr_lease r)" "rr_expiry r = rr_expiry res" "w' = v4"
    by (rule redeem_Inr [OF assms(1)])
  note sd' = signed_device_Inr [OF sd] and rp' = check_replay_Inr [OF rp]
  have v3: "w_now v3 = w_now w" "w_db v3 = w_db v2"
    using sd' rp' keepsD [OF now_guards(3) bn] keepsD [OF guarded_reads(3) bn] by simp_all
  have same: "sale_rows (w_db v3) = sale_rows (w_db w)"
    using sale_rows_beat [OF evolvesD [OF beat_checks(1) rp]] sd' v3 by simp
  obtain t t' where run: "redeem_tx (w_now v3) dev (card_lookup S canon) req t = (Inr res, t')"
    and t: "w_db t = w_db v3" "w_now t = w_now v3" "w_db v4 = w_db t'"
    by (rule with_tx_InrE [OF tx])
  obtain lic c pl lpl x where renew: "renew_with (w_now v3) dev lic (card_view c) pl lpl req x = (Inr res, t')"
    and x: "w_db x = w_db t" "w_now x = w_now t" and rows: "lic \<in> set (d_licenses (w_db t))" "li_id lic = dv_license dev"
      "li_status lic = LicenseActive" "li_expires lic \<noteq> None" "c \<in> set (d_cards (w_db t))" "cd_lookup c = card_lookup S canon"
      "cd_status c = CardUnused" "cd_kind c = ''renewal''" "cd_product c = li_product lic" "0 < pl_days pl" "pl_id pl = cd_plan c"
      "pl \<in> set (d_plans (w_db t))" "pl_id lpl = li_plan lic" "pl_status lpl = ''active''"
    by (rule redeem_tx_commit [OF run])
  have tabs: "d_cards (w_db x) = d_cards (w_db w)" "d_licenses (w_db x) = d_licenses (w_db w)" "d_renewals (w_db x) = d_renewals (w_db w)"
    "d_plans (w_db x) = d_plans (w_db w)" using same x t by (simp_all add: sale_rows_def)
  have only: "l = lic" if "l \<in> set (d_licenses (w_db x))" "li_id l = li_id lic" for l
    using assms(2) that rows(1) tabs x t by (auto simp: sales_ok_def linked_def dest: distinct_map_eqD)
  obtain e jti n where res: "e = extended_expiry (pg_time (w_now x)) (li_expires lic) (pl_days pl)"
    "res = \<lparr>rr_license = li_id lic, rr_expiry = Some e, rr_days = pl_days pl, rr_claims = redeem_claims (w_now v3) jti lic dev lpl, rr_lease = []\<rparr>"
    "rn_license n = li_id lic" "rn_card n = cd_id (card_view c)" "rn_days n = pl_days pl"
    "sale_rows (w_db t') = (upd (\<lambda>r. cd_id r = cd_id (card_view c)) (cd_status_update (\<lambda>_. CardDepleted)) (d_cards (w_db x)),
      upd (\<lambda>r. li_id r = li_id lic) (\<lambda>r. r\<lparr>li_expires := Some e, li_updated := pg_time (w_now x)\<rparr>) (d_licenses (w_db x)),
      d_renewals (w_db x) @ [n], d_plans (w_db x))"
    using renew_with_rows [OF renew only] by blast
  obtain old where old: "li_expires lic = Some old" using rows(4) by blast
  then have e: "e = max old (pg_time (w_now w)) + pl_days pl * day" using res(1) x t v3 by (auto simp: extended_expiry_def)
  have rr: "rr_expiry r = Some e" "mint_token (sv_signer S) (redeem_claims (w_now w) jti lic dev lpl) = Inr (rr_lease r)"
    using lease res(2) v3 by simp_all
  have asked: "dev \<in> set (d_devices (w_db w))" "signer S ds ''/v1/redeem'' body dev" "\<not> stale (w_now w) (sv_skew S) (ds_ts ds)"
    using sd' rp' by simp_all
  have found: "lic \<in> set (d_licenses (w_db w))" "c \<in> set (d_cards (w_db w))" "pl \<in> set (d_plans (w_db w))"
    using rows tabs x t by simp_all
  have changed: "sale_rows (w_db w') = (upd (\<lambda>r. cd_id r = cd_id c) (cd_status_update (\<lambda>_. CardDepleted)) (d_cards (w_db w)),
      upd (\<lambda>r. li_id r = li_id lic) (\<lambda>r. r\<lparr>li_expires := Some e, li_updated := pg_time (w_now w)\<rparr>) (d_licenses (w_db w)),
      d_renewals (w_db w) @ [n], d_plans (w_db w))"
    using res(6) tabs x t v3 lease(3) by (simp add: card_view_def)
  have "rn_card n = cd_id c" using res(4) by (simp add: card_view_def)
  with asked op canon found rows old e rr res(3,5) changed show ?thesis
    by (intro exI conjI) assumption+
qed

subsection \<open>A customer with a renewal card\<close>

text \<open>The licence of the machine in the field ran out long ago; its owner types a new card.\<close>

definition renewal_db :: db where
  "renewal_db = field_db\<lparr>d_licenses := [sold_license], d_renewals := [],
     d_cards := [sold_card, used_renewal_card\<lparr>cd_lookup := card_lookup demo_svc (replicate 26 CHR ''B''), cd_status := CardUnused\<rparr>]\<rparr>"

lemma renewal_ok: "sales_ok renewal_db"
  by (simp add: sales_ok_def renewal_db_def field_db_def sold_db_def empty_db_def cards_wf_def linked_def redeemed_def card_ok_def
      sold_card_def used_renewal_card_def sold_license_def issued_def card_lookup_def card_hmac_def demo_svc_def plain_prims_def
      hex_encode_def)

lemma demo_code_opens: "\<exists>body. open_redeem field_svc body = Inr (replicate 26 CHR ''B'')"
proof -
  let ?code = "replicate 26 CHR ''B''"
  let ?members = "w_str ''card'' ?code"
  let ?body = "sealed_text plain_prims demo_kex (replicate 32 (mk_byte 1)) (replicate 32 (mk_byte 0)) alg_gcm
    (show_object (map member_text ?members)) (aad_context ''redeem'') (replicate 12 (mk_byte 2))"
  have "open_envelope plain_prims ?body [] [demo_kex] (aad_context ''redeem'') = Inr (show_object (map member_text ?members))"
    by (rule sealed_text_opens) (simp_all add: plain_prims_def aead_ok_def demo_kex_def byte_def ascii_utf8)
  moreover have "sv_prims field_svc = plain_prims" "sv_kex field_svc = [demo_kex]" by (simp_all add: field_svc_def demo_svc_def)
  moreover have "unmarshal_strict redeem_fields (show_object (map member_text ?members)) \<lparr>rp_card = []\<rparr> = (True, \<lparr>rp_card = ?code\<rparr>)"
  proof -
    have "list_all member_ok ?members" by (intro members_ok key_ascii ascii_replicate) (simp_all add: byte_def)
    moreover have "?members \<noteq> []" by (simp add: w_str_def)
    moreover have "find_field redeem_fields ''card'' = Some (js_string ''card'' (\<lambda>x. rp_card_update (\<lambda>_. x)))"
      by (simp add: find_field_def redeem_fields_def js_string_def)
    ultimately show ?thesis by (subst unmarshal_strict_written) (simp_all add: fill_members)
  qed
  ultimately have "open_redeem field_svc ?body = Inr ?code" by (simp add: open_redeem_def)
  then show ?thesis by blast
qed

lemma field_signer: "sv_signer field_svc = local_signer plain_prims [(''k'', ''seed'')] ''k''" "card_lookup demo_svc (replicate 26 CHR ''B'') \<noteq> ''x1''"
  by (simp_all add: field_svc_def demo_svc_def card_lookup_def card_hmac_def plain_prims_def hex_encode_def)

lemma demo_renewal:
  assumes "open_redeem field_svc body = Inr (replicate 26 CHR ''B'')"
  shows "\<exists>r. fst (redeem field_svc body demo_sig ''10.0.0.1'' ''q'' (demo_world renewal_db)) = Inr r"
  by (simp add: redeem_def assms liftE_def mdefs demo_code_good signed_device_def or_no_rows_def get_device_by_pub_def db_one_def
    db_exec_def db_step_def demo_world_def renewal_db_def field_db_def demo_device_def demo_sig_def newest_first_def verify_pub_def
    b64_decode_encode field_svc_sel plain_prims_def check_replay_def go_now_def stale_def unix_def second_def redis_call_def
    consume_nonce_def r_get_def r_set_def empty_redis_def now_ms_def check_seq_step_def check_seq_def seq_script_def seq_cur_def Let_def
    lua_num_small lua_print_small get_license_def get_plan_def next_row_def refuse_banned_def is_banned_def db_read_def affected_0
    redeem_tx_def with_tx_def get_card_by_lookup_def card_view_def check_renewal_card_def sold_card_def used_renewal_card_def
    sold_license_def sold_db_def empty_db_def renew_with_def extend_license_def set_card_status_def update_cards_def insert_renewal_def
    insert_license_event_def db_new_def db_serial_def need_rows_def affected_def event_kinds_def random_token_def
    mint_token_def redeem_claims_def exists_row_iff in_strs_iff card_prefix_def
    card_state_ok_def int4_def field_signer field_signer(2) [symmetric] local_signer_def local_sign_def)

lemma redeem_renews_witness:
  "\<exists>body r. fst (redeem field_svc body demo_sig ''10.0.0.1'' ''q'' (demo_world renewal_db)) = Inr r \<and>
     rr_expiry r = Some (1700000000 * second + 30 * day) \<and>
     d_renewals (w_db (snd (redeem field_svc body demo_sig ''10.0.0.1'' ''q'' (demo_world renewal_db)))) \<noteq> []"
proof -
  obtain body where opens: "open_redeem field_svc body = Inr (replicate 26 CHR ''B'')" using demo_code_opens by blast
  then obtain r w' where run: "redeem field_svc body demo_sig ''10.0.0.1'' ''q'' (demo_world renewal_db) = (Inr r, w')"
    using demo_renewal by (metis prod.collapse)
  have db: "w_db (demo_world renewal_db) = renewal_db" "w_now (demo_world renewal_db) = 1700000000 * second"
    "d_licenses renewal_db = [sold_license]" "pl \<in> set (d_plans renewal_db) \<Longrightarrow> pl_days pl = 30" for pl
    by (auto simp: demo_world_def renewal_db_def field_db_def)
  have old: "li_expires sold_license = Some day" "max day (pg_time (1700000000 * second)) = 1700000000 * second"
    by (simp_all add: sold_license_def pg_time_def second_def day_def)
  show ?thesis
    using redeem_renews [OF run] renewal_ok run by (auto simp: db old sale_rows_def intro!: exI [of _ body])
qed

end
