(* ===== verification/Accounts.thy ===== *)
theory Accounts
  imports Logins Renewals
begin

section \<open>Accounts of end users\<close>

text \<open>
  \<open>internal/service/usersvc.go\<close>, read from its successes: what a login to an account must present and the machine
  it then belongs to, and what a card spent on an account buys.
\<close>

subsection \<open>The bearer of a token\<close>

lemma parse_user_token_Inr:
  assumes "parse_user_token S tok w = (Inr u, w')"
  obtains c where "verify_token_with_type (sv_prims S) tok ''user'' (unix (w_now w)) (sv_signer S) = Inr c" "u \<in> set (d_users (w_db w))"
    "eu_id u = lc_lic c" "eu_status u = ''active''" "w_db w' = w_db w" "w_now w' = w_now w"
proof -
  from assms obtain c v where c: "verify_token_with_type (sv_prims S) tok ''user'' (unix (w_now w)) (sv_signer S) = Inr c"
    and g: "get_end_user (lc_lic c) w = (Inr u, v)" and a: "eu_status u = ''active''" "w' = v"
    by (auto simp: parse_user_token_def bindM_Inr_iff go_now_def getsM_eq_iff throwM_eq_iff retM_eq_iff mapErrM_Inr
        split: sum.splits if_splits)
  note get_row_Inr [OF g [unfolded get_end_user_def]]
  then show thesis using that c a by auto
qed

subsection \<open>Spending a card\<close>

lemma extend_end_user_Inr:
  assumes "extend_end_user k days w = (Inr e, w')"
  obtains u where "find (\<lambda>r. eu_id r = k) (d_users (w_db w)) = Some u" "e = extended_expiry (pg_time (w_now w)) (Some (eu_expires u)) days"
    "w_db w' = upd_user k (\<lambda>r. r\<lparr>eu_expires := e, eu_updated := pg_time (w_now w)\<rparr>) (w_db w)"
  using assms
  by (auto simp: extend_end_user_def db_exec_def db_step_def Let_def split: prod.splits fault.splits sum.splits option.splits if_splits)

lemma upd_cong: "(\<And>r. r \<in> set t \<Longrightarrow> p r = q r) \<Longrightarrow> upd p f t = upd q f t"
  by (simp add: upd_def)

text \<open>C14. A card spent on an account buys its days, once: the token is a valid one of an active account, the card on record under the typed
  text is an unused licence card of the account's product that belongs to no licence and no account, and its plan gives days.
  The account then runs the card's days longer, counted from its expiry or from now, whichever is later; the card is
  depleted and names the account, and no other card, account or licence changes.\<close>
theorem account_card_buys_days:
  assumes "user_bind_card S tok input ip w = (Inr e, w')" "sales_ok (w_db w)" "distinct (map eu_id (d_users (w_db w)))"
  shows "\<exists>claims u canon c pl. verify_token_with_type (sv_prims S) tok ''user'' (unix (w_now w)) (sv_signer S) = Inr claims \<and>
    u \<in> set (d_users (w_db w)) \<and> eu_id u = lc_lic claims \<and> eu_status u = ''active'' \<and> normalize_card input = Inr canon \<and>
    c \<in> set (d_cards (w_db w)) \<and> cd_lookup c = card_lookup S canon \<and> cd_status c = CardUnused \<and> cd_kind c = ''license'' \<and>
    cd_license c = None \<and> cd_user c = None \<and> cd_product c = eu_product u \<and>
    pl \<in> set (d_plans (w_db w)) \<and> pl_id pl = cd_plan c \<and> 0 < pl_days pl \<and>
    e = max (eu_expires u) (pg_time (w_now w)) + pl_days pl * day \<and>
    d_users (w_db w') = upd (\<lambda>r. eu_id r = eu_id u) (\<lambda>r. r\<lparr>eu_expires := e, eu_updated := pg_time (w_now w)\<rparr>) (d_users (w_db w)) \<and>
    d_cards (w_db w') = upd (\<lambda>r. cd_id r = cd_id c)
      (\<lambda>r. r\<lparr>cd_user := Some (eu_id u), cd_status := CardDepleted, cd_activated := Some (pg_time (w_now w))\<rparr>) (d_cards (w_db w)) \<and>
    d_licenses (w_db w') = d_licenses (w_db w)"
proof -
  from assms(1) obtain user v1 canon where tok: "parse_user_token S tok w = (Inr user, v1)" and canon: "normalize_card input = Inr canon"
    and tx: "with_tx (bind_card_tx user (card_lookup S canon) ip) v1 = (Inr e, w')"
    unfolding user_bind_card_def bindM_Inr_iff liftE_Inr parsed_Inr by auto
  obtain claims where claims: "verify_token_with_type (sv_prims S) tok ''user'' (unix (w_now w)) (sv_signer S) = Inr claims"
    and user: "user \<in> set (d_users (w_db w))" "eu_id user = lc_lic claims" "eu_status user = ''active''"
    and v1: "w_db v1 = w_db w" "w_now v1 = w_now w"
    by (rule parse_user_token_Inr [OF tok])
  obtain t t' where run: "bind_card_tx user (card_lookup S canon) ip t = (Inr e, t')" and t: "w_db t = w_db w" "w_now t = w_now w" "w_db w' = w_db t'"
    using with_tx_InrE [OF tx] v1 by metis
  obtain c u pl v v2 v3 where c: "c \<in> set (d_cards (w_db t))" "cd_lookup c = card_lookup S canon" "cd_status c = CardUnused"
      "cd_kind c = ''license''" "cd_license c = None" "cd_user c = None"
    and u: "u \<in> set (d_users (w_db t))" "eu_id u = eu_id user" "cd_product c = eu_product u"
    and pl: "pl \<in> set (d_plans (w_db t))" "pl_id pl = cd_plan c" "0 < pl_days pl" and v: "w_db v = w_db t" "w_now v = w_now t"
    and mark: "mark_card_used_by_user (cd_id c) (eu_id user) v = (Inr (), v2)"
    and ext: "extend_end_user (eu_id user) (pl_days pl) v2 = (Inr e, v3)"
    and log: "insert_end_user_log (Some (eu_id user)) (eu_username user) ''bind_card'' (Some (eu_product user)) (str_opt ip)
       [(''card_prefix'', JStr (cd_prefix c)), (''days'', JInt (pl_days pl)), (''new_expiry'', JTime e)] v3 = (Inr (), t')"
    by (rule bind_card_tx_commit [OF run])
  have same: "u = user" using assms(3) user(1) u(1,2) t by (auto dest: distinct_map_eqD)
  have cards: "d_cards (w_db v2) = upd (\<lambda>r. cd_id r = cd_id c)
      (\<lambda>r. r\<lparr>cd_user := Some (eu_id u), cd_status := CardDepleted, cd_activated := Some (pg_time (w_now w))\<rparr>) (d_cards (w_db w))"
    "d_users (w_db v2) = d_users (w_db w)" "d_licenses (w_db v2) = d_licenses (w_db w)" "w_now v2 = w_now w"
    using mark_card_Inr [OF mark] card_by_id [OF assms(2), of c] c v t same by (auto intro!: upd_cong)
  obtain u' where u': "find (\<lambda>r. eu_id r = eu_id user) (d_users (w_db v2)) = Some u'"
      "e = extended_expiry (pg_time (w_now v2)) (Some (eu_expires u')) (pl_days pl)"
    and d3: "w_db v3 = upd_user (eu_id user) (\<lambda>r. r\<lparr>eu_expires := e, eu_updated := pg_time (w_now v2)\<rparr>) (w_db v2)"
    by (rule extend_end_user_Inr [OF ext])
  have "u' = user" using find_Some_in [OF u'(1)] assms(3) user(1) cards(2) by (auto dest: distinct_map_eqD)
  then have e: "e = max (eu_expires u) (pg_time (w_now w)) + pl_days pl * day" using u'(2) cards(4) same by (auto simp: extended_expiry_def)
  have "d_users (w_db t') = d_users (w_db v3)" "d_cards (w_db t') = d_cards (w_db v3)" "d_licenses (w_db t') = d_licenses (w_db v3)"
    using leaves_run [OF leaves_user_logs [where f = d_users] log] leaves_run [OF leaves_user_logs [where f = d_cards] log]
      leaves_run [OF leaves_user_logs [where f = d_licenses] log] by simp_all
  with d3 cards same t have "d_users (w_db w') = upd (\<lambda>r. eu_id r = eu_id u) (\<lambda>r. r\<lparr>eu_expires := e, eu_updated := pg_time (w_now w)\<rparr>) (d_users (w_db w))"
    "d_cards (w_db w') = upd (\<lambda>r. cd_id r = cd_id c)
      (\<lambda>r. r\<lparr>cd_user := Some (eu_id u), cd_status := CardDepleted, cd_activated := Some (pg_time (w_now w))\<rparr>) (d_cards (w_db w))"
    "d_licenses (w_db w') = d_licenses (w_db w)"
    by (simp_all add: upd_user_def)
  moreover have "u \<in> set (d_users (w_db w))" "eu_id u = lc_lic claims" "eu_status u = ''active''" "c \<in> set (d_cards (w_db w))"
    "pl \<in> set (d_plans (w_db w))" using user same c pl t by simp_all
  ultimately show ?thesis using claims canon c(2-6) u(3) pl(2,3) e by (intro exI conjI) assumption+
qed

subsection \<open>Logging in to an account\<close>

text \<open>Which machine each account belongs to.\<close>

definition machines :: "db \<Rightarrow> (string \<times> string option) list" where
  "machines d = map (\<lambda>u. (eu_id u, eu_machine u)) (d_users d)"

lemma machines_quiet: "leaves machines (log_user uid name kind pid ip det)" "leaves machines (ignoreM (touch_end_user_login k addr))"
  "leaves machines (user_reply S u code)"
proof -
  show "leaves machines (log_user uid name kind pid ip det)"
    unfolding log_user_def by (intro same.wrap leaves_user_logs) (simp add: machines_def)
  show "leaves machines (ignoreM (touch_end_user_login k addr))"
    unfolding touch_end_user_login_def
    by (intro same.wrap same.assign) (auto simp: machines_def upd_user_def upd_def)
  show "leaves machines (user_reply S u code)"
    unfolding user_reply_def latest_enabled_message_def latest_product_version_def liftE_def Let_def
    by (intro same.store_rules)
qed

lemma check_machine_Inr:
  assumes "check_machine u fp ip w = (Inr x, w')" "u \<in> set (d_users (w_db w))" "distinct (map eu_id (d_users (w_db w)))"
  shows "eu_machine u \<in> {None, Some fp}" "w_now w' = w_now w"
    "machines (w_db w') = map (\<lambda>(k, m). (k, if k = eu_id u then Some fp else m)) (machines (w_db w))"
proof -
  have only: "r = u" if "r \<in> set (d_users (w_db w))" "eu_id r = eu_id u" for r
    using assms(2,3) that by (auto dest: distinct_map_eqD)
  have "eu_machine u \<in> {None, Some fp} \<and> w_now w' = w_now w \<and>
    machines (w_db w') = map (\<lambda>(k, m). (k, if k = eu_id u then Some fp else m)) (machines (w_db w))"
  proof (cases "eu_machine u")
    case None
    with assms(1) have "bind_end_user_machine (eu_id u) fp w = (Inr x, w')" by (simp add: check_machine_def)
    from db_exec_Inr [OF this [unfolded bind_end_user_machine_def]]
    have "w_db w' = (w_db w)\<lparr>d_users := upd (\<lambda>r. eu_id r = eu_id u \<and> eu_machine r = None)
        (\<lambda>r. r\<lparr>eu_machine := Some fp, eu_machine_at := Some (pg_time (w_now w))\<rparr>) (d_users (w_db w))\<rparr>" "w_now w' = w_now w"
      by (auto simp: need_rows_def Let_def split: if_splits)
    then show ?thesis using None by (auto simp: machines_def upd_def dest: only)
  next
    case (Some m)
    with assms(1) have "m = fp" "w' = w" by (auto simp: check_machine_def seqM_Inr_iff throwM_eq_iff retM_eq_iff split: if_splits)
    with Some show ?thesis by (auto simp: machines_def dest: only)
  qed
  then show "eu_machine u \<in> {None, Some fp}" "w_now w' = w_now w"
    "machines (w_db w') = map (\<lambda>(k, m). (k, if k = eu_id u then Some fp else m)) (machines (w_db w))" by simp_all
qed

lemma user_reply_Inr:
  assumes "user_reply S u code w = (Inr r, w')"
  obtains jti where "mint_token (sv_signer S) (user_claims (w_now w) jti (eu_id u) code) = Inr (ul_token r)"
    "ul_expired r = (eu_expires u < w_now w)"
proof -
  have "\<exists>jti. mint_token (sv_signer S) (user_claims (w_now w) jti (eu_id u) code) = Inr (ul_token r) \<and>
      ul_expired r = (eu_expires u < w_now w)"
    using assms unfolding user_reply_def bindM_Inr_iff liftE_Inr go_now_def getsM_eq_iff Let_def retM_eq_iff by auto
  then show thesis using that by blast
qed

text \<open>C15. Nobody logs in to an account without its password and its machine: a login that succeeds names an active account of an
  active product, with its password, from the machine the account is bound to, or from any machine when it is bound to none, and
  then it is bound to this one. No other account's machine changes, and the token in the reply is the signed statement of
  this account, good for ten minutes.\<close>
theorem account_login_admits:
  assumes "user_sign_in S code name pw components ip w = (Inr r, w')" "distinct (map eu_id (d_users (w_db w)))"
  shows "\<exists>pr u jti. pr \<in> set (d_products (w_db w)) \<and> pr_code pr = to_upper (trim_space code) \<and> pr_status pr = ''active'' \<and>
    u \<in> set (d_users (w_db w)) \<and> eu_product u = pr_id pr \<and> eu_username u = name \<and> eu_status u = ''active'' \<and>
    password_ok S pw (eu_password u) \<and> eu_machine u \<in> {None, Some (fingerprint_hash S components)} \<and>
    machines (w_db w') = map (\<lambda>(k, m). (k, if k = eu_id u then Some (fingerprint_hash S components) else m)) (machines (w_db w)) \<and>
    mint_token (sv_signer S) (user_claims (w_now w) jti (eu_id u) code) = Inr (ul_token r) \<and>
    ul_expired r = (eu_expires u < w_now w)"
proof -
  let ?fp = "fingerprint_hash S components"
  from assms(1) obtain pid v1 u v2 where code: "mapErrM (\<lambda>_. Service ErrBadCredentials) (get_product_id_by_code code) w = (Inr pid, v1)"
    and found: "or_no_rows (Service ErrBadCredentials) (get_end_user_by_name pid name) v1 = (Inr u, v2)"
    and run: "(if eu_status u \<noteq> ''active'' then
      seqM (log_user (eu_id u) name ''login_failed'' pid (str_opt ip) [(''reason'', JStr ''disabled'')]) (throwM (Dom ErrUserDisabled))
    else bindM (check_password S pw (eu_password u)) (\<lambda>ok. if \<not> ok then
      seqM (log_user (eu_id u) name ''login_failed'' pid (str_opt ip) []) (throwM (Service ErrBadCredentials))
    else seqM (check_machine u ?fp ip) (seqM (ignoreM (touch_end_user_login (eu_id u) ip)) (bindM (user_reply S u code) (\<lambda>res.
       seqM (log_user (eu_id u) name ''login'' pid (str_opt ip) []) (retM res)))))) v2 = (Inr r, w')"
    unfolding user_sign_in_def bindM_Inr_iff by blast
  from code obtain pr where g: "get_product_by_code (to_upper (trim_space code)) w = (Inr pr, v1)" and pr: "pr_status pr = ''active''" "pid = pr_id pr"
    by (auto simp: get_product_id_by_code_def mapErrM_Inr bindM_Inr_iff throwM_eq_iff retM_eq_iff split: if_splits)
  note pr' = get_row_Inr [OF g [unfolded get_product_by_code_def]]
    and u' = get_row_Inr [OF found [unfolded or_no_rows_Inr get_end_user_by_name_def]]
  have ok: "eu_status u = ''active''" "password_ok S pw (eu_password u)"
    using run by (auto simp: check_password_True bindM_Inr_iff seqM_Inr_iff throwM_eq_iff split: if_splits)
  from run ok(1) have "(seqM (check_machine u ?fp ip) (seqM (ignoreM (touch_end_user_login (eu_id u) ip)) (bindM (user_reply S u code) (\<lambda>res.
       seqM (log_user (eu_id u) name ''login'' pid (str_opt ip) []) (retM res))))) v2 = (Inr r, w')"
    by (simp add: check_password_ok [OF ok(2)])
  then obtain x v3 y v4 v5 z v6 where mach: "check_machine u ?fp ip v2 = (Inr x, v3)"
    and touch: "ignoreM (touch_end_user_login (eu_id u) ip) v3 = (Inr y, v4)" and reply: "user_reply S u code v4 = (Inr r, v5)"
    and log: "log_user (eu_id u) name ''login'' pid (str_opt ip) [] v5 = (Inr z, v6)" "w' = v6"
    by (simp add: bindM_Inr_iff seqM_Inr_iff retM_eq_iff) blast
  have here: "u \<in> set (d_users (w_db v2))" "distinct (map eu_id (d_users (w_db v2)))" using assms(2) pr' u' by simp_all
  note m = check_machine_Inr [OF mach here]
  have touched: "keeps w_now (ignoreM (touch_end_user_login k ip))" for k unfolding touch_end_user_login_def by (intro keepI)
  have now: "w_now v4 = w_now w" using keepsD [OF touched touch] m(2) pr' u' by simp
  obtain jti where jti: "mint_token (sv_signer S) (user_claims (w_now v4) jti (eu_id u) code) = Inr (ul_token r)"
    "ul_expired r = (eu_expires u < w_now v4)" by (rule user_reply_Inr [OF reply])
  have "machines (w_db w') = machines (w_db v3)"
    using leaves_run [OF machines_quiet(2) touch] leaves_run [OF machines_quiet(3) reply] leaves_run [OF machines_quiet(1) log(1)] log(2)
    by simp
  then show ?thesis using pr pr' u' ok m jti now by (intro exI [of _ pr] exI [of _ u] exI [of _ jti]) simp
qed

subsection \<open>A customer with an account\<close>

definition ann :: end_user where
  "ann = \<lparr>eu_id = ''u1'', eu_product = ''p'', eu_username = ''ann'', eu_password = boss_hash,
     eu_security = [], eu_status = ''active'', eu_expires = day, eu_machine = None, eu_machine_at = None, eu_reg_ip = None,
     eu_last_login = None, eu_last_ip = None, eu_note = None, eu_created = 0, eu_updated = 0\<rparr>"

definition account_db :: db where
  "account_db = unsold_db\<lparr>d_users := [ann],
     d_products := [\<lparr>pr_id = ''p'', pr_code = ''APP'', pr_name = ''App'', pr_status = ''active'', pr_created = 0\<rparr>]\<rparr>"

lemma account_ok: "sales_ok account_db" "distinct (map eu_id (d_users account_db))"
  using unsold_ok by (simp_all add: account_db_def sales_ok_def)

lemma ann_token: "\<exists>t. verify_token_with_type (sv_prims demo_svc) t ''user'' (unix (1700000000 * second)) (sv_signer demo_svc) =
    Inr (user_claims (1700000000 * second) ''j'' ''u1'' ''app''\<lparr>lc_kid := ''k''\<rparr>)"
proof -
  let ?c = "user_claims (1700000000 * second) ''j'' ''u1'' ''app''"
  have c: "sound_claims (?c\<lparr>lc_kid := ''k''\<rparr>)"
    by (simp add: sound_claims_def ascii_utf8 user_claims_def no_claims_def byte_def int64_def int64_min_def int64_max_def unix_def second_def
        user_token_ttl_def)
  obtain t where t: "mint_token (local_signer plain_prims [(''k'', ''seed'')] ''k'') ?c = Inr t"
    using local.mint_returns [of plain_prims "[(''k'', ''seed'')]" "''k''" ?c] plain_prims_ed_ok by auto
  have "verify_token plain_prims t (unix (1700000000 * second)) (local_signer plain_prims [(''k'', ''seed'')] ''k'') = Inr (?c\<lparr>lc_kid := ''k''\<rparr>)"
    using minted_token_read [OF plain_prims_ed_ok _ c t, of "''seed''"]
    by (simp add: user_claims_def unix_def second_def user_token_ttl_def)
  then show ?thesis
    by (intro exI [of _ t]) (simp add: verify_token_with_type_def demo_svc_def user_claims_def)
qed

lemma demo_spending:
  assumes "verify_token_with_type (sv_prims demo_svc) t ''user'' (unix (1700000000 * second)) (sv_signer demo_svc) =
    Inr (user_claims (1700000000 * second) ''j'' ''u1'' ''app''\<lparr>lc_kid := ''k''\<rparr>)"
  shows "\<exists>e. fst (user_bind_card demo_svc t (replicate 26 CHR ''B'') ''10.0.0.1'' (demo_world account_db)) = Inr e"
  by (simp add: user_bind_card_def parse_user_token_def mdefs go_now_def demo_world_def assms get_end_user_def next_row_def db_one_def
    db_exec_def db_step_def account_db_def ann_def user_claims_def no_claims_def liftE_def demo_code_good with_tx_def bind_card_tx_def or_no_rows_def
    get_card_by_lookup_def unsold_db_def field_db_def sold_db_def empty_db_def card_view_def sold_card_def check_bind_card_def get_plan_def
    mark_card_used_by_user_def affected_def Let_def exists_row_iff extend_end_user_def int4_def upd_user_def insert_end_user_log_def
    db_serial_def user_log_kinds_def in_strs_iff)

lemma account_card_buys_days_witness:
  "\<exists>t w' c. user_bind_card demo_svc t (replicate 26 CHR ''B'') ''10.0.0.1'' (demo_world account_db) = (Inr (1700000000 * second + 30 * day), w') \<and>
    d_cards (w_db w') = [c] \<and> cd_user c = Some ''u1'' \<and> cd_status c = CardDepleted \<and> d_licenses (w_db w') = []"
proof -
  obtain t where t: "verify_token_with_type (sv_prims demo_svc) t ''user'' (unix (1700000000 * second)) (sv_signer demo_svc) =
    Inr (user_claims (1700000000 * second) ''j'' ''u1'' ''app''\<lparr>lc_kid := ''k''\<rparr>)" using ann_token by blast
  obtain e w' where run: "user_bind_card demo_svc t (replicate 26 CHR ''B'') ''10.0.0.1'' (demo_world account_db) = (Inr e, w')"
    using demo_spending [OF t] by (metis prod.collapse)
  have db: "w_db (demo_world account_db) = account_db" "w_now (demo_world account_db) = 1700000000 * second"
    "d_users account_db = [ann]" "d_licenses account_db = []" "length (d_cards account_db) = 1"
    "pl \<in> set (d_plans account_db) \<Longrightarrow> pl_days pl = 30" for pl
    by (auto simp: demo_world_def account_db_def unsold_db_def field_db_def)
  have ann: "eu_id ann = ''u1''" "max (eu_expires ann) (pg_time (1700000000 * second)) = 1700000000 * second"
    by (simp_all add: ann_def pg_time_def second_def day_def)
  obtain c where "d_cards account_db = [c]" using db(5) by (cases "d_cards account_db") auto
  with account_card_buys_days [OF run] account_ok run show ?thesis
    by (auto simp: db ann intro!: exI [of _ t])
qed

lemma demo_sign_in: "\<exists>r. fst (user_sign_in desk_svc ''app'' ''ann'' ''a'' [replicate 64 CHR ''a''] ''10.0.0.1'' (demo_world account_db)) = Inr r"
proof -
  have code: "to_upper (trim_space ''app'') = ''APP''"
    by (simp add: trim_space_id to_upper_ascii ascii_def byte_def is_space_def upper_rune_def mk_byte_def char_of_def bit_0)
  have signer: "sv_signer desk_svc = local_signer plain_prims [(''k'', ''seed'')] ''k''" by (simp add: desk_svc_def demo_svc_def)
  show ?thesis
    by (simp add: user_sign_in_def get_product_id_by_code_def code get_product_by_code_def mdefs next_row_def db_one_def db_exec_def db_step_def
      demo_world_def account_db_def ann_def or_no_rows_def get_end_user_by_name_def check_password_ok [OF boss_password, unfolded retM_def] check_machine_def
      bind_end_user_machine_def affected_def Let_def touch_end_user_login_def db_write_def upd_user_def user_reply_def go_now_def
      random_token_def liftE_def mint_token_def signer local_signer_def local_sign_def user_claims_def no_claims_def
      latest_enabled_message_def latest_product_version_def db_read_def newest_first_def log_user_def need_rows_def
      unsold_db_def field_db_def sold_db_def empty_db_def insert_end_user_log_def)
qed

lemma account_login_admits_witness:
  "\<exists>r w'. user_sign_in desk_svc ''app'' ''ann'' ''a'' [replicate 64 CHR ''a''] ''10.0.0.1'' (demo_world account_db) = (Inr r, w') \<and>
    machines account_db = [(''u1'', None)] \<and> machines (w_db w') = [(''u1'', Some (fingerprint_hash desk_svc [replicate 64 CHR ''a'']))] \<and>
    ul_expired r"
proof -
  obtain r w' where run: "user_sign_in desk_svc ''app'' ''ann'' ''a'' [replicate 64 CHR ''a''] ''10.0.0.1'' (demo_world account_db) = (Inr r, w')"
    using demo_sign_in by (metis prod.collapse)
  have db: "w_db (demo_world account_db) = account_db" "w_now (demo_world account_db) = 1700000000 * second"
    "d_users account_db = [ann]" "machines account_db = [(''u1'', None)]" "eu_id ann = ''u1''" "eu_expires ann = day"
    by (simp_all add: demo_world_def account_db_def machines_def ann_def)
  have "day < 1700000000 * second" by (simp add: day_def second_def)
  with account_login_admits [OF run] run show ?thesis by (auto simp: db)
qed

end
