(* ===== verification/Defects.thy ===== *)
theory Defects
  imports Accounts
begin

section \<open>Where the code does not do what it says\<close>

text \<open>
  Consequences of the model that contradict a comment, a name or an interface of the program. Each is a
  theorem about the code as it stands; a repair of the code would make it false.
\<close>

text \<open>\<open>GetCardByID\<close> does not select the secret's columns, so \<open>POST /cards/{id}/reveal\<close> never shows a card.\<close>

lemma reveal_never_shows:
  assumes "handle_reveal_card S key ac cx w = (Inr rs, w')"
  shows "hs_body rs = None \<and> 400 \<le> hs_status rs"
proof -
  obtain r v where r: "get_card_by_id key w = (r, v)" by (cases "get_card_by_id key w")
  show ?thesis
  proof (cases r)
    case (Inl e)
    then have "rs = map_error cx e" using assms r by (simp add: handle_reveal_card_def answer_def tryM_def bindM_def retM_def)
    moreover have "400 \<le> fst (error_status e)" for e
      by (cases e rule: error_status.cases; simp; rename_tac d; case_tac d; simp)
    ultimately show ?thesis by (auto simp: map_error_def error_writer_def split: prod.splits) (metis fst_conv)
  next
    case (Inr c)
    then have "cd_secret c = None"
      using db_one_Inr [OF r [unfolded get_card_by_id_def Inr]] by (auto simp: card_view_def)
    then show ?thesis using assms r Inr
      by (auto simp: handle_reveal_card_def answer_def tryM_def bindM_def reveal_def refuse_def retM_def error_writer_def split: if_splits)
  qed
qed

text \<open>A malformed envelope is answered as an internal error, not as the bad request that \<open>errEnvelope\<close> stands for.\<close>

lemma open_with_refuses: "open_with P alg epk nonce ct ctx e ks = Inl x \<Longrightarrow> \<exists>c. x = Crypto c"
  by (induction ks arbitrary: e) (auto split: option.splits if_splits)

lemma bad_envelope_is_500:
  assumes "open_envelope P body kid keys ctx = Inl e"
  shows "error_status e = (500, ''INTERNAL'')"
proof -
  from assms obtain c where "e = Crypto c"
    by (auto simp: open_envelope_def split: prod.splits if_splits option.splits dest: open_with_refuses)
  then show ?thesis by simp
qed

text \<open>The audit row of a login has no detail, which the table refuses; the error is dropped.\<close>

lemma login_never_audited: "leaves d_audits (admin_login S name pw totp ip req)"
proof -
  have row: "leaves d_audits (ignoreM (insert_audit a))" if "au_detail a = None" for a
    unfolding insert_audit_def by (intro same.wrap same.serial) (simp add: that)
  have risk: "leaves d_audits (record_risk kind sev subj msg det)" for kind sev subj msg det
    unfolding record_risk_def by (intro same.wrap leaves_risks) simp
  have steps: "leaves d_audits (on_login_failed k)" "leaves d_audits (on_login_success k)" "leaves d_audits (create_session x)" for k x
    by (rule leaves_admins leaves_sessions; simp)+
  have "leaves d_audits (login_failed a kind sev ip e)" for a kind sev e
    unfolding login_failed_def by (intro same.store_rules risk steps)
  then have "leaves d_audits (authenticate S a pw totp ip)" for a
    unfolding authenticate_def by (intro same.store_rules risk leaves_lift)
  moreover have "leaves d_audits (open_session S a)" for a
    unfolding open_session_def by (intro same.store_rules steps leaves_lift)
  ultimately show ?thesis
    unfolding admin_login_def or_no_rows_def get_admin_by_username_def by (intro same.store_rules steps row) simp_all
qed

text \<open>An administrator who extends a licence without an expiry gives it one.\<close>

lemma unlimited_licence_cut:
  assumes "extend_license k days w = (Inr e, w')" "find (\<lambda>r. li_id r = k) (d_licenses (w_db w)) = Some l" "li_expires l = None"
  shows "e = pg_time (w_now w) + days * day \<and> (\<exists>l' \<in> set (d_licenses (w_db w')). li_id l' = k \<and> li_expires l' = Some e)"
proof -
  obtain m where m: "find (\<lambda>r. li_id r = k) (d_licenses (w_db w)) = Some m" "e = extended_expiry (pg_time (w_now w)) (li_expires m) days"
    and d: "w_db w' = (w_db w)\<lparr>d_licenses := upd (\<lambda>r. li_id r = k)
       (\<lambda>r. r\<lparr>li_expires := Some e, li_updated := pg_time (w_now w)\<rparr>) (d_licenses (w_db w))\<rparr>"
    by (rule extend_license_Inr [OF assms(1)])
  have "l \<in> set (d_licenses (w_db w))" "li_id l = k" using find_Some_in [OF assms(2)] by simp_all
  then have "l\<lparr>li_expires := Some e, li_updated := pg_time (w_now w)\<rparr> \<in> set (d_licenses (w_db w'))"
    by (auto simp: d dest: in_upd [where p = "\<lambda>r. li_id r = k"])
  moreover have "e = pg_time (w_now w) + days * day" using m assms(2,3) by (simp add: extended_expiry_def)
  ultimately show ?thesis using \<open>li_id l = k\<close> by (intro conjI bexI) simp_all
qed

text \<open>A ban on more than the first five characters of a card matches no card.\<close>

lemma long_prefix_never_banned: "5 < length v \<Longrightarrow> card_prefix c \<noteq> v"
  by (auto simp: card_prefix_def card_group_first_def split: if_splits)

text \<open>Without Redis every activation is refused; the operations manual promises that its nonce check is skipped then.\<close>

lemma redis_down: "fst (next_fault (w_redis_faults w)) \<noteq> Fine \<Longrightarrow> \<exists>v. redis_call f w = (Inl (Service ErrCache), v)"
  by (auto simp: redis_call_def Let_def split: prod.splits fault.splits)

lemma no_activation_without_redis:
  assumes "fst (next_fault (w_redis_faults w)) \<noteq> Fine"
  shows "\<exists>e. fst (check_activation_replay S ds pub ip w) = Inl (Dom e) \<and> e \<in> {ErrReplayDetected, ErrRateLimited}"
proof -
  obtain v where v: "redis_call (\<lambda>t. consume_nonce t ''activate'' (ds_nonce ds) (sv_replay_window S + sv_skew S)) w = (Inl (Service ErrCache), v)"
    using redis_down [OF assms] by blast
  obtain u where "record_risk ''cache_error'' ''high'' (''activate:'' @ pub) ''redis'' [] v = (Inr (), u)"
    using risk_quiet(1) by (metis prod.collapse)
  then show ?thesis
    by (cases "stale (w_now w) (sv_skew S) (ds_ts ds)")
      (simp_all add: check_activation_replay_def go_now_def getsM_def bindM_def tryM_def seqM_def throwM_def v)
qed

end
