(* ===== verification/Keygen.thy ===== *)
theory Keygen
  imports Config
begin

section \<open>Keygen: a configuration for a new deployment\<close>

text \<open>
  \<open>cmd/keygen/main.go\<close> prints the lines of an environment file with fresh keys. The source of randomness is
  a parameter: the bytes of each draw in turn, or none when the read fails, which ends the program after
  what it had printed. The properties read the lines with the parsers of \<open>Config\<close>.
\<close>

subsection \<open>The program\<close>

primrec join_from :: "bool \<Rightarrow> string \<Rightarrow> string list \<Rightarrow> string \<Rightarrow> string" where
  "join_from first out [] sep = out"
| "join_from first out (s # ss) sep = join_from False ((if first then out else out @ sep) @ s) ss sep"

definition join :: "string list \<Rightarrow> string \<Rightarrow> string" where
  "join ss sep = join_from True [] ss sep"

fun sign_pairs :: "(nat \<Rightarrow> string option) \<Rightarrow> nat \<Rightarrow> string list \<Rightarrow> string list option" where
  "sign_pairs rnd i [] = Some []"
| "sign_pairs rnd i (kid # kids) = (case rnd i of None \<Rightarrow> None
     | Some seed \<Rightarrow> map_option (\<lambda>ps. (kid @ '':'' @ b64_encode seed) # ps) (sign_pairs rnd (Suc i) kids))"

fun kex_pairs :: "(nat \<Rightarrow> string option) \<Rightarrow> nat \<Rightarrow> string list \<Rightarrow> string list option" where
  "kex_pairs rnd i [] = Some []"
| "kex_pairs rnd i (kid # kids) = (case rnd i of None \<Rightarrow> None
     | Some priv \<Rightarrow> let mark = (if kid = ''kex-a'' then ''*'' else []) in
         map_option (\<lambda>ps. (kid @ '':'' @ b64_encode priv @ mark) # ps) (kex_pairs rnd (Suc i) kids))"

text \<open>The lines printed, and whether the program came to its end.\<close>

definition keygen :: "(nat \<Rightarrow> string option) \<Rightarrow> (string \<times> string) list \<times> bool" where
  "keygen rnd = (case sign_pairs rnd 0 [''sign-a'', ''sign-b''] of None \<Rightarrow> ([], False) | Some sp \<Rightarrow>
     let l1 = [(''VFT_SIGN_KEYS'', join sp '',''), (''VFT_SIGN_ACTIVE_KID'', ''sign-a'')] in
     case kex_pairs rnd 2 [''kex-a'', ''kex-b''] of None \<Rightarrow> (l1, False) | Some kp \<Rightarrow>
     let l2 = l1 @ [(''VFT_KEX_KEYS'', join kp '','')] in
     case rnd 4 of None \<Rightarrow> (l2, False) | Some h \<Rightarrow>
     let l3 = l2 @ [(''VFT_CARD_HMAC_KEY'', b64_encode h), (''VFT_INITIAL_ADMIN_USER'', ''admin'')] in
     case rnd 5 of None \<Rightarrow> (l3, False) | Some pw \<Rightarrow> (l3 @ [(''VFT_INITIAL_ADMIN_PASSWORD'', b64_encode pw)], True))"

subsection \<open>Reading a pair back\<close>

lemma b64_plain: "ascii (b64_encode b)" "c \<in> set (b64_encode b) \<Longrightarrow> \<not> is_space (byte c)"
  "CHR '','' \<notin> set (b64_encode b)" "CHR '':'' \<notin> set (b64_encode b)" "CHR ''*'' \<notin> set (b64_encode b)"
proof -
  have "byte (CHR '','') = 44" "byte (CHR '':'') = 58" "byte (CHR ''*'') = 42" by (simp_all add: byte_def)
  then show "CHR '','' \<notin> set (b64_encode b)" "CHR '':'' \<notin> set (b64_encode b)" "CHR ''*'' \<notin> set (b64_encode b)"
    using b64_alnum [of _ b] by force+
  show "ascii (b64_encode b)" using b64_alnum [of _ b] by (force simp: ascii_def list_all_iff)
  show "c \<in> set (b64_encode b) \<Longrightarrow> \<not> is_space (byte c)" using b64_alnum [of c b] by (auto simp: is_space_def)
qed

lemma key32_back: "length b = 32 \<Longrightarrow> key32 (b64_encode b) = Some b"
  by (simp add: key32_def b64_decode_encode)

lemma b64_not_empty: "length b = 32 \<Longrightarrow> b64_encode b \<noteq> []"
  using key32_back [of b] by (auto simp: key32_def b64_decode_def)

lemma kid_trimmed:
  assumes "ascii kid" "\<forall>c \<in> set kid. \<not> is_space (byte c)" "m = [] \<or> m = ''*''"
  shows "trim_space (kid @ '':'' @ b64_encode b @ m) = kid @ '':'' @ b64_encode b @ m"
proof -
  have "byte (CHR '':'') = 58" "byte (CHR ''*'') = 42" by (simp_all add: byte_def)
  then show ?thesis using assms b64_plain(1) [of b] b64_plain(2) [of _ b]
    by (intro trim_space_id) (auto simp: ascii_def is_space_def)
qed

lemma kids_plain: "ascii ''sign-a''" "ascii ''sign-b''" "ascii ''kex-a''" "ascii ''kex-b''"
  "c \<in> set ''sign-a'' \<union> set ''sign-b'' \<union> set ''kex-a'' \<union> set ''kex-b'' \<Longrightarrow> \<not> is_space (byte c)"
  by (auto simp: ascii_def byte_def is_space_def)

lemma sign_keys_back:
  assumes "length a = 32" "length b = 32"
  shows "parse_signing_keys (join [''sign-a:'' @ b64_encode a, ''sign-b:'' @ b64_encode b] '','') ''sign-a'' =
    Inr [(''sign-a'', a), (''sign-b'', b)]"
proof -
  let ?p = "''sign-a'' @ '':'' @ b64_encode a @ []" and ?q = "''sign-b'' @ '':'' @ b64_encode b @ []"
  have "join [''sign-a:'' @ b64_encode a, ''sign-b:'' @ b64_encode b] '','' = ?p @ CHR '','' # ?q" by (simp add: join_def)
  moreover have "split_on (CHR '','') (?p @ CHR '','' # ?q) = [?p, ?q]"
    by (subst split_on_sep, simp add: b64_plain, subst split_on_no_sep, simp add: b64_plain, rule refl)
  moreover have "trim_space ?p = ?p" "trim_space ?q = ?q" by (rule kid_trimmed; use kids_plain in auto)+
  moreover have "str_cut (CHR '':'') ?p = Some (''sign-a'', b64_encode a)" "str_cut (CHR '':'') ?q = Some (''sign-b'', b64_encode b)"
    by simp_all
  ultimately show ?thesis
    by (simp only: parse_signing_keys_def sign_loop.simps option.case prod.case key32_back [OF assms(1)] key32_back [OF assms(2)] sum.case)
      (simp add: b64_not_empty [OF assms(1)] b64_not_empty [OF assms(2)])
qed

lemma kex_keys_back:
  assumes "length a = 32" "length b = 32"
  shows "parse_kex_keys (join [''kex-a:'' @ b64_encode a @ ''*'', ''kex-b:'' @ b64_encode b] '','') =
    Inr [\<lparr>kc_kid = ''kex-a'', kc_seed = a, kc_active = True\<rparr>, \<lparr>kc_kid = ''kex-b'', kc_seed = b, kc_active = False\<rparr>]"
proof -
  let ?p = "''kex-a'' @ '':'' @ b64_encode a @ ''*''" and ?q = "''kex-b'' @ '':'' @ b64_encode b @ []"
  have "join [''kex-a:'' @ b64_encode a @ ''*'', ''kex-b:'' @ b64_encode b] '','' = ?p @ CHR '','' # ?q" by (simp add: join_def)
  moreover have "split_on (CHR '','') (?p @ CHR '','' # ?q) = [?p, ?q]"
    by (subst split_on_sep, simp add: b64_plain, subst split_on_no_sep, simp add: b64_plain, rule refl)
  moreover have "trim_space ?p = ?p" "trim_space ?q = ?q" by (rule kid_trimmed; use kids_plain in auto)+
  moreover have "has_suffix1 (CHR ''*'') ?p" "trim_suffix1 (CHR ''*'') ?p = ''kex-a:'' @ b64_encode a"
    by (simp_all add: has_suffix1_def trim_suffix1_def butlast_append)
  moreover have star: "last (b64_encode b) \<noteq> CHR ''*''"
    using b64_plain(5) [of b] last_in_set [OF b64_not_empty [OF assms(2)]] by metis
  moreover from star have "\<not> has_suffix1 (CHR ''*'') ?q" "trim_suffix1 (CHR ''*'') ?q = ''kex-b:'' @ b64_encode b"
    using star by (simp_all add: has_suffix1_def trim_suffix1_def b64_not_empty [OF assms(2)])
  moreover have "str_cut (CHR '':'') (''kex-a:'' @ x) = Some (''kex-a'', x)" "str_cut (CHR '':'') (''kex-b:'' @ x) = Some (''kex-b'', x)" for x
    by simp_all
  ultimately show ?thesis
    by (simp only: parse_kex_keys_def kex_loop.simps Let_def option.case prod.case key32_back [OF assms(1)] key32_back [OF assms(2)] sum.case)
      (simp add: b64_not_empty [OF assms(1)] b64_not_empty [OF assms(2)])
qed

subsection \<open>Starting from the printed lines\<close>

text \<open>An environment in which the lines were pasted, beside whatever else is set.\<close>

definition pasted :: "(string \<times> string) list \<Rightarrow> env \<Rightarrow> bool" where
  "pasted ls e \<longleftrightarrow> list_all (\<lambda>(k, v). e k = v) ls"

definition random_ok :: "(nat \<Rightarrow> string option) \<Rightarrow> bool" where
  "random_ok rnd \<longleftrightarrow> (\<forall>i < 5. \<exists>b. rnd i = Some b \<and> length b = 32) \<and> (\<exists>b. rnd 5 = Some b \<and> length b = 18)"

text \<open>C29. What keygen prints are keys the server accepts, and not all it needs: when the random source works the program ends well,
  and in a development environment with these lines, a database and a Redis address, \<open>Load\<close> succeeds exactly when the keys for
  card encryption are set as well, and then its keys are the ones that were drawn, with the first of each kind active; with the
  printed lines alone it fails on \<open>VFT_CARD_ENC_KEYS\<close>, which keygen does not print.\<close>
theorem keygen_keys_load:
  assumes "random_ok rnd" "keygen rnd = (ls, ok)" "pasted ls e" "e ''VFT_ENV'' \<noteq> ''prod''"
    and "e ''VFT_DATABASE_URL'' \<noteq> []" "e ''VFT_REDIS_URL'' \<noteq> []" "e ''VFT_TRUSTED_PROXIES'' = []"
  shows "ok \<and> (case parse_card_enc_keys (e ''VFT_CARD_ENC_KEYS'') (e ''VFT_CARD_ENC_ACTIVE_KID'') of
      Inl err \<Rightarrow> load pd pc e = Inl err
    | Inr _ \<Rightarrow> \<exists>c. load pd pc e = Inr c \<and> map (Some \<circ> snd) (c_sign_keys c) = [rnd 0, rnd 1] \<and> c_sign_active c = ''sign-a'' \<and>
        map (Some \<circ> kc_seed) (c_kex_keys c) = [rnd 2, rnd 3] \<and> map kc_active (c_kex_keys c) = [True, False] \<and>
        Some (c_hmac_key c) = rnd 4) \<and>
    (e ''VFT_CARD_ENC_KEYS'' = [] \<longrightarrow> load pd pc e = Inl ''config: VFT_CARD_ENC_KEYS is required'')"
proof -
  have draw: "\<exists>b. rnd i = Some b \<and> length b = 32" if "i < 5" for i using assms(1) that by (simp add: random_ok_def)
  obtain a where a: "rnd 0 = Some a" "length a = 32" using draw [of 0] by auto
  obtain b where b: "rnd 1 = Some b" "length b = 32" using draw [of 1] by auto
  obtain x where x: "rnd 2 = Some x" "length x = 32" using draw [of 2] by auto
  obtain y where y: "rnd 3 = Some y" "length y = 32" using draw [of 3] by auto
  obtain h where h: "rnd 4 = Some h" "length h = 32" using draw [of 4] by auto
  obtain pw where pw: "rnd 5 = Some pw" using assms(1) by (auto simp: random_ok_def)
  note draws = a(1) b(1) x(1) y(1) h(1) pw and len = a(2) b(2) x(2) y(2) h(2)
  have "keygen rnd = ([(''VFT_SIGN_KEYS'', join [''sign-a:'' @ b64_encode a, ''sign-b:'' @ b64_encode b] '',''), (''VFT_SIGN_ACTIVE_KID'', ''sign-a''),
    (''VFT_KEX_KEYS'', join [''kex-a:'' @ b64_encode x @ ''*'', ''kex-b:'' @ b64_encode y] '',''),
    (''VFT_CARD_HMAC_KEY'', b64_encode h), (''VFT_INITIAL_ADMIN_USER'', ''admin''), (''VFT_INITIAL_ADMIN_PASSWORD'', b64_encode pw)], True)"
    using draws by (simp add: keygen_def numeral_eq_Suc)
  with assms(2,3) have ok: ok and e: "e ''VFT_SIGN_KEYS'' = join [''sign-a:'' @ b64_encode a, ''sign-b:'' @ b64_encode b] '',''" "e ''VFT_SIGN_ACTIVE_KID'' = ''sign-a''"
    "e ''VFT_KEX_KEYS'' = join [''kex-a:'' @ b64_encode x @ ''*'', ''kex-b:'' @ b64_encode y] '',''" "e ''VFT_CARD_HMAC_KEY'' = b64_encode h"
    by (auto simp: pasted_def)
  have env: "from_env e ''VFT_ENV'' ''dev'' \<noteq> ''prod''" using assms(4) by (simp add: from_env_def)
  have mac: "must_env e ''VFT_CARD_HMAC_KEY'' = Inr (b64_encode h)" "b64_decode (b64_encode h) = Some h"
    using b64_not_empty [OF len(5)] by (simp_all add: must_env_def e b64_decode_encode)
  have "parse_card_enc_keys [] k = Inl ''config: VFT_CARD_ENC_KEYS is required''" for k
    by (simp add: parse_card_enc_keys_def trim_space_id ascii_def)
  then show ?thesis
    using ok env mac len assms(5-7) draws sign_keys_back [OF len(1,2)] kex_keys_back [OF len(3,4)]
    by (auto simp: load_def Let_def e split: sum.splits)
qed

subsection \<open>A first start\<close>

definition demo_draws :: "nat \<Rightarrow> string option" where
  "demo_draws i = Some (replicate (if i < 5 then 32 else 18) (mk_byte i))"

definition first_env :: "string \<Rightarrow> env" where
  "first_env enc k = (case map_of (fst (keygen demo_draws)) k of Some v \<Rightarrow> v
     | None \<Rightarrow> if k = ''VFT_DATABASE_URL'' then ''pg'' else if k = ''VFT_REDIS_URL'' then ''redis''
         else if k = ''VFT_CARD_ENC_KEYS'' then enc else [])"

lemma demo_draws_ok: "random_ok demo_draws"
  by (simp add: random_ok_def demo_draws_def)

lemma keygen_names: "map fst (fst (keygen demo_draws)) = [''VFT_SIGN_KEYS'', ''VFT_SIGN_ACTIVE_KID'', ''VFT_KEX_KEYS'', ''VFT_CARD_HMAC_KEY'',
    ''VFT_INITIAL_ADMIN_USER'', ''VFT_INITIAL_ADMIN_PASSWORD'']"
  by (simp add: keygen_def demo_draws_def numeral_eq_Suc)

lemma first_env_pasted: "pasted (fst (keygen demo_draws)) (first_env enc)"
proof -
  have "distinct (map fst (fst (keygen demo_draws)))" unfolding keygen_names by simp
  then show ?thesis by (auto simp: pasted_def first_env_def list_all_iff map_of_is_SomeI)
qed

lemma first_env_other: "k \<notin> set (map fst (fst (keygen demo_draws))) \<Longrightarrow>
    first_env enc k = (if k = ''VFT_DATABASE_URL'' then ''pg'' else if k = ''VFT_REDIS_URL'' then ''redis''
         else if k = ''VFT_CARD_ENC_KEYS'' then enc else [])"
  by (simp add: first_env_def map_of_eq_None_iff [THEN iffD2])

lemma keygen_keys_load_witness:
  "load (\<lambda>_. None) (\<lambda>_. None :: unit option) (first_env []) = Inl ''config: VFT_CARD_ENC_KEYS is required'' \<and>
   (\<exists>c. load (\<lambda>_. None) (\<lambda>_. None :: unit option) (first_env (''k:'' @ zero_key @ ''*'')) = Inr c \<and>
      map (Some \<circ> snd) (c_sign_keys c) = [demo_draws 0, demo_draws 1] \<and> map kc_active (c_kex_keys c) = [True, False])"
proof -
  have env: "first_env enc ''VFT_ENV'' = []" "first_env enc ''VFT_DATABASE_URL'' = ''pg''" "first_env enc ''VFT_REDIS_URL'' = ''redis''"
    "first_env enc ''VFT_TRUSTED_PROXIES'' = []" "first_env enc ''VFT_CARD_ENC_KEYS'' = enc" "first_env enc ''VFT_CARD_ENC_ACTIVE_KID'' = []" for enc
    by (subst first_env_other; simp add: keygen_names)+
  note run = keygen_keys_load [OF demo_draws_ok surjective_pairing first_env_pasted, where pd = "\<lambda>_. None" and pc = "\<lambda>_. None :: unit option"]
  have "load (\<lambda>_. None) (\<lambda>_. None :: unit option) (first_env []) = Inl ''config: VFT_CARD_ENC_KEYS is required''"
    using run [of "[]"] by (simp add: env)
  moreover have "\<exists>c. load (\<lambda>_. None) (\<lambda>_. None :: unit option) (first_env (''k:'' @ zero_key @ ''*'')) = Inr c \<and>
      map (Some \<circ> snd) (c_sign_keys c) = [demo_draws 0, demo_draws 1] \<and> c_sign_active c = ''sign-a'' \<and>
      map (Some \<circ> kc_seed) (c_kex_keys c) = [demo_draws 2, demo_draws 3] \<and> map kc_active (c_kex_keys c) = [True, False] \<and>
      Some (c_hmac_key c) = demo_draws 4"
    using run [of "''k:'' @ zero_key @ ''*''"] demo_parses(3) by (simp add: env)
  ultimately show ?thesis by (elim exE conjE) (intro conjI exI)
qed

end
