(* ===== verification/Migrate.thy ===== *)
theory Migrate
  imports World "HOL-Library.Char_ord" "HOL-Library.List_Lexorder"
begin

section \<open>Migrate: bringing the schema up to date\<close>

text \<open>
  \<open>Migrate\<close> of \<open>internal/store/store.go\<close>: the scripts of a directory are run in the order of their names,
  each in a transaction with the row that records it, and recorded ones are skipped. What a script does to
  the schema is SQL and a parameter of the model (\<open>run_sql\<close>, none when the server refuses it); so is the
  directory. The advisory lock keeps other runners out, so a run is alone with the table; giving it back is
  the last thing a run does and its outcome is dropped. Every call to the database can fail: before it takes effect, or after.
\<close>

subsection \<open>The state and the calls\<close>

record 's migration_db =
  md_schema :: 's
  md_table :: "string list option"
  md_faults :: "fault list"

record dir_entry =
  de_name :: string
  de_dir :: bool
  de_text :: "string option"

type_synonym ('s, 'a) mig = "('s migration_db, error, 'a) m"

text \<open>A call that changes nothing by itself: connecting, the lock, \<open>Begin\<close>, a statement inside a transaction.\<close>

definition mig_call :: "('s, unit) mig" where
  "mig_call g = (case next_fault (md_faults g) of (x, fs) \<Rightarrow>
     (if x = Fine then Inr () else Inl (Store ErrConn), g\<lparr>md_faults := fs\<rparr>))"

text \<open>A call that takes effect: \<open>Late\<close> has done so when the caller sees the error.\<close>

definition mig_write :: "('s migration_db \<Rightarrow> 's migration_db) \<Rightarrow> ('s, unit) mig" where
  "mig_write f g = (case next_fault (md_faults g) of (x, fs) \<Rightarrow>
     (if x = Fine then Inr () else Inl (Store ErrConn),
      if x = Lost then g\<lparr>md_faults := fs\<rparr> else f (g\<lparr>md_faults := fs\<rparr>)))"

definition recorded :: "'s migration_db \<Rightarrow> string list" where
  "recorded g = (case md_table g of None \<Rightarrow> [] | Some ns \<Rightarrow> ns)"

subsection \<open>The runner\<close>

definition ensure_schema_migrations :: "('s, unit) mig" where
  "ensure_schema_migrations = seqM mig_call
     (mig_write (\<lambda>g. case md_table g of None \<Rightarrow> g\<lparr>md_table := Some []\<rparr> | Some _ \<Rightarrow> g))"

text \<open>One file that is not recorded: read it, then a transaction of the script and its row.\<close>

definition apply_file :: "(string \<Rightarrow> 's \<Rightarrow> 's option) \<Rightarrow> dir_entry \<Rightarrow> ('s, unit) mig" where
  "apply_file run_sql f = (case de_text f of None \<Rightarrow> throwM (Text ''store: read'')
     | Some sql \<Rightarrow> seqM mig_call (seqM mig_call
         (bindM (getsM md_schema) (\<lambda>s. case run_sql sql s of None \<Rightarrow> throwM (Text ''store: apply'')
           | Some s' \<Rightarrow> seqM mig_call
               (mig_write (\<lambda>g. g\<lparr>md_schema := s', md_table := Some (recorded g @ [de_name f])\<rparr>))))))"

definition migrate_file :: "(string \<Rightarrow> 's \<Rightarrow> 's option) \<Rightarrow> dir_entry \<Rightarrow> ('s, unit) mig" where
  "migrate_file run_sql f = seqM mig_call (bindM (getsM recorded) (\<lambda>ns.
     if de_name f \<in> set ns then retM () else apply_file run_sql f))"

fun migrate_files :: "(string \<Rightarrow> 's \<Rightarrow> 's option) \<Rightarrow> dir_entry list \<Rightarrow> ('s, unit) mig" where
  "migrate_files run_sql [] = retM ()"
| "migrate_files run_sql (f # fs) = seqM (migrate_file run_sql f) (migrate_files run_sql fs)"

definition is_script :: "dir_entry \<Rightarrow> bool" where
  "is_script f \<longleftrightarrow> \<not> de_dir f \<and> 4 \<le> length (de_name f) \<and> drop (length (de_name f) - 4) (de_name f) = ''.sql''"

text \<open>The names of a directory are distinct, so sorting the entries is sorting their names.\<close>

definition scripts :: "dir_entry list \<Rightarrow> dir_entry list" where
  "scripts es = sort_key de_name (filter is_script es)"

definition migrate :: "(string \<Rightarrow> 's \<Rightarrow> 's option) \<Rightarrow> dir_entry list option \<Rightarrow> ('s, unit) mig" where
  "migrate run_sql dir = seqM ensure_schema_migrations (seqM mig_call (seqM mig_call
     (case dir of None \<Rightarrow> throwM (Text ''store: read migrations dir'')
      | Some es \<Rightarrow> seqM mig_call (migrate_files run_sql (scripts es)))))"

text \<open>The directory the server and the tool look in.\<close>

definition find_migrations_dir :: "(string \<Rightarrow> bool) \<Rightarrow> string" where
  "find_migrations_dir is_dir = (case find is_dir [''/db/migrations'', ''../../db/migrations'', ''../../../db/migrations'', ''db/migrations''] of
     Some c \<Rightarrow> c | None \<Rightarrow> ''../../db/migrations'')"

definition find_dir :: "(string \<Rightarrow> bool) \<Rightarrow> string" where
  "find_dir is_dir = (case find is_dir [''../../db/migrations'', ''../../../db/migrations'', ''db/migrations'', ''/db/migrations''] of
     Some c \<Rightarrow> c | None \<Rightarrow> ''../../db/migrations'')"

text \<open>A start of the server migrates unless it is told not to; the tool \<open>cmd/migrate\<close> ends with a status.\<close>

definition start_migrations :: "(string \<Rightarrow> 's \<Rightarrow> 's option) \<Rightarrow> (string \<Rightarrow> dir_entry list option) \<Rightarrow> (string \<Rightarrow> bool) \<Rightarrow>
    (string \<Rightarrow> string) \<Rightarrow> ('s, unit) mig" where
  "start_migrations run_sql dirs is_dir env =
     (if env ''VFT_SKIP_MIGRATE'' \<noteq> ''true'' then migrate run_sql (dirs (find_migrations_dir is_dir)) else retM ())"

definition migrate_main :: "(string \<Rightarrow> 's \<Rightarrow> 's option) \<Rightarrow> (string \<Rightarrow> dir_entry list option) \<Rightarrow> (string \<Rightarrow> bool) \<Rightarrow>
    (string \<Rightarrow> string) \<Rightarrow> string list \<Rightarrow> 's migration_db \<Rightarrow> int \<times> 's migration_db" where
  "migrate_main run_sql dirs is_dir env args g =
     (if length args < 2 \<or> args ! 1 \<noteq> ''up'' then (2, g)
      else let dir = (if env ''VFT_MIGRATIONS_DIR'' = [] then find_dir is_dir else env ''VFT_MIGRATIONS_DIR'') in
        (case migrate run_sql (dirs dir) g of (Inl e, h) \<Rightarrow> (1, h) | (Inr u, h) \<Rightarrow> (0, h)))"

subsection \<open>What a run is for\<close>

text \<open>The specification: the scripts that are not recorded, in order, each on the schema the one before left.\<close>

fun run_all :: "(string \<Rightarrow> 's \<Rightarrow> 's option) \<Rightarrow> dir_entry list \<Rightarrow> 's \<Rightarrow> 's option" where
  "run_all run_sql [] s = Some s"
| "run_all run_sql (f # fs) s = (case de_text f of None \<Rightarrow> None | Some sql \<Rightarrow>
     (case run_sql sql s of None \<Rightarrow> None | Some s' \<Rightarrow> run_all run_sql fs s'))"

definition pending :: "dir_entry list \<Rightarrow> 's migration_db \<Rightarrow> dir_entry list" where
  "pending fs g = filter (\<lambda>f. de_name f \<notin> set (recorded g)) fs"

text \<open>A state reached from another by running the first \<open>k\<close> pending scripts.\<close>

definition reached :: "(string \<Rightarrow> 's \<Rightarrow> 's option) \<Rightarrow> dir_entry list \<Rightarrow> nat \<Rightarrow> 's migration_db \<Rightarrow> 's migration_db \<Rightarrow> bool" where
  "reached run_sql fs k g h \<longleftrightarrow> k \<le> length (pending fs g) \<and> run_all run_sql (take k (pending fs g)) (md_schema g) = Some (md_schema h) \<and>
     recorded h = recorded g @ map de_name (take k (pending fs g))"

lemma run_all_append: "run_all run_sql (xs @ ys) s = Option.bind (run_all run_sql xs s) (run_all run_sql ys)"
  by (induction run_sql xs s rule: run_all.induct) (auto split: option.splits)

lemma pending_reached:
  assumes "distinct (map de_name fs)" "reached run_sql fs k g h"
  shows "pending fs h = drop k (pending fs g)"
proof -
  let ?p = "pending fs g"
  have "distinct (map de_name ?p)" using assms(1) by (simp add: pending_def distinct_map_filter)
  then have d: "distinct (map de_name (take k ?p @ drop k ?p))" by simp
  have "pending fs h = filter (\<lambda>f. de_name f \<notin> set (map de_name (take k ?p))) ?p"
    using assms(2) by (auto simp: pending_def reached_def intro: filter_cong)
  also have "\<dots> = filter (\<lambda>f. de_name f \<notin> set (map de_name (take k ?p))) (take k ?p @ drop k ?p)" by simp
  also have "\<dots> = drop k ?p"
  proof -
    have "filter (\<lambda>f. de_name f \<notin> set (map de_name (take k ?p))) (take k ?p) = []" by (auto simp: filter_empty_conv)
    moreover have "filter (\<lambda>f. de_name f \<notin> set (map de_name (take k ?p))) (drop k ?p) = drop k ?p"
      using d unfolding map_append distinct_append by (intro filter_True) auto
    ultimately show ?thesis unfolding filter_append by simp
  qed
  finally show ?thesis .
qed

lemma reached_trans:
  assumes "distinct (map de_name fs)" "reached run_sql fs k g h" "reached run_sql fs j h i"
  shows "reached run_sql fs (k + j) g i"
  using assms(2,3) pending_reached [OF assms(1,2)] by (auto simp: reached_def take_add run_all_append)

lemma reached_refl: "recorded h = recorded g \<Longrightarrow> md_schema h = md_schema g \<Longrightarrow> reached run_sql fs 0 g h"
  by (simp add: reached_def)

subsection \<open>Every run makes a prefix\<close>

lemma mig_call_run: "mig_call g = (r, h) \<Longrightarrow> recorded h = recorded g \<and> md_schema h = md_schema g \<and> md_table h = md_table g"
  by (auto simp: mig_call_def recorded_def split: prod.splits)

lemma mig_call_fine: "md_faults g = [] \<Longrightarrow> mig_call g = (Inr (), g)"
  by (cases g) (simp add: mig_call_def)

lemma apply_file_run:
  assumes "apply_file run_sql f g = (r, h)"
  shows "(recorded h = recorded g \<and> md_schema h = md_schema g \<and> r \<noteq> Inr ()) \<or>
    (\<exists>sql. de_text f = Some sql \<and> run_sql sql (md_schema g) = Some (md_schema h) \<and> recorded h = recorded g @ [de_name f])"
proof (cases "de_text f")
  case (Some sql)
  obtain r1 g1 where c1: "mig_call g = (r1, g1)" by (cases "mig_call g")
  obtain r2 g2 where c2: "mig_call g1 = (r2, g2)" by (cases "mig_call g1")
  obtain r3 g3 where c3: "mig_call g2 = (r3, g3)" by (cases "mig_call g2")
  note same = mig_call_run [OF c1] mig_call_run [OF c2] mig_call_run [OF c3]
  show ?thesis using assms Some c1 c2 c3 same
    by (auto simp: apply_file_def seqM_def bindM_def getsM_def throwM_def mig_write_def recorded_def
        split: sum.splits option.splits prod.splits if_splits)
qed (use assms in \<open>auto simp: apply_file_def throwM_def\<close>)

lemma migrate_file_run:
  assumes "migrate_file run_sql f g = (r, h)"
  shows "(recorded h = recorded g \<and> md_schema h = md_schema g \<and> (r = Inr () \<longrightarrow> de_name f \<in> set (recorded g))) \<or>
    (de_name f \<notin> set (recorded g) \<and>
      (\<exists>sql. de_text f = Some sql \<and> run_sql sql (md_schema g) = Some (md_schema h) \<and> recorded h = recorded g @ [de_name f]))"
proof -
  obtain q u where c: "mig_call g = (q, u)" by (cases "mig_call g")
  note same = mig_call_run [OF c]
  show ?thesis
  proof (cases "q = Inr () \<and> de_name f \<notin> set (recorded g)")
    case True
    then have "apply_file run_sql f u = (r, h)" using assms c same
      by (simp add: migrate_file_def seqM_def bindM_def getsM_def)
    from apply_file_run [OF this] show ?thesis using same True by auto
  next
    case False
    then show ?thesis using assms c same
      by (auto simp: migrate_file_def seqM_def bindM_def getsM_def retM_def split: sum.splits)
  qed
qed

lemma migrate_files_run:
  assumes "migrate_files run_sql fs g = (r, h)" "distinct (map de_name fs)"
  shows "\<exists>k. reached run_sql fs k g h \<and> (r = Inr () \<longrightarrow> k = length (pending fs g))"
  using assms
proof (induction fs arbitrary: g)
  case Nil
  then show ?case by (auto simp: retM_def pending_def intro!: exI [of _ 0] reached_refl)
next
  case (Cons f fs)
  obtain q u where f: "migrate_file run_sql f g = (q, u)" by (cases "migrate_file run_sql f g")
  have fresh: "de_name f \<notin> de_name ` set fs" "distinct (map de_name fs)" using Cons.prems(2) by auto
  from migrate_file_run [OF f] show ?case
  proof (elim disjE conjE exE)
    assume same: "recorded u = recorded g" "md_schema u = md_schema g" and done_: "q = Inr () \<longrightarrow> de_name f \<in> set (recorded g)"
    show ?case
    proof (cases "q = Inr ()")
      case True
      then have "migrate_files run_sql fs u = (r, h)" using Cons.prems(1) f by (simp add: seqM_def bindM_def)
      from Cons.IH [OF this fresh(2)] obtain k where k: "reached run_sql fs k u h" "r = Inr () \<longrightarrow> k = length (pending fs u)" by blast
      have "pending (f # fs) g = pending fs u" using done_ True same by (simp add: pending_def)
      with k same show ?thesis by (intro exI [of _ k]) (simp add: reached_def)
    next
      case False
      then have "r \<noteq> Inr ()" "h = u" using Cons.prems(1) f by (auto simp: seqM_def bindM_def split: sum.splits)
      then show ?thesis using reached_refl [OF same] by blast
    qed
  next
    fix sql
    assume new: "de_name f \<notin> set (recorded g)" and sql: "de_text f = Some sql" "run_sql sql (md_schema g) = Some (md_schema u)"
      "recorded u = recorded g @ [de_name f]"
    have tail: "pending fs u = pending fs g" using fresh(1) sql(3) by (auto simp: pending_def image_iff intro!: filter_cong)
    have pend: "pending (f # fs) g = f # pending fs g" using new by (simp add: pending_def)
    have step: "reached run_sql (f # fs) (Suc k) g h" if "reached run_sql fs k u h" for k
      using that sql pend tail by (simp add: reached_def)
    show ?case
    proof (cases "q = Inr ()")
      case True
      then have "migrate_files run_sql fs u = (r, h)" using Cons.prems(1) f by (simp add: seqM_def bindM_def)
      from Cons.IH [OF this fresh(2)] show ?thesis using step pend tail by fastforce
    next
      case False
      then have "r \<noteq> Inr ()" "h = u" using Cons.prems(1) f by (auto simp: seqM_def bindM_def split: sum.splits)
      then show ?thesis using step [OF reached_refl] by auto
    qed
  qed
qed

lemma ensure_run: "ensure_schema_migrations g = (r, h) \<Longrightarrow> recorded h = recorded g \<and> md_schema h = md_schema g"
  by (auto simp: ensure_schema_migrations_def seqM_def bindM_def mig_call_def mig_write_def recorded_def
      split: prod.splits sum.splits option.splits if_splits)

lemma scripts_distinct: "distinct (map de_name es) \<Longrightarrow> distinct (map de_name (scripts es))"
proof -
  assume "distinct (map de_name es)"
  then have "distinct (map de_name (filter is_script es))" by (rule distinct_map_filter)
  then show ?thesis unfolding scripts_def distinct_map
    by (metis distinct_sort distinct_map set_sort)
qed

lemma migrate_run:
  assumes "migrate run_sql dir g = (r, h)" "distinct (map de_name (case dir of None \<Rightarrow> [] | Some es \<Rightarrow> es))"
  shows "case dir of None \<Rightarrow> r \<noteq> Inr () \<and> recorded h = recorded g \<and> md_schema h = md_schema g
    | Some es \<Rightarrow> \<exists>k. reached run_sql (scripts es) k g h \<and> (r = Inr () \<longrightarrow> k = length (pending (scripts es) g))"
proof -
  obtain r0 g0 where c0: "ensure_schema_migrations g = (r0, g0)" by (cases "ensure_schema_migrations g")
  obtain r1 g1 where c1: "mig_call g0 = (r1, g1)" by (cases "mig_call g0")
  obtain r2 g2 where c2: "mig_call g1 = (r2, g2)" by (cases "mig_call g1")
  obtain r3 g3 where c3: "mig_call g2 = (r3, g3)" by (cases "mig_call g2")
  note same = ensure_run [OF c0] mig_call_run [OF c1] mig_call_run [OF c2] mig_call_run [OF c3]
  show ?thesis
  proof (cases dir)
    case None
    then show ?thesis using assms(1) c0 c1 c2 same
      by (auto simp: migrate_def seqM_def bindM_def throwM_def split: sum.splits)
  next
    case (Some es)
    show ?thesis
    proof (cases "r0 = Inr () \<and> r1 = Inr () \<and> r2 = Inr () \<and> r3 = Inr ()")
      case True
      then have "migrate_files run_sql (scripts es) g3 = (r, h)" using assms(1) Some c0 c1 c2 c3
        by (simp add: migrate_def seqM_def bindM_def)
      from migrate_files_run [OF this scripts_distinct] assms(2) Some
      obtain k where "reached run_sql (scripts es) k g3 h" "r = Inr () \<longrightarrow> k = length (pending (scripts es) g3)" by auto
      moreover have "pending (scripts es) g3 = pending (scripts es) g" using same by (simp add: pending_def)
      ultimately show ?thesis using Some same by (auto simp: reached_def)
    next
      case False
      then have "r \<noteq> Inr () \<and> recorded h = recorded g \<and> md_schema h = md_schema g" using assms(1) Some c0 c1 c2 c3 same
        by (auto simp: migrate_def seqM_def bindM_def split: sum.splits)
      then show ?thesis using Some reached_refl [of h g run_sql "scripts es"] by auto
    qed
  qed
qed

text \<open>Attempts one after the other on the same directory, each with its own failures.\<close>

fun retried :: "(string \<Rightarrow> 's \<Rightarrow> 's option) \<Rightarrow> dir_entry list option \<Rightarrow> fault list list \<Rightarrow> 's migration_db \<Rightarrow> 's migration_db" where
  "retried run_sql dir [] g = g"
| "retried run_sql dir (fs # fss) g = retried run_sql dir fss (snd (migrate run_sql dir (g\<lparr>md_faults := fs\<rparr>)))"

lemma reached_faults: "reached run_sql fs k (g\<lparr>md_faults := x\<rparr>) h \<longleftrightarrow> reached run_sql fs k g h"
  by (simp add: reached_def pending_def recorded_def)

lemma retried_reached:
  "distinct (map de_name es) \<Longrightarrow> \<exists>k. reached run_sql (scripts es) k g (retried run_sql (Some es) fss g)"
proof (induction fss arbitrary: g)
  case (Cons fs fss)
  obtain r h where run: "migrate run_sql (Some es) (g\<lparr>md_faults := fs\<rparr>) = (r, h)"
    by (cases "migrate run_sql (Some es) (g\<lparr>md_faults := fs\<rparr>)")
  obtain k where k: "reached run_sql (scripts es) k g h"
    using migrate_run [OF run] Cons.prems by (auto simp: reached_faults)
  obtain j where "reached run_sql (scripts es) j h (retried run_sql (Some es) fss h)" using Cons by blast
  from reached_trans [OF scripts_distinct [OF Cons.prems] k this] show ?case using run by auto
qed (auto intro: reached_refl)

lemma migrate_file_fine:
  assumes "md_faults g = []" "de_name f \<in> set (recorded g) \<or> (\<exists>sql s. de_text f = Some sql \<and> run_sql sql (md_schema g) = Some s)"
  shows "\<exists>h. migrate_file run_sql f g = (Inr (), h) \<and> md_faults h = []"
  using assms
  by (auto simp: migrate_file_def apply_file_def seqM_def bindM_def getsM_def retM_def mig_call_fine mig_write_def)

lemma migrate_files_fine:
  assumes "md_faults g = []" "distinct (map de_name fs)" "run_all run_sql (pending fs g) (md_schema g) \<noteq> None"
  shows "\<exists>h. migrate_files run_sql fs g = (Inr (), h)"
  using assms
proof (induction fs arbitrary: g)
  case (Cons f fs)
  have "de_name f \<in> set (recorded g) \<or> (\<exists>sql s. de_text f = Some sql \<and> run_sql sql (md_schema g) = Some s)"
    using Cons.prems(3) by (auto simp: pending_def split: if_splits option.splits)
  then obtain u where u: "migrate_file run_sql f g = (Inr (), u)" "md_faults u = []"
    using migrate_file_fine [OF Cons.prems(1)] by blast
  have "run_all run_sql (pending fs u) (md_schema u) \<noteq> None"
  proof (cases "de_name f \<in> set (recorded g)")
    case True
    then have "recorded u = recorded g" "md_schema u = md_schema g" using migrate_file_run [OF u(1)] by auto
    then show ?thesis using Cons.prems(3) True by (simp add: pending_def)
  next
    case False
    then obtain sql where sql: "de_text f = Some sql" "run_sql sql (md_schema g) = Some (md_schema u)" "recorded u = recorded g @ [de_name f]"
      using migrate_file_run [OF u(1)] by auto
    moreover have "pending fs u = pending fs g" using Cons.prems(2) sql(3) by (auto simp: pending_def image_iff intro!: filter_cong)
    ultimately show ?thesis using Cons.prems(3) False by (simp add: pending_def)
  qed
  then show ?case using Cons.IH [OF u(2)] Cons.prems(2) u(1) by (simp add: seqM_def bindM_def)
qed (simp add: retM_def)

lemma migrate_fine:
  assumes "md_faults g = []" "distinct (map de_name es)" "run_all run_sql (pending (scripts es) g) (md_schema g) \<noteq> None"
  shows "\<exists>h. migrate run_sql (Some es) g = (Inr (), h)"
proof -
  obtain u where u: "ensure_schema_migrations g = (Inr (), u)" "md_faults u = []"
    using assms(1) by (auto simp: ensure_schema_migrations_def seqM_def bindM_def mig_call_fine mig_write_def split: option.splits)
  note same = ensure_run [OF u(1)]
  then have "run_all run_sql (pending (scripts es) u) (md_schema u) \<noteq> None" using assms(3) by (simp add: pending_def)
  from migrate_files_fine [OF u(2) scripts_distinct [OF assms(2)] this] show ?thesis
    using u by (simp add: migrate_def seqM_def bindM_def mig_call_fine)
qed

text \<open>C28. Migrations run once each, in order, however often they are interrupted: after any number of attempts, each failing anywhere,
  the schema is what the first few of the scripts that were pending make of it, run once each in the order of their names, and exactly
  these have been recorded in addition; an attempt that succeeds after that has run all of them, with the result of one
  uninterrupted run; and an attempt during which no call fails does succeed when the scripts themselves do.\<close>
theorem migrations_resume:
  assumes "distinct (map de_name es)"
  shows "let p = pending (scripts es) g; h = retried run_sql (Some es) fss g in
    (\<exists>k \<le> length p. run_all run_sql (take k p) (md_schema g) = Some (md_schema h) \<and> recorded h = recorded g @ map de_name (take k p)) \<and>
    (\<forall>i. migrate run_sql (Some es) h = (Inr (), i) \<longrightarrow>
      run_all run_sql p (md_schema g) = Some (md_schema i) \<and> recorded i = recorded g @ map de_name p) \<and>
    (run_all run_sql p (md_schema g) \<noteq> None \<longrightarrow> (\<exists>i. migrate run_sql (Some es) (h\<lparr>md_faults := []\<rparr>) = (Inr (), i)))"
proof -
  define p h where "p = pending (scripts es) g" and "h = retried run_sql (Some es) fss g"
  note p_def = this(1) and h_def = this(2)
  obtain k where k: "reached run_sql (scripts es) k g h" using retried_reached [OF assms] unfolding h_def by blast
  note left = pending_reached [OF scripts_distinct [OF assms] k]
  have done_: "run_all run_sql p (md_schema g) = Some (md_schema i) \<and> recorded i = recorded g @ map de_name p"
    if run: "migrate run_sql (Some es) h = (Inr (), i)" for i
  proof -
    obtain j where j: "reached run_sql (scripts es) j h i" "j = length (pending (scripts es) h)"
      using migrate_run [OF run] assms by auto
    have "k + j = length p" using k j(2) left by (simp add: reached_def p_def)
    then show ?thesis using reached_trans [OF scripts_distinct [OF assms] k j(1)] by (simp add: reached_def p_def)
  qed
  have "\<exists>i. migrate run_sql (Some es) (h\<lparr>md_faults := []\<rparr>) = (Inr (), i)" if good: "run_all run_sql p (md_schema g) \<noteq> None"
  proof (rule migrate_fine)
    have "run_all run_sql (take k p @ drop k p) (md_schema g) = run_all run_sql (drop k p) (md_schema h)"
      using k unfolding run_all_append by (simp add: reached_def p_def)
    then show "run_all run_sql (pending (scripts es) (h\<lparr>md_faults := []\<rparr>)) (md_schema (h\<lparr>md_faults := []\<rparr>)) \<noteq> None"
      using good left by (simp add: p_def pending_def recorded_def)
  qed (use assms in simp_all)
  then show ?thesis using k done_ unfolding Let_def p_def [symmetric] h_def [symmetric] by (auto simp: reached_def p_def [symmetric])
qed

subsection \<open>An upgrade that is cut off\<close>

definition demo_dir :: "dir_entry list" where
  "demo_dir = [\<lparr>de_name = ''002_b.sql'', de_dir = False, de_text = Some ''b''\<rparr>, \<lparr>de_name = ''README'', de_dir = False, de_text = None\<rparr>,
     \<lparr>de_name = ''001_a.sql'', de_dir = False, de_text = Some ''a''\<rparr>]"

lemma demo_scripts: "scripts demo_dir = [\<lparr>de_name = ''001_a.sql'', de_dir = False, de_text = Some ''a''\<rparr>,
    \<lparr>de_name = ''002_b.sql'', de_dir = False, de_text = Some ''b''\<rparr>]"
  by (simp add: scripts_def demo_dir_def is_script_def less_char_def less_eq_char_def)

definition append_sql :: "string \<Rightarrow> string list \<Rightarrow> string list option" where
  "append_sql sql s = Some (s @ [sql])"

definition new_db :: "string list migration_db" where
  "new_db = \<lparr>md_schema = [], md_table = None, md_faults = []\<rparr>"

lemma migrations_resume_witness:
  "let h = retried append_sql (Some demo_dir) [replicate 9 Fine @ [Late], [Fine, Lost]] new_db in
     (\<exists>k \<le> 2. md_schema h = take k [''a'', ''b'']) \<and> (\<exists>i. migrate append_sql (Some demo_dir) (h\<lparr>md_faults := []\<rparr>) = (Inr (), i))"
proof -
  have d: "distinct (map de_name demo_dir)" by (simp add: demo_dir_def)
  have p: "pending (scripts demo_dir) new_db = scripts demo_dir" by (simp add: pending_def new_db_def recorded_def)
  have all: "run_all append_sql (scripts demo_dir) (md_schema new_db) \<noteq> None" by (simp add: demo_scripts append_sql_def)
  have part: "run_all append_sql (take k (scripts demo_dir)) (md_schema new_db) = Some (take k [''a'', ''b''])" if "k \<le> 2" for k
  proof -
    have "k = 0 \<or> k = 1 \<or> k = 2" using that by auto
    then show ?thesis by (auto simp: demo_scripts append_sql_def new_db_def)
  qed
  have "length (scripts demo_dir) = 2" by (simp add: demo_scripts)
  with migrations_resume [OF d, of new_db append_sql "[replicate 9 Fine @ [Late], [Fine, Lost]]"] part all show ?thesis
    unfolding Let_def p by fastforce
qed

end
