(* ===== verification/Spec2Isabelle.thy ===== *)
theory Spec2Isabelle
  imports Responses Isolation History Locks Ledger RateWindow Defects Keygen Migrate
begin

text \<open>
  A verification library of the licence server of the Vertify platform (\<open>src/apps/license-api\<close>):
  the Go code that sells, activates, renews and revokes licences, with its Redis scripts, its SQL
  and its HTTP surface.

  \<^bold>\<open>The program.\<close> Client machines call a public API (\<open>internal/httpapi/client.go\<close>, \<open>user.go\<close>): they fetch
  the public keys, activate a card (which makes a licence and binds the device), renew with another
  card, send heartbeats, give a seat back, and log in to end user accounts. Staff and agents call an
  admin API (\<open>admin.go\<close>, \<open>adminops.go\<close>) behind sessions, CSRF tokens and permissions. Both call the
  services (\<open>internal/service\<close>), these the store (\<open>internal/store\<close>, PostgreSQL) and the cache
  (\<open>internal/cache\<close>, Redis). A worker (\<open>cmd/worker\<close>) sweeps the tables now and then.

  \<^bold>\<open>Effects.\<close> A service is a function of type \<open>'a srv = world \<Rightarrow> (error + 'a) \<times> world\<close> (\<open>World\<close>). The world has
  the database (lists of records, one per table), Redis, the clock, fresh ids, and an oracle that
  decides for each statement, commit and Redis call whether it fails. A transaction of the code
  is \<open>with_tx\<close>: it runs on a copy, which replaces the database only when the body and the commit
  succeed. Errors are the sum's left side: the domain errors, the classes of database errors the
  code tells apart, texts, and panics, which \<open>Recover\<close> turns into a response. Statements run one
  after the other; where the code locks a row (\<open>FOR UPDATE\<close>) or guards an update by the old status
  this is what the locks are for, and the transactions of the model are serial. A login has neither lock nor
  transaction between its look at the account and the update; \<open>Logins\<close> splits it there (\<open>login_read\<close>,
  \<open>login_rest\<close>) and lets other logins run in between.

  \<^bold>\<open>Which theory models what.\<close>
  \<^item> \<open>Prelude\<close>, \<open>GoStrings\<close>, \<open>GoConv\<close>, \<open>Json\<close>, \<open>Float64\<close>: lists and maps; Go strings as bytes with UTF-8 runes;
    base64, hex and integer parsing; the parts of \<open>encoding/json\<close> the code uses; IEEE binary64 as
    rationals with rounding to nearest even.
  \<^item> \<open>Domain\<close> (\<open>internal/domain\<close>), \<open>Models\<close> (\<open>internal/store/models.go\<close>).
  \<^item> \<open>CardCode\<close>, \<open>SigToken\<close>, \<open>DeviceSig\<close>, \<open>Envelope\<close>, \<open>Argon2id\<close>, \<open>Totp\<close>: \<open>internal/crypto\<close>, \<open>internal/argon2id\<close>,
    \<open>internal/service/httpsig.go\<close>. The primitives (HMAC, Ed25519, ECDSA, X25519, HKDF, AEAD, Argon2id)
    are parameters in the record \<open>prims\<close>; a theorem that needs their documented laws names them.
  \<^item> \<open>Cache\<close>: the Lua scripts and commands over keys with expiry times.
  \<^item> \<open>StoreCatalog\<close>, \<open>StoreLicenses\<close>, \<open>StoreUsers\<close>, \<open>StoreAdmin\<close>: one definition per store method; the
    constraints of the schema are part of each statement.
  \<^item> \<open>Config\<close>: \<open>internal/config\<close>; \<open>Keygen\<close>: \<open>cmd/keygen\<close>, which prints a configuration with fresh keys.
  \<^item> \<open>Migrate\<close>: the migration runner of \<open>internal/store/store.go\<close>, \<open>cmd/migrate\<close> and the start of \<open>cmd/server\<close>
    that calls it. The scripts' effect on the schema is a parameter; every call to the database can fail,
    before or after it took effect.
  \<^item> \<open>Services\<close>, \<open>Replay\<close>, \<open>Activation\<close>, \<open>Heartbeat\<close>, \<open>AdminAuth\<close>, \<open>AdminSvc\<close>, \<open>AdminOps\<close>, \<open>UserSvc\<close>:
    \<open>internal/service\<close>, an operation per exported method with all its early returns.
  \<^item> \<open>Http\<close>, \<open>ClientApi\<close>, \<open>AdminApi\<close>, \<open>AdminCards\<close>, \<open>AdminRoutes\<close>, \<open>AdminRouter\<close>: \<open>internal/httpapi\<close>, every
    handler, the routers with their permissions, limits and scopes, the middlewares.
  \<^item> \<open>Server\<close>: \<open>cmd/server\<close>, \<open>cmd/worker\<close> and the step relation of a deployment: a client request, an admin
    request, a sweep, a restart, the clock, any change of Redis, any failure of the network.

  \<^bold>\<open>How the proofs are built.\<close> \<open>Frames\<close> has locales for a preorder on databases and for a set of tables
  that an operation leaves alone; each statement of the store is shown once to respect them, and the
  rules compose along the monad, through loops, transactions, handlers and routers. \<open>Sales\<close> states the
  abstract specification of selling: the invariant \<open>sales_ok\<close> and the history relation \<open>sales_safe\<close>;
  \<open>SalesTx\<close> and \<open>SalesOps\<close> show it for every transaction and service, \<open>ServerSales\<close> for every step of the
  deployment, from which its properties follow. \<open>Statements\<close> and \<open>Handlers\<close> carry the same rules through
  every store method and every handler, for any relation that the statements respect.
  The theories above them each read one promise off the whole program:
  \<^item> \<open>Responses\<close>: the answers of either router have a status and a body of the right form.
  \<^item> \<open>Access\<close>, \<open>Isolation\<close>: what an admin request must present before it reads or changes anything, and that
    an agent's requests leave the rows of other agents alone.
  \<^item> \<open>History\<close>: audit rows, licence events and ledger rows are only added; identities do not change.
  \<^item> \<open>Ledger\<close>: balances of agents equal the sum of their transactions; batches are charged, imports are not.
  \<^item> \<open>Guards\<close>: what a device must present for a heartbeat or an activation, what it then gets, and that a
    refused activation changes nothing but the risk records.
  \<^item> \<open>Renewals\<close>: what a renewal card buys, row by row, and what it was given for.
  \<^item> \<open>Logins\<close>: what a login to the back office must present, the one session it makes, and how many wrong
    guesses an account judges when any number of logins on it interleave; \<open>Locks\<close>: the count of failures and the
    lock belong together on every run.
  \<^item> \<open>Accounts\<close>: the same for the accounts of end users: whom a login admits and from which machine, and what a
    card spent on an account buys.
  \<^item> \<open>RateWindow\<close>: the rate limiter's script refines "fewer than the limit within the window".
  \<^item> \<open>JsonRound\<close>, \<open>Tokens\<close>: JSON that was written reads back; minted tokens verify, sealed envelopes open.
  \<^item> \<open>Keygen\<close>: the printed keys are read back by the configuration as the ones drawn.
  \<^item> \<open>Migrate\<close>: however often a migration is cut off, the scripts run once each and in order, and a run that
    comes to its end has the result of one that was never interrupted.
  \<^item> \<open>Defects\<close>: theorems that contradict a comment or a document of the program.
  The other theories hold the properties of one component: replay protection and seats (\<open>Cache\<close>,
  \<open>Replay\<close>), round trips of encoders, what a verification accepts, and when a configuration loads.
  \<open>Demo\<close> holds the concrete service and databases on which the witnesses run.

  \<^bold>\<open>Bounds and fuel.\<close> Integers of Go are \<open>int\<close> with the ranges written where the code checks or a parser
  enforces them; instants are nanoseconds. The retry loop of card generation (\<open>CardCode\<close>) ends by a
  measure. No definition takes fuel whose exhaustion a theorem has to exclude.

  \<^bold>\<open>Not modelled.\<close> Opening the connection pool (\<open>Open\<close> of \<open>store.go\<close>), \<open>cmd/tlscert\<close> (certificates made by a
  library), the listeners, signals and metrics of \<open>cmd/server\<close>, the access log, the security headers, the
  Chinese texts of error bodies. Interleavings inside one transaction are not modelled, and the advisory
  lock of the migration runner is taken to keep other runners out. Identifiers are compared as texts: one
  that is not a UUID finds no row, which ends in the same 404 as the code's. Days have 24 hours, as in UTC. Other operations that read and then write
  without a transaction run in one piece.
\<close>

end
